theory Spec2Isabelle
  imports Main "HOL-Library.Word"
begin

unbundle bit_operations_syntax

section \<open>The low memory killer daemon (lmkd.cpp)\<close>

text \<open>
  A shallow embedding of the parts of \<^verbatim>\<open>lmkd.cpp\<close> that maintain the process
  registry, the kill counters, the kill-in-flight wait, the victim selection, the
  \<^verbatim>\<open>TARGET\<close> command and the PSI decision engine.

  Conventions.
  \<^item> The globals of the C file are fields of state records; a function that mutates
    them takes the state and returns the new one.
  \<^item> What a function reads from the kernel (proc files, the clock, system call
    results) is an explicit environment argument.
  \<^item> \<^verbatim>\<open>int\<close>, \<^verbatim>\<open>long\<close> and \<^verbatim>\<open>int64_t\<close> values are \<open>int\<close>; the unsigned
    counters whose wrap-around the source mentions are words. C division truncates
    towards zero (\<open>c_div\<close>). A right shift whose count is not below the width of
    the shifted value is undefined in C++; the model reports it as an error.
  \<^item> A \<^verbatim>\<open>struct proc\<close> lives in a heap \<open>procs\<close> from addresses to records. The
    hash chains and the circular score lists are lists of addresses: a chain in the
    order of \<^verbatim>\<open>pidhash_next\<close>, a score list from \<^verbatim>\<open>head->next\<close> to the tail
    \<^verbatim>\<open>head->prev\<close>.
\<close>

subsection \<open>Constants and arithmetic\<close>

definition OOM_SCORE_ADJ_MIN :: int where "OOM_SCORE_ADJ_MIN = -1000"
definition OOM_SCORE_ADJ_MAX :: int where "OOM_SCORE_ADJ_MAX = 1000"
definition PERCEPTIBLE_APP_ADJ :: int where "PERCEPTIBLE_APP_ADJ = 200"
definition SYSTEM_ADJ :: int where "SYSTEM_ADJ = -900"
definition PIDHASH_SZ :: int where "PIDHASH_SZ = 1024"
definition MAX_DISTINCT_OOM_ADJ :: int where "MAX_DISTINCT_OOM_ADJ = 32"
definition KILLCNT_INVALID_IDX :: "8 word" where "KILLCNT_INVALID_IDX = 0xFF"
definition TARGET_UPDATE_MIN_INTERVAL_MS :: int where "TARGET_UPDATE_MIN_INTERVAL_MS = 1000"
definition THRASHING_RESET_INTERVAL_MS :: int where "THRASHING_RESET_INTERVAL_MS = 1000"
definition PSI_WINDOW_SIZE_MS :: int where "PSI_WINDOW_SIZE_MS = 1000"
definition PSI_POLL_PERIOD_SHORT_MS :: int where "PSI_POLL_PERIOD_SHORT_MS = 10"
definition PSI_POLL_PERIOD_LONG_MS :: int where "PSI_POLL_PERIOD_LONG_MS = 100"

definition ADJTOSLOT :: "int \<Rightarrow> int" where
  "ADJTOSLOT adj = adj + - OOM_SCORE_ADJ_MIN"

definition ADJTOSLOT_COUNT :: int where
  "ADJTOSLOT_COUNT = ADJTOSLOT OOM_SCORE_ADJ_MAX + 1"

definition pid_hashfn :: "int \<Rightarrow> int" where
  "pid_hashfn x = (drop_bit 8 x XOR x) AND (PIDHASH_SZ - 1)"

text \<open>Division as C has it: the quotient is truncated towards zero.\<close>

definition c_div :: "int \<Rightarrow> int \<Rightarrow> int" where
  "c_div a b = sgn a * sgn b * (\<bar>a\<bar> div \<bar>b\<bar>)"

record timespec =
  tv_sec :: int
  tv_nsec :: int

definition get_time_diff_ms :: "timespec \<Rightarrow> timespec \<Rightarrow> int" where
  "get_time_diff_ms from to =
     (tv_sec to - tv_sec from) * 1000 + c_div (tv_nsec to - tv_nsec from) 1000000"

definition zero_tm :: timespec where
  "zero_tm = \<lparr>tv_sec = 0, tv_nsec = 0\<rparr>"

subsection \<open>Configuration and state\<close>

text \<open>
  The tunables read by \<^verbatim>\<open>update_props\<close> and the capabilities found by
  \<^verbatim>\<open>init\<close>. \<^verbatim>\<open>kill_timeout_ms\<close> is an \<^verbatim>\<open>unsigned long\<close>.
  \<open>vendor_kill_reason_end\<close> stands for \<^verbatim>\<open>VENDOR_KILL_REASON_END\<close>,
  \<open>max_targets\<close> for \<^verbatim>\<open>MAX_TARGETS\<close> and \<open>property_value_max\<close> for
  \<^verbatim>\<open>PROPERTY_VALUE_MAX\<close>, which headers outside this file define.
\<close>

record config =
  pidfd_supported :: bool
  use_inkernel_interface :: bool
  has_inkernel_module :: bool
  per_app_memcg :: bool
  kill_heaviest_task :: bool
  kill_timeout_ms :: "64 word"
  page_k :: int
  pressure_after_kill_min_score :: int
  swap_free_low_percentage :: int
  thrashing_limit_pct :: int
  thrashing_limit_decay_pct :: int
  thrashing_critical_pct :: int
  swap_util_max :: int
  filecache_min_kb :: int
  direct_reclaim_threshold_ms :: int
  swap_compression_ratio :: int
  lowmem_min_oom_score :: int
  vendor_kill_reason_end :: int
  max_targets :: int
  property_value_max :: nat

text \<open>
  The defaults of \<^verbatim>\<open>update_props\<close> on a device that is not low-RAM, with 4 kB
  pages, pidfd support and the userspace killer; used where a property is evaluated
  on a concrete run.
\<close>

definition default_config :: config where
  "default_config = \<lparr>pidfd_supported = True, use_inkernel_interface = False,
     has_inkernel_module = False, per_app_memcg = False, kill_heaviest_task = False,
     kill_timeout_ms = 100, page_k = 4, pressure_after_kill_min_score = 0,
     swap_free_low_percentage = 10, thrashing_limit_pct = 100,
     thrashing_limit_decay_pct = 10, thrashing_critical_pct = 300, swap_util_max = 100,
     filecache_min_kb = 0, direct_reclaim_threshold_ms = 0, swap_compression_ratio = 1,
     lowmem_min_oom_score = 701, vendor_kill_reason_end = 1000, max_targets = 6,
     property_value_max = 92\<rparr>"

type_synonym addr = nat

record proc =
  pid :: int
  pidfd :: int
  uid :: int
  oomadj :: int
  reg_pid :: int
  valid :: bool

text \<open>A write attempted through \<^verbatim>\<open>writefilestring\<close>, by target file.\<close>

datatype file_write =
  Oom_score_adj int int
  | Soft_limit int int
  | Inkernel_minfree "int list"
  | Inkernel_adj "int list"

text \<open>
  The registry, the kill-in-flight value and the kill counters. \<open>closed_fds\<close> logs
  every \<^verbatim>\<open>close\<close> of a process descriptor, newest first, and \<open>watched_fds\<close> is
  the set of descriptors registered with epoll for the kill wait.
\<close>

record lmkd_state =
  procs :: "addr \<rightharpoonup> proc"
  next_addr :: addr
  pidhash :: "int \<Rightarrow> addr list"
  procadjslot_list :: "int \<Rightarrow> addr list"
  last_kill_pid_or_fd :: int
  last_kill_tm :: timespec
  closed_fds :: "int list"
  watched_fds :: "int list"
  killcnt_idx :: "int \<Rightarrow> 8 word"
  killcnt :: "int \<Rightarrow> 16 word"
  killcnt_free_idx :: int
  killcnt_total :: "32 word"
  file_writes :: "file_write list"

text \<open>
  The state \<^verbatim>\<open>init\<close> leaves: empty hash chains and score lists, no kill in
  flight, every \<^verbatim>\<open>killcnt_idx\<close> entry set to \<^verbatim>\<open>KILLCNT_INVALID_IDX\<close>.
\<close>

definition init_state :: lmkd_state where
  "init_state = \<lparr>procs = Map.empty, next_addr = 0, pidhash = (\<lambda>_. []),
     procadjslot_list = (\<lambda>_. []), last_kill_pid_or_fd = -1, last_kill_tm = zero_tm,
     closed_fds = [], watched_fds = [], killcnt_idx = (\<lambda>_. KILLCNT_INVALID_IDX),
     killcnt = (\<lambda>_. 0), killcnt_free_idx = 0, killcnt_total = 0, file_writes = []\<rparr>"

subsection \<open>Kill counters\<close>

definition inc_killcnt :: "lmkd_state \<Rightarrow> int \<Rightarrow> lmkd_state" where
  "inc_killcnt st adj =
     (let slot = ADJTOSLOT adj;
          idx = killcnt_idx st slot;
          st1 =
            (if idx = KILLCNT_INVALID_IDX then
               (if killcnt_free_idx st < MAX_DISTINCT_OOM_ADJ then
                  st\<lparr>killcnt_idx := (killcnt_idx st)(slot := word_of_int (killcnt_free_idx st)),
                     killcnt := (killcnt st)(killcnt_free_idx st := 1),
                     killcnt_free_idx := killcnt_free_idx st + 1\<rparr>
                else st)
             else st\<lparr>killcnt := (killcnt st)(uint idx := killcnt st (uint idx) + 1)\<rparr>)
      in st1\<lparr>killcnt_total := killcnt_total st1 + 1\<rparr>)"

text \<open>
  The loop of \<^verbatim>\<open>get_killcnt\<close>. The source bounds the slot from above only; a slot
  below 0 reads before the start of \<^verbatim>\<open>killcnt_idx\<close>, and a stored index that is
  neither invalid nor below 32 reads past \<^verbatim>\<open>killcnt\<close>: both are \<open>None\<close>.
\<close>

function get_killcnt_loop :: "lmkd_state \<Rightarrow> int \<Rightarrow> int \<Rightarrow> int \<Rightarrow> int option" where
  "get_killcnt_loop st min_oomadj max_oomadj count =
     (if min_oomadj \<le> max_oomadj \<and> ADJTOSLOT min_oomadj < ADJTOSLOT_COUNT then
        (if ADJTOSLOT min_oomadj < 0 then None
         else
           (let idx = killcnt_idx st (ADJTOSLOT min_oomadj) in
            if idx \<noteq> KILLCNT_INVALID_IDX then
              (if uint idx < MAX_DISTINCT_OOM_ADJ then
                 get_killcnt_loop st (min_oomadj + 1) max_oomadj
                   (count + uint (killcnt st (uint idx)))
               else None)
            else get_killcnt_loop st (min_oomadj + 1) max_oomadj count))
      else Some count)"
  by pat_completeness auto
termination
  by (relation "measure (\<lambda>(st, mn, mx, c). nat (mx + 1 - mn))") auto

text \<open>The reply is an \<^verbatim>\<open>int\<close>: the 32-bit total is read as a signed value.\<close>

definition get_killcnt :: "lmkd_state \<Rightarrow> int \<Rightarrow> int \<Rightarrow> int option" where
  "get_killcnt st min_oomadj max_oomadj =
     (if min_oomadj > max_oomadj then Some 0
      else if min_oomadj > OOM_SCORE_ADJ_MAX then Some (sint (killcnt_total st))
      else get_killcnt_loop st min_oomadj max_oomadj 0)"

definition cmd_getkillcnt :: "config \<Rightarrow> lmkd_state \<Rightarrow> int \<Rightarrow> int \<Rightarrow> int option" where
  "cmd_getkillcnt cfg st min_oomadj max_oomadj =
     (if use_inkernel_interface cfg then Some 0
      else get_killcnt st min_oomadj max_oomadj)"

text \<open>The counter kept for one score, 0 while the score has no counter assigned.\<close>

definition score_killcnt :: "lmkd_state \<Rightarrow> int \<Rightarrow> int" where
  "score_killcnt st adj =
     (if killcnt_idx st (ADJTOSLOT adj) = KILLCNT_INVALID_IDX then 0
      else uint (killcnt st (uint (killcnt_idx st (ADJTOSLOT adj)))))"

text \<open>Every assigned index points into \<^verbatim>\<open>killcnt\<close>.\<close>

definition killcnt_ok :: "lmkd_state \<Rightarrow> bool" where
  "killcnt_ok st \<longleftrightarrow>
     0 \<le> killcnt_free_idx st \<and> killcnt_free_idx st \<le> MAX_DISTINCT_OOM_ADJ \<and>
     (\<forall>slot. killcnt_idx st slot = KILLCNT_INVALID_IDX \<or>
             uint (killcnt_idx st slot) < killcnt_free_idx st)"

subsection \<open>Process registry\<close>

definition proc_has_pid :: "lmkd_state \<Rightarrow> int \<Rightarrow> addr \<Rightarrow> bool" where
  "proc_has_pid st p a = (case procs st a of Some r \<Rightarrow> pid r = p | None \<Rightarrow> False)"

definition pid_lookup :: "lmkd_state \<Rightarrow> int \<Rightarrow> addr option" where
  "pid_lookup st p = find (proc_has_pid st p) (pidhash st (pid_hashfn p))"

definition adjslot_insert :: "addr list \<Rightarrow> addr \<Rightarrow> addr list" where
  "adjslot_insert head new_element = new_element # head"

definition adjslot_tail :: "addr list \<Rightarrow> addr option" where
  "adjslot_tail head = (if head = [] then None else Some (last head))"

definition proc_slot :: "lmkd_state \<Rightarrow> addr \<Rightarrow> lmkd_state" where
  "proc_slot st a =
     (case procs st a of
        None \<Rightarrow> st
      | Some r \<Rightarrow>
          st\<lparr>procadjslot_list := (procadjslot_list st)
               (ADJTOSLOT (oomadj r) :=
                  adjslot_insert (procadjslot_list st (ADJTOSLOT (oomadj r))) a)\<rparr>)"

text \<open>
  \<^verbatim>\<open>adjslot_remove\<close> unlinks a node from whichever list its neighbours belong to;
  the score of the record is not consulted.
\<close>

definition proc_unslot :: "lmkd_state \<Rightarrow> addr \<Rightarrow> lmkd_state" where
  "proc_unslot st a =
     st\<lparr>procadjslot_list := (\<lambda>slot. removeAll a (procadjslot_list st slot))\<rparr>"

definition proc_insert :: "lmkd_state \<Rightarrow> addr \<Rightarrow> lmkd_state" where
  "proc_insert st a =
     (case procs st a of
        None \<Rightarrow> st
      | Some r \<Rightarrow>
          proc_slot
            (st\<lparr>pidhash := (pidhash st)
                 (pid_hashfn (pid r) := a # pidhash st (pid_hashfn (pid r)))\<rparr>) a)"

text \<open>
  \<^verbatim>\<open>pid_remove\<close> returns \<open>-1\<close> when the pid has no record. Otherwise the record is
  unlinked from its hash chain and its score list, its descriptor is closed unless
  it is the one the kill wait holds, and the record is freed.
\<close>

definition pid_remove :: "lmkd_state \<Rightarrow> int \<Rightarrow> int \<times> lmkd_state" where
  "pid_remove st p =
     (case pid_lookup st p of
        None \<Rightarrow> (-1, st)
      | Some a \<Rightarrow>
          (case procs st a of
             None \<Rightarrow> (-1, st)
           | Some r \<Rightarrow>
               (let st1 = st\<lparr>pidhash := (pidhash st)
                             (pid_hashfn p := remove1 a (pidhash st (pid_hashfn p)))\<rparr>;
                    st2 = proc_unslot st1 a;
                    st3 = (if pidfd r \<ge> 0 \<and> pidfd r \<noteq> last_kill_pid_or_fd st2
                           then st2\<lparr>closed_fds := pidfd r # closed_fds st2\<rparr> else st2)
                in (0, st3\<lparr>procs := (procs st3)(a := None)\<rparr>))))"

definition pid_invalidate :: "lmkd_state \<Rightarrow> int \<Rightarrow> lmkd_state" where
  "pid_invalidate st p =
     (case pid_lookup st p of
        None \<Rightarrow> st
      | Some a \<Rightarrow>
          (case procs st a of
             None \<Rightarrow> st
           | Some r \<Rightarrow> st\<lparr>procs := (procs st)(a \<mapsto> r\<lparr>valid := False\<rparr>)\<rparr>))"

definition claim_record :: "lmkd_state \<Rightarrow> addr \<Rightarrow> int \<Rightarrow> bool \<times> lmkd_state" where
  "claim_record st a caller =
     (case procs st a of
        None \<Rightarrow> (False, st)
      | Some r \<Rightarrow>
          if reg_pid r = caller then (True, st)
          else if reg_pid r = 0
            then (True, st\<lparr>procs := (procs st)(a \<mapsto> r\<lparr>reg_pid := caller\<rparr>)\<rparr>)
          else (False, st))"

text \<open>
  \<^verbatim>\<open>remove_claims\<close> visits every record on every hash chain and resets the
  registrant of those the departing peer owns.
\<close>

definition unclaim :: "int \<Rightarrow> lmkd_state \<Rightarrow> addr \<Rightarrow> lmkd_state" where
  "unclaim caller st a =
     (case procs st a of
        None \<Rightarrow> st
      | Some r \<Rightarrow>
          if reg_pid r = caller then st\<lparr>procs := (procs st)(a \<mapsto> r\<lparr>reg_pid := 0\<rparr>)\<rparr>
          else st)"

definition remove_claims :: "lmkd_state \<Rightarrow> int \<Rightarrow> lmkd_state" where
  "remove_claims st caller =
     foldl (\<lambda>s i. foldl (unclaim caller) s (pidhash s i)) st [0..PIDHASH_SZ - 1]"

subsection \<open>PROCPRIO, PROCREMOVE, PROCPURGE\<close>

text \<open>
  The process type enumeration is declared in a header outside this file; its
  bounds \<^verbatim>\<open>PROC_TYPE_FIRST\<close>, \<^verbatim>\<open>PROC_TYPE_COUNT\<close> and the member
  \<^verbatim>\<open>PROC_TYPE_APP\<close> are parameters.
\<close>

record proc_types =
  PROC_TYPE_FIRST :: int
  PROC_TYPE_APP :: int
  PROC_TYPE_COUNT :: int

record lmk_procprio =
  pp_pid :: int
  pp_uid :: int
  pp_oomadj :: int
  pp_ptype :: int

record ucred =
  cred_pid :: int
  cred_uid :: int

text \<open>
  What the kernel answers while one \<^verbatim>\<open>PROCPRIO\<close> is applied: the \<^verbatim>\<open>Tgid:\<close> of
  \<^verbatim>\<open>/proc/<pid>/status\<close> (\<open>None\<close> when the file cannot be read, \<open>Some None\<close>
  when the tag does not parse), whether \<^verbatim>\<open>oom_score_adj\<close> can be opened, whether
  the soft limit path resolves, the result of \<^verbatim>\<open>pidfd_open\<close> and whether \<^verbatim>\<open>calloc\<close> succeeds.
\<close>

record prio_env =
  status_tgid :: "int option option"
  oom_score_adj_opens :: bool
  cgroup_path_ok :: bool
  pidfd_open_result :: int
  calloc_ok :: bool

definition soft_limit_mult :: "int \<Rightarrow> int" where
  "soft_limit_mult adj =
     (if adj \<ge> 900 then 0 else if adj \<ge> 800 then 0 else if adj \<ge> 700 then 0
      else if adj \<ge> 600 then 1 else if adj \<ge> 500 then 0 else if adj \<ge> 400 then 0
      else if adj \<ge> 300 then 1 else if adj \<ge> 200 then 8 else if adj \<ge> 100 then 10
      else if adj \<ge> 0 then 20 else 64)"

definition EIGHT_MEGA :: int where "EIGHT_MEGA = 8388608"

text \<open>
  The score \<^verbatim>\<open>register_oom_adj_proc\<close> stores (its local \<^verbatim>\<open>oom_adj_score\<close>): the
  requested one, except that with per-application memcgs an application in
  \<open>[600, 700)\<close> is stored at 200.
\<close>

definition oom_adj_score :: "config \<Rightarrow> proc_types \<Rightarrow> lmk_procprio \<Rightarrow> int" where
  "oom_adj_score cfg pt prm =
     (if pp_ptype prm = PROC_TYPE_APP pt \<and> per_app_memcg cfg \<and> pp_oomadj prm < 700 \<and>
         pp_oomadj prm \<ge> 600 then 200
      else pp_oomadj prm)"

definition register_oom_adj_proc ::
  "config \<Rightarrow> proc_types \<Rightarrow> prio_env \<Rightarrow> lmkd_state \<Rightarrow> lmk_procprio \<Rightarrow> ucred \<Rightarrow> lmkd_state" where
  "register_oom_adj_proc cfg pt env st prm cred =
     (let memcg = (pp_ptype prm = PROC_TYPE_APP pt \<and> per_app_memcg cfg)
      in if memcg \<and> \<not> cgroup_path_ok env then st
         else
           (let st1 = (if memcg
                       then st\<lparr>file_writes :=
                              Soft_limit (pp_pid prm) (soft_limit_mult (pp_oomadj prm) * EIGHT_MEGA)
                                # file_writes st\<rparr>
                       else st)
            in case pid_lookup st1 (pp_pid prm) of
                 None \<Rightarrow>
                   if pidfd_supported cfg \<and> pidfd_open_result env < 0 then st1
                   else if \<not> calloc_ok env then st1
                   else
                     (let a = next_addr st1;
                          r = \<lparr>pid = pp_pid prm,
                               pidfd = (if pidfd_supported cfg then pidfd_open_result env else -1),
                               uid = pp_uid prm, oomadj = oom_adj_score cfg pt prm,
                               reg_pid = cred_pid cred, valid = True\<rparr>
                      in proc_insert
                           (st1\<lparr>procs := (procs st1)(a \<mapsto> r), next_addr := Suc a\<rparr>) a)
               | Some a \<Rightarrow>
                   (case claim_record st1 a (cred_pid cred) of
                      (False, st2) \<Rightarrow> st2
                    | (True, st2) \<Rightarrow>
                        (case procs st2 a of
                           None \<Rightarrow> st2
                         | Some r \<Rightarrow>
                             proc_slot
                               ((proc_unslot st2 a)
                                  \<lparr>procs := (procs st2)(a \<mapsto> r\<lparr>oomadj := oom_adj_score cfg pt prm\<rparr>)\<rparr>)
                               a))))"

definition apply_proc_prio ::
  "config \<Rightarrow> proc_types \<Rightarrow> prio_env \<Rightarrow> lmkd_state \<Rightarrow> lmk_procprio \<Rightarrow> ucred \<Rightarrow> lmkd_state" where
  "apply_proc_prio cfg pt env st prm cred =
     (if pp_oomadj prm < OOM_SCORE_ADJ_MIN \<or> pp_oomadj prm > OOM_SCORE_ADJ_MAX then st
      else if pp_ptype prm < PROC_TYPE_FIRST pt \<or> pp_ptype prm \<ge> PROC_TYPE_COUNT pt then st
      else if (case status_tgid env of Some (Some tgid) \<Rightarrow> tgid \<noteq> pp_pid prm | _ \<Rightarrow> False)
        then st
      else
        (let st1 = st\<lparr>file_writes :=
                       Oom_score_adj (pp_pid prm) (pp_oomadj prm) # file_writes st\<rparr>
         in if \<not> oom_score_adj_opens env then st1
            else if use_inkernel_interface cfg then st1
            else register_oom_adj_proc cfg pt env st1 prm cred))"

text \<open>
  \<^verbatim>\<open>PROCS_PRIO\<close> applies its entries in order; \<open>None\<close> is a packet that
  \<^verbatim>\<open>lmkd_pack_get_procs_prio\<close> rejects.
\<close>

definition cmd_procs_prio ::
  "config \<Rightarrow> proc_types \<Rightarrow> lmkd_state \<Rightarrow> (lmk_procprio \<times> prio_env) list option \<Rightarrow> ucred
     \<Rightarrow> lmkd_state" where
  "cmd_procs_prio cfg pt st entries cred =
     (case entries of
        None \<Rightarrow> st
      | Some es \<Rightarrow> foldl (\<lambda>s (prm, env). apply_proc_prio cfg pt env s prm cred) st es)"

definition cmd_procremove :: "config \<Rightarrow> lmkd_state \<Rightarrow> int \<Rightarrow> ucred \<Rightarrow> lmkd_state" where
  "cmd_procremove cfg st p cred =
     (if use_inkernel_interface cfg then st
      else case pid_lookup st p of
             None \<Rightarrow> st
           | Some a \<Rightarrow>
               (case claim_record st a (cred_pid cred) of
                  (False, st1) \<Rightarrow> st1
                | (True, st1) \<Rightarrow> snd (pid_remove st1 p)))"

definition purge_one :: "int \<Rightarrow> lmkd_state \<Rightarrow> addr \<Rightarrow> lmkd_state" where
  "purge_one caller st a =
     (case procs st a of
        None \<Rightarrow> st
      | Some r \<Rightarrow>
          (case claim_record st a caller of
             (False, st1) \<Rightarrow> st1
           | (True, st1) \<Rightarrow> snd (pid_remove st1 (pid r))))"

definition cmd_procpurge :: "config \<Rightarrow> lmkd_state \<Rightarrow> ucred \<Rightarrow> lmkd_state" where
  "cmd_procpurge cfg st cred =
     (if use_inkernel_interface cfg then st
      else foldl (\<lambda>s i. foldl (purge_one (cred_pid cred)) s (pidhash s i)) st
             [0..PIDHASH_SZ - 1])"

subsection \<open>Waiting for a kill\<close>

text \<open>
  Without pidfd support \<^verbatim>\<open>is_kill_pending\<close> asks whether \<^verbatim>\<open>/proc/<pid>/\<close> still
  exists; \<open>proc_dir_exists\<close> is the answer of \<^verbatim>\<open>access\<close>.
\<close>

definition is_kill_pending :: "config \<Rightarrow> bool \<Rightarrow> lmkd_state \<Rightarrow> bool" where
  "is_kill_pending cfg proc_dir_exists st =
     (if last_kill_pid_or_fd st < 0 then False
      else if pidfd_supported cfg then True
      else proc_dir_exists)"

definition is_waiting_for_kill :: "config \<Rightarrow> lmkd_state \<Rightarrow> bool" where
  "is_waiting_for_kill cfg st \<longleftrightarrow> pidfd_supported cfg \<and> last_kill_pid_or_fd st \<ge> 0"

definition stop_wait_for_proc_kill :: "config \<Rightarrow> lmkd_state \<Rightarrow> lmkd_state" where
  "stop_wait_for_proc_kill cfg st =
     (if last_kill_pid_or_fd st < 0 then st
      else
        (let st1 = (if pidfd_supported cfg
                    then st\<lparr>watched_fds := removeAll (last_kill_pid_or_fd st) (watched_fds st),
                            closed_fds := last_kill_pid_or_fd st # closed_fds st\<rparr>
                    else st)
         in st1\<lparr>last_kill_pid_or_fd := -1\<rparr>))"

definition start_wait_for_proc_kill :: "config \<Rightarrow> bool \<Rightarrow> lmkd_state \<Rightarrow> int \<Rightarrow> lmkd_state" where
  "start_wait_for_proc_kill cfg epoll_add_ok st pid_or_fd =
     (let st1 = (if last_kill_pid_or_fd st \<ge> 0 then stop_wait_for_proc_kill cfg st else st);
          st2 = st1\<lparr>last_kill_pid_or_fd := pid_or_fd\<rparr>
      in if \<not> pidfd_supported cfg then st2
         else if \<not> epoll_add_ok
           then st2\<lparr>closed_fds := pid_or_fd # closed_fds st2, last_kill_pid_or_fd := -1\<rparr>
         else st2\<lparr>watched_fds := pid_or_fd # watched_fds st2\<rparr>)"

subsection \<open>Victim selection and kill\<close>

text \<open>
  What the kernel and the reaper answer for one pid during a kill attempt:
  the resident pages of \<^verbatim>\<open>/proc/<pid>/statm\<close> as \<^verbatim>\<open>proc_get_size\<close> returns them
  (\<open>-1\<close> when the file cannot be read), the fields of \<^verbatim>\<open>/proc/<pid>/status\<close>
  (\<open>None\<close> when that file cannot be read, a field \<open>None\<close> when its tag does not
  parse), whether \<^verbatim>\<open>cmdline\<close> gives a task name, the result of the
  free-memory-before-kill hook (0 in a build without hooks), whether the descriptor
  can be added to epoll, and the result of \<^verbatim>\<open>reaper.kill\<close>.
\<close>

record proc_status =
  st_tgid :: "int option"
  st_rss_kb :: "int option"
  st_swap_kb :: "int option"

record victim_env =
  statm_rss :: int
  status :: "proc_status option"
  taskname_ok :: bool
  hook_result :: int
  epoll_add_ok :: bool
  reaper_kill_result :: int

definition proc_adj_tail :: "lmkd_state \<Rightarrow> int \<Rightarrow> addr option" where
  "proc_adj_tail st adj = adjslot_tail (procadjslot_list st (ADJTOSLOT adj))"

text \<open>
  The scan of \<^verbatim>\<open>proc_get_heaviest\<close> from \<^verbatim>\<open>head->next\<close> to the tail. A record whose
  size cannot be read is removed; a record replaces the current maximum only when
  its size is strictly larger, and the maximum starts at 0.
\<close>

fun heaviest_scan ::
  "(int \<Rightarrow> victim_env) \<Rightarrow> addr list \<Rightarrow> lmkd_state \<Rightarrow> addr option \<Rightarrow> int
     \<Rightarrow> addr option \<times> lmkd_state" where
  "heaviest_scan env [] st maxprocp maxsize = (maxprocp, st)"
| "heaviest_scan env (a # rest) st maxprocp maxsize =
     (case procs st a of
        None \<Rightarrow> heaviest_scan env rest st maxprocp maxsize
      | Some r \<Rightarrow>
          (let tasksize = statm_rss (env (pid r))
           in if tasksize < 0
                then heaviest_scan env rest (snd (pid_remove st (pid r))) maxprocp maxsize
              else if tasksize > maxsize then heaviest_scan env rest st (Some a) tasksize
              else heaviest_scan env rest st maxprocp maxsize))"

definition proc_get_heaviest ::
  "(int \<Rightarrow> victim_env) \<Rightarrow> lmkd_state \<Rightarrow> int \<Rightarrow> addr option \<times> lmkd_state" where
  "proc_get_heaviest env st adj =
     (case procadjslot_list st (ADJTOSLOT adj) of
        [a] \<Rightarrow> (Some a, st)
      | lst \<Rightarrow> heaviest_scan env lst st None 0)"

text \<open>
  \<^verbatim>\<open>kill_one_process\<close>. Every path through the label \<^verbatim>\<open>out\<close> removes the record;
  the early return after the hook does not. \<open>result\<close> is \<open>-1\<close> on the paths that
  leave before the hook, the hook's result when the reaper fails, and
  \<^verbatim>\<open>rss_kb / page_k\<close> after a kill.
\<close>

definition kill_one_process ::
  "config \<Rightarrow> (int \<Rightarrow> victim_env) \<Rightarrow> timespec \<Rightarrow> lmkd_state \<Rightarrow> addr \<Rightarrow> int \<times> lmkd_state" where
  "kill_one_process cfg env tm st a =
     (case procs st a of
        None \<Rightarrow> (-1, st)
      | Some r \<Rightarrow>
          (let e = env (pid r);
               out = (\<lambda>result s. (result, snd (pid_remove s (pid r))))
           in if \<not> valid r then out (-1) st
              else case status e of
                None \<Rightarrow> out (-1) st
              | Some ps \<Rightarrow>
                  (case st_tgid ps of
                     None \<Rightarrow> out (-1) st
                   | Some tgid \<Rightarrow>
                       if tgid \<noteq> pid r then out (-1) st
                       else case st_rss_kb ps of
                         None \<Rightarrow> out (-1) st
                       | Some rss_kb \<Rightarrow>
                           (case st_swap_kb ps of
                              None \<Rightarrow> out (-1) st
                            | Some swap_kb \<Rightarrow>
                                if \<not> taskname_ok e then out (-1) st
                                else if hook_result e > 0 then (hook_result e, st)
                                else
                                  (let st1 = start_wait_for_proc_kill cfg (epoll_add_ok e) st
                                               (if pidfd r < 0 then pid r else pidfd r)
                                   in if reaper_kill_result e \<noteq> 0
                                        then out (hook_result e) (stop_wait_for_proc_kill cfg st1)
                                      else
                                        out (c_div rss_kb (page_k cfg))
                                          (inc_killcnt (st1\<lparr>last_kill_tm := tm\<rparr>) (oomadj r)))))))"

text \<open>
  The inner \<^verbatim>\<open>while (true)\<close> of \<^verbatim>\<open>find_and_kill_process\<close> for one score. It
  leaves with the current \<open>killed_size\<close> when no candidate is found, and with the
  result of the attempt when that is not negative. A negative attempt is retried;
  the retry has removed a record from the score list, otherwise the loop runs
  forever, which is the value \<open>None\<close>.
\<close>

function kill_at_score ::
  "config \<Rightarrow> (int \<Rightarrow> victim_env) \<Rightarrow> timespec \<Rightarrow> bool \<Rightarrow> int \<Rightarrow> int \<Rightarrow> lmkd_state
     \<Rightarrow> (int \<times> lmkd_state) option" where
  "kill_at_score cfg env tm choose_heaviest_task i killed_size st =
     (case (if choose_heaviest_task then proc_get_heaviest env st i
            else (proc_adj_tail st i, st)) of
        (None, st1) \<Rightarrow> Some (killed_size, st1)
      | (Some a, st1) \<Rightarrow>
          (let res = kill_one_process cfg env tm st1 a
           in if fst res \<ge> 0 then Some res
              else if length (procadjslot_list (snd res) (ADJTOSLOT i))
                        < length (procadjslot_list st (ADJTOSLOT i))
                then kill_at_score cfg env tm choose_heaviest_task i (fst res) (snd res)
              else None))"
  by pat_completeness auto
termination
  by (relation "measure (\<lambda>(cfg, env, tm, h, i, ks, st). length (procadjslot_list st (ADJTOSLOT i)))")
    (auto simp: case_prod_beta)

text \<open>The outer loop over the scores, from \<open>i\<close> down to \<open>min_score_adj\<close>.\<close>

function find_and_kill_from ::
  "config \<Rightarrow> (int \<Rightarrow> victim_env) \<Rightarrow> timespec \<Rightarrow> int \<Rightarrow> bool \<Rightarrow> int \<Rightarrow> int \<Rightarrow> lmkd_state
     \<Rightarrow> (int \<times> lmkd_state) option" where
  "find_and_kill_from cfg env tm min_score_adj choose_heaviest_task i killed_size st =
     (if i \<ge> min_score_adj then
        (let h = (if \<not> choose_heaviest_task \<and> i \<le> PERCEPTIBLE_APP_ADJ then True
                  else choose_heaviest_task)
         in case kill_at_score cfg env tm h i killed_size st of
              None \<Rightarrow> None
            | Some (ks, st1) \<Rightarrow>
                if ks \<noteq> 0 then Some (ks, st1)
                else find_and_kill_from cfg env tm min_score_adj h (i - 1) ks st1)
      else Some (killed_size, st))"
  by pat_completeness auto
termination
  by (relation "measure (\<lambda>(cfg, env, tm, m, h, i, ks, st). nat (i + 1 - m))") auto

definition find_and_kill_process ::
  "config \<Rightarrow> (int \<Rightarrow> victim_env) \<Rightarrow> timespec \<Rightarrow> int \<Rightarrow> lmkd_state
     \<Rightarrow> (int \<times> lmkd_state) option" where
  "find_and_kill_process cfg env tm min_score_adj st =
     find_and_kill_from cfg env tm min_score_adj (kill_heaviest_task cfg) OOM_SCORE_ADJ_MAX 0 st"

subsection \<open>The TARGET command\<close>

text \<open>Decimal output of \<^verbatim>\<open>%d\<close>.\<close>

definition digit_char :: "nat \<Rightarrow> char" where
  "digit_char n = char_of (48 + n)"

function dec_nat :: "nat \<Rightarrow> string" where
  "dec_nat n = (if n < 10 then [digit_char n] else dec_nat (n div 10) @ [digit_char (n mod 10)])"
  by pat_completeness auto
termination
  by (relation "measure id") auto

definition dec_int :: "int \<Rightarrow> string" where
  "dec_int i = (if i < 0 then CHR ''-'' # dec_nat (nat (- i)) else dec_nat (nat i))"

text \<open>
  The minfree table, the time of the last applied request (the \<^verbatim>\<open>static\<close>
  \<^verbatim>\<open>last_req_tm\<close>), the value of the property \<^verbatim>\<open>sys.lmk.minfree_levels\<close> and the
  writes to the parameters of the kernel module.
\<close>

record target_state =
  lowmem_adj :: "int \<Rightarrow> int"
  lowmem_minfree :: "int \<Rightarrow> int"
  lowmem_targets_size :: int
  last_req_tm :: timespec
  minfree_levels :: "string option"
  param_writes :: "file_write list"

text \<open>
  The loop over the targets. \<open>buf\<close> is the text in \<^verbatim>\<open>minfree_str\<close> and \<open>pos\<close> the
  offset of \<^verbatim>\<open>pstr\<close>. \<^verbatim>\<open>snprintf\<close> stores what fits before the last byte and
  returns the full length; when the offset reaches the end the loop stops there.
\<close>

fun target_loop ::
  "nat \<Rightarrow> (int \<times> int) list \<Rightarrow> int \<Rightarrow> target_state \<Rightarrow> string \<Rightarrow> nat
     \<Rightarrow> target_state \<times> string \<times> nat" where
  "target_loop cap [] i st buf pos = (st, buf, pos)"
| "target_loop cap ((minfree, adj) # rest) i st buf pos =
     (let st1 = st\<lparr>lowmem_minfree := (lowmem_minfree st)(i := minfree),
                    lowmem_adj := (lowmem_adj st)(i := adj)\<rparr>;
          s = dec_int minfree @ '':'' @ dec_int adj @ '','';
          buf1 = take (cap - 1) (buf @ s);
          pos1 = pos + length s
      in if pos1 \<ge> cap then (st1, buf1, cap)
         else target_loop cap rest (i + 1) st1 buf1 pos1)"

text \<open>
  \<^verbatim>\<open>cmd_target\<close>; \<open>clock\<close> is the result of \<^verbatim>\<open>clock_gettime\<close>, \<open>None\<close> when it
  fails, and \<open>targets\<close> are the pairs of the packet. The last comma is overwritten
  by the terminator.
\<close>

definition cmd_target ::
  "config \<Rightarrow> timespec option \<Rightarrow> target_state \<Rightarrow> (int \<times> int) list \<Rightarrow> target_state" where
  "cmd_target cfg clock st targets =
     (let ntargets = int (length targets)
      in if ntargets < 1 \<or> ntargets > max_targets cfg then st
         else case clock of
           None \<Rightarrow> st
         | Some curr_tm \<Rightarrow>
             if get_time_diff_ms (last_req_tm st) curr_tm < TARGET_UPDATE_MIN_INTERVAL_MS then st
             else
               (case target_loop (property_value_max cfg) targets 0
                       (st\<lparr>last_req_tm := curr_tm\<rparr>) [] 0 of
                  (st1, buf, pos) \<Rightarrow>
                    (let st2 = st1\<lparr>lowmem_targets_size := ntargets,
                                    minfree_levels := Some (take (pos - 1) buf)\<rparr>
                     in if has_inkernel_module cfg
                          then st2\<lparr>param_writes :=
                                 Inkernel_adj
                                   (map (\<lambda>i. if use_inkernel_interface cfg then lowmem_adj st2 i
                                             else 0) [0..ntargets - 1])
                                 # Inkernel_minfree
                                     (map (\<lambda>i. if use_inkernel_interface cfg
                                               then lowmem_minfree st2 i else 0)
                                        [0..ntargets - 1])
                                 # param_writes st2\<rparr>
                        else st2)))"

text \<open>A request that passes the three checks and is applied.\<close>

definition target_applied ::
  "config \<Rightarrow> timespec option \<Rightarrow> target_state \<Rightarrow> (int \<times> int) list \<Rightarrow> bool" where
  "target_applied cfg clock st targets \<longleftrightarrow>
     1 \<le> int (length targets) \<and> int (length targets) \<le> max_targets cfg \<and>
     (case clock of
        None \<Rightarrow> False
      | Some curr_tm \<Rightarrow>
          \<not> get_time_diff_ms (last_req_tm st) curr_tm < TARGET_UPDATE_MIN_INTERVAL_MS)"

definition init_targets :: target_state where
  "init_targets = \<lparr>lowmem_adj = (\<lambda>_. 0), lowmem_minfree = (\<lambda>_. 0), lowmem_targets_size = 0,
     last_req_tm = zero_tm, minfree_levels = None, param_writes = []\<rparr>"

definition at_ms :: "int \<Rightarrow> timespec" where
  "at_ms ms = \<lparr>tv_sec = ms div 1000, tv_nsec = (ms mod 1000) * 1000000\<rparr>"

subsection \<open>The PSI decision engine: data\<close>

datatype vmpressure_level = VMPRESS_LEVEL_LOW | VMPRESS_LEVEL_MEDIUM | VMPRESS_LEVEL_CRITICAL

fun level_num :: "vmpressure_level \<Rightarrow> int" where
  "level_num VMPRESS_LEVEL_LOW = 0"
| "level_num VMPRESS_LEVEL_MEDIUM = 1"
| "level_num VMPRESS_LEVEL_CRITICAL = 2"

datatype zone_watermark = WMARK_MIN | WMARK_LOW | WMARK_HIGH | WMARK_NONE

fun wmark_num :: "zone_watermark \<Rightarrow> int" where
  "wmark_num WMARK_MIN = 0"
| "wmark_num WMARK_LOW = 1"
| "wmark_num WMARK_HIGH = 2"
| "wmark_num WMARK_NONE = 3"

datatype reclaim_state = NO_RECLAIM | KSWAPD_RECLAIM | DIRECT_RECLAIM

datatype event_source = PSI | VENDOR

text \<open>
  The kill reasons the engine assigns. The enumeration is declared outside this file;
  \<open>VENDOR_KILL n\<close> is the value \<^verbatim>\<open>n + VENDOR_KILL_REASON_BASE\<close>.
\<close>

datatype kill_reasons =
  NONE
  | PRESSURE_AFTER_KILL
  | NOT_RESPONDING
  | LOW_SWAP_AND_THRASHING
  | LOW_MEM_AND_SWAP
  | LOW_MEM_AND_THRASHING
  | DIRECT_RECL_AND_THRASHING
  | LOW_MEM_AND_SWAP_UTIL
  | LOW_FILECACHE_AFTER_THRASHING
  | LOW_MEM
  | DIRECT_RECL_STUCK
  | VENDOR_KILL int

datatype polling_update = POLLING_DO_NOT_CHANGE | POLLING_START | POLLING_PAUSE | POLLING_RESUME

record polling_params =
  poll_start_tm :: timespec
  last_poll_tm :: timespec
  polling_interval_ms :: int
  update :: polling_update

text \<open>The fields of \<^verbatim>\<open>/proc/meminfo\<close> and \<^verbatim>\<open>/proc/vmstat\<close> the engine uses, in pages.\<close>

record meminfo =
  nr_free_pages :: int
  shmem :: int
  total_swap :: int
  free_swap :: int
  active_anon :: int
  inactive_anon :: int
  cma_free :: int
  easy_available :: int

record vmstat =
  nr_inactive_file :: int
  nr_active_file :: int
  workingset_refault :: int
  workingset_refault_file :: int
  pgscan_kswapd :: int
  pgscan_direct :: int
  pgrefill :: int

record zone_watermarks =
  high_wmark :: int
  low_wmark :: int
  min_wmark :: int

record zoneinfo_zone =
  zone_present :: int
  zone_max_protection :: int
  zone_high :: int
  zone_low :: int
  zone_min :: int

text \<open>A parsed \<^verbatim>\<open>/proc/zoneinfo\<close>: the zones of each node.\<close>

type_synonym zoneinfo = "zoneinfo_zone list list"

record wakeup_info =
  wakeup_tm :: timespec
  prev_wakeup_tm :: timespec
  last_event_tm :: timespec
  wakeups_since_event :: int
  skipped_wakeups :: int

text \<open>
  The \<^verbatim>\<open>static\<close> locals of \<^verbatim>\<open>__mp_event_psi\<close> and the globals it shares with the
  event listener.
\<close>

record psi_state =
  init_ws_refault :: int
  prev_workingset_refault :: int
  base_file_lru :: int
  init_pgscan_kswapd :: int
  init_pgscan_direct :: int
  init_pgrefill :: int
  killing :: bool
  thrashing_limit :: int
  wmark_update_tm :: timespec
  wi :: wakeup_info
  thrashing_reset_tm :: timespec
  prev_thrash_growth :: int
  check_filecache :: bool
  max_thrashing :: int
  first_kill :: bool
  prev_level :: vmpressure_level
  watermarks :: zone_watermarks
  mp_event_count :: "64 word"
  direct_reclaim_start_tm :: timespec
  kswapd_start_tm :: timespec
  memevent_listener :: bool
  mem_event_update_zoneinfo_supported :: bool

text \<open>
  What one pass over the label \<^verbatim>\<open>update_watermarks\<close> reads: \<^verbatim>\<open>/proc/zoneinfo\<close>, if
  the watermarks are refreshed (\<open>None\<close> when the parse fails), and the memory PSI
  file (\<open>None\<close> when the parse fails, else whether the \<^verbatim>\<open>full avg10\<close> value exceeds
  \<^verbatim>\<open>stall_limit_critical\<close>; the comparison is on floats and is taken as given).
\<close>

record pass_env =
  zoneinfo_read :: "zoneinfo option"
  psi_mem_stall :: "bool option"

text \<open>
  What one invocation reads: the clock, whether \<^verbatim>\<open>/proc/<pid>/\<close> of the last victim
  exists, the parsed \<^verbatim>\<open>vmstat\<close> and \<^verbatim>\<open>meminfo\<close>, the reads of the first pass and of
  the pass repeated before the first kill, the victims' files, and, for a vendor
  event, its reason and minimum score.
\<close>

record psi_env =
  clock :: "timespec option"
  proc_dir_exists :: bool
  vmstat_read :: "vmstat option"
  meminfo_read :: "meminfo option"
  pass1 :: pass_env
  pass2 :: pass_env
  victims :: "int \<Rightarrow> victim_env"
  vendor_kill_reason :: int
  vendor_kill_min_oom_score_adj :: int

text \<open>The locals that the classification assigns and that a repeated pass inherits.\<close>

record psi_vars =
  kill_reason :: kill_reasons
  min_score_adj :: int
  cut_thrashing_limit :: bool
  critical_stall :: bool
  wmark :: zone_watermark

text \<open>The locals that are fixed before the label \<^verbatim>\<open>update_watermarks\<close>.\<close>

record psi_inputs =
  source :: event_source
  level :: vmpressure_level
  events :: nat
  cycle_after_kill :: bool
  swap_is_low :: bool
  thrashing :: int
  reclaim :: reclaim_state
  direct_reclaim_duration_ms :: int
  mi :: meminfo
  vs :: vmstat

text \<open>
  How an invocation ended: the \<^verbatim>\<open>return\<close> or \<^verbatim>\<open>goto no_kill\<close> it took, or the call
  of \<^verbatim>\<open>find_and_kill_process\<close> with the reason, the minimum score passed and the
  pages freed.
\<close>

datatype psi_outcome =
  Clock_failed
  | Event_ignored
  | Kill_pending_skip
  | Vmstat_failed
  | Meminfo_failed
  | Not_reclaiming
  | Zoneinfo_failed
  | Invalid_vendor_event
  | No_kill_reason
  | Kill_attempt kill_reasons int int

text \<open>
  Executions the language leaves undefined or that do not return: a shift count
  outside \<open>[0, 64)\<close>, a division by zero, the victim loop spinning.
\<close>

datatype psi_error = Shift_count_out_of_range int | Division_by_zero | Kill_loop_spins

record psi_result =
  outcome :: psi_outcome
  vars :: psi_vars
  seen_thrashing :: int
  new_psi :: psi_state
  new_lmkd :: lmkd_state
  new_poll :: polling_params

subsection \<open>The PSI decision engine: steps\<close>

definition int32_of :: "int \<Rightarrow> int" where
  "int32_of x = sint (word_of_int x :: 32 word)"

definition record_wakeup_time :: "timespec \<Rightarrow> bool \<Rightarrow> wakeup_info \<Rightarrow> wakeup_info" where
  "record_wakeup_time tm is_event w =
     (let w1 = w\<lparr>prev_wakeup_tm := wakeup_tm w, wakeup_tm := tm\<rparr>
      in if is_event
           then w1\<lparr>last_event_tm := tm, wakeups_since_event := 0, skipped_wakeups := 0\<rparr>
         else w1\<lparr>wakeups_since_event := wakeups_since_event w1 + 1\<rparr>)"

definition get_free_swap :: "config \<Rightarrow> meminfo \<Rightarrow> int" where
  "get_free_swap cfg m =
     (if swap_compression_ratio cfg \<noteq> 0
        then min (free_swap m) (easy_available m * swap_compression_ratio cfg)
      else free_swap m)"

definition get_lowest_watermark :: "meminfo \<Rightarrow> zone_watermarks \<Rightarrow> zone_watermark" where
  "get_lowest_watermark m w =
     (let free = nr_free_pages m - cma_free m
      in if free < min_wmark w then WMARK_MIN
         else if free < low_wmark w then WMARK_LOW
         else if free < high_wmark w then WMARK_HIGH
         else WMARK_NONE)"

definition calc_zone_watermarks :: "zoneinfo \<Rightarrow> zone_watermarks" where
  "calc_zone_watermarks zi =
     foldl (\<lambda>w z. if zone_present z = 0 then w
                   else w\<lparr>high_wmark := high_wmark w + (zone_max_protection z + zone_high z),
                          low_wmark := low_wmark w + (zone_max_protection z + zone_low z),
                          min_wmark := min_wmark w + (zone_max_protection z + zone_min z)\<rparr>)
       \<lparr>high_wmark = 0, low_wmark = 0, min_wmark = 0\<rparr> (concat zi)"

definition calc_swap_utilization :: "config \<Rightarrow> meminfo \<Rightarrow> int" where
  "calc_swap_utilization cfg m =
     (let swap_used = total_swap m - get_free_swap cfg m;
          total_swappable = active_anon m + inactive_anon m + shmem m + swap_used
      in int32_of (if total_swappable > 0 then c_div (swap_used * 100) total_swappable else 0))"

text \<open>
  Step 1: a PSI event below the stored level returns at once (\<open>None\<close>); another PSI
  event stores its level; a PSI wake-up without an event stores the lowest level. The
  wake-up is then recorded.
\<close>

definition psi_level_filter ::
  "event_source \<Rightarrow> vmpressure_level \<Rightarrow> nat \<Rightarrow> timespec \<Rightarrow> psi_state \<Rightarrow> psi_state option" where
  "psi_level_filter src lvl evs curr_tm ps =
     (if src = PSI then
        (if evs > 0 \<and> level_num lvl < level_num (prev_level ps) then None
         else
           (let ps1 = ps\<lparr>prev_level := (if evs > 0 then lvl else VMPRESS_LEVEL_LOW)\<rparr>
            in Some (ps1\<lparr>wi := record_wakeup_time curr_tm (evs \<noteq> 0) (wi ps1)\<rparr>)))
      else Some ps)"

text \<open>Step 2: the test that skips the wake-up while a kill is pending.\<close>

definition kill_in_flight_gate :: "config \<Rightarrow> bool \<Rightarrow> timespec \<Rightarrow> lmkd_state \<Rightarrow> bool" where
  "kill_in_flight_gate cfg proc_exists curr_tm st \<longleftrightarrow>
     is_kill_pending cfg proc_exists st \<and>
     (kill_timeout_ms cfg = 0 \<or>
      get_time_diff_ms (last_kill_tm st) curr_tm < sint (kill_timeout_ms cfg))"

text \<open>The code after the label \<^verbatim>\<open>no_kill\<close>.\<close>

definition psi_no_kill ::
  "config \<Rightarrow> nat \<Rightarrow> bool \<Rightarrow> reclaim_state \<Rightarrow> bool \<Rightarrow> lmkd_state \<Rightarrow> polling_params
     \<Rightarrow> polling_params" where
  "psi_no_kill cfg evs is_killing rcl swap_low st pp =
     (if is_waiting_for_kill cfg st then pp\<lparr>update := POLLING_PAUSE\<rparr>
      else
        (let pp1 = (if evs \<noteq> 0 \<or> is_killing \<or> rcl = DIRECT_RECLAIM
                    then pp\<lparr>update := POLLING_START\<rparr> else pp)
         in pp1\<lparr>polling_interval_ms :=
                  (if swap_low \<or> is_killing then PSI_POLL_PERIOD_SHORT_MS
                   else PSI_POLL_PERIOD_LONG_MS)\<rparr>))"

text \<open>Step 4: the reset on the wake-up that follows a kill.\<close>

definition psi_post_kill_reset :: "timespec \<Rightarrow> int \<Rightarrow> vmstat \<Rightarrow> psi_state \<Rightarrow> psi_state" where
  "psi_post_kill_reset curr_tm refault v ps =
     (if killing ps
        then ps\<lparr>killing := False, base_file_lru := nr_inactive_file v + nr_active_file v,
                init_ws_refault := refault, thrashing_reset_tm := curr_tm,
                prev_thrash_growth := 0\<rparr>
      else ps)"

text \<open>
  Step 5: the reclaim state, with the baselines it updates; \<open>None\<close> is the early
  \<^verbatim>\<open>goto no_kill\<close> of a PSI wake-up that sees neither reclaim nor new refaults.
\<close>

definition psi_reclaim_state ::
  "event_source \<Rightarrow> timespec \<Rightarrow> int \<Rightarrow> vmstat \<Rightarrow> psi_state
     \<Rightarrow> (psi_state \<times> reclaim_state \<times> int) option" where
  "psi_reclaim_state src curr_tm refault v ps =
     (let in_direct_reclaim =
            (if memevent_listener ps
               then tv_sec (direct_reclaim_start_tm ps) \<noteq> 0 \<or>
                    tv_nsec (direct_reclaim_start_tm ps) \<noteq> 0
             else pgscan_direct v \<noteq> init_pgscan_direct ps);
          in_kswapd_reclaim =
            (if memevent_listener ps
               then tv_sec (kswapd_start_tm ps) \<noteq> 0 \<or> tv_nsec (kswapd_start_tm ps) \<noteq> 0
             else pgscan_kswapd v \<noteq> init_pgscan_kswapd ps \<or> pgrefill v \<noteq> init_pgrefill ps)
      in if in_direct_reclaim
           then Some (ps\<lparr>init_pgscan_direct := pgscan_direct v,
                          init_pgscan_kswapd := pgscan_kswapd v,
                          init_pgrefill := pgrefill v\<rparr>,
                      DIRECT_RECLAIM,
                      get_time_diff_ms (direct_reclaim_start_tm ps) curr_tm)
         else if in_kswapd_reclaim
           then Some (ps\<lparr>init_pgscan_kswapd := pgscan_kswapd v, init_pgrefill := pgrefill v\<rparr>,
                      KSWAPD_RECLAIM, 0)
         else if refault = prev_workingset_refault ps \<and> src = PSI then None
         else Some (ps, NO_RECLAIM, 0))"

text \<open>
  Step 6: the thrashing counter. When more than \<^verbatim>\<open>THRASHING_RESET_INTERVAL_MS\<close> have
  passed since the window started, the growth of the window becomes
  \<open>prev_thrash_growth\<close>, decayed by a right shift unless exactly one window passed
  and the growth reached the limit; the window restarts and the limit is reset.
  Otherwise the growth so far is the current thrashing. The stored growth is added.
\<close>

definition psi_thrashing ::
  "config \<Rightarrow> timespec \<Rightarrow> int \<Rightarrow> vmstat \<Rightarrow> psi_state \<Rightarrow> psi_error + (psi_state \<times> int)" where
  "psi_thrashing cfg curr_tm refault v ps =
     (let since_thrashing_reset_ms = get_time_diff_ms (thrashing_reset_tm ps) curr_tm
      in if base_file_lru ps + 1 = 0 then Inl Division_by_zero
         else
           (let growth = c_div ((refault - init_ws_refault ps) * 100) (base_file_lru ps + 1)
            in if since_thrashing_reset_ms > THRASHING_RESET_INTERVAL_MS then
                 (let windows_passed =
                        c_div since_thrashing_reset_ms THRASHING_RESET_INTERVAL_MS;
                      decay = (windows_passed > 1 \<or> growth < thrashing_limit ps)
                  in if decay \<and> \<not> (0 \<le> windows_passed \<and> windows_passed < 64)
                       then Inl (Shift_count_out_of_range windows_passed)
                     else
                       (let g = (if decay then drop_bit (nat windows_passed) growth else growth);
                            ps1 = ps\<lparr>prev_thrash_growth := g,
                                     base_file_lru := nr_inactive_file v + nr_active_file v,
                                     init_ws_refault := refault,
                                     thrashing_reset_tm := curr_tm,
                                     thrashing_limit := thrashing_limit_pct cfg\<rparr>
                        in Inr (ps1, 0 + g)))
               else Inr (ps, growth + prev_thrash_growth ps)))"

definition psi_max_thrashing :: "int \<Rightarrow> psi_state \<Rightarrow> psi_state" where
  "psi_max_thrashing thr ps =
     (if max_thrashing ps < thr then ps\<lparr>max_thrashing := int32_of thr\<rparr> else ps)"

text \<open>
  Step 9: the chain of conditions after the watermark and the stall have been read.
  A branch assigns \<open>kill_reason\<close>; only some branches assign \<open>min_score_adj\<close>, the
  others rely on the value the variable already has. \<open>None\<close> is the \<^verbatim>\<open>return\<close> on an
  invalid vendor event.
\<close>

definition perceptible_unless ::
  "bool \<Rightarrow> psi_vars \<Rightarrow> psi_vars" where
  "perceptible_unless protect v =
     (if protect then v\<lparr>min_score_adj := PERCEPTIBLE_APP_ADJ + 1\<rparr> else v)"

definition psi_classify ::
  "config \<Rightarrow> psi_env \<Rightarrow> psi_inputs \<Rightarrow> psi_state \<Rightarrow> psi_vars \<Rightarrow> (psi_state \<times> psi_vars) option" where
  "psi_classify cfg env inp ps v =
     (let low_wm = (\<lambda>w. wmark_num (wmark v) < wmark_num w);
          thr = thrashing inp
      in if source inp = VENDOR then
           (if vendor_kill_reason env < 0 \<or> vendor_kill_reason env > vendor_kill_reason_end cfg \<or>
               vendor_kill_min_oom_score_adj env < 0
              then None
            else Some (ps, v\<lparr>kill_reason := VENDOR_KILL (vendor_kill_reason env),
                              min_score_adj := vendor_kill_min_oom_score_adj env\<rparr>))
         else if cycle_after_kill inp \<and> low_wm WMARK_LOW then
           Some (ps, v\<lparr>min_score_adj := pressure_after_kill_min_score cfg,
                        kill_reason := PRESSURE_AFTER_KILL\<rparr>)
         else if level inp = VMPRESS_LEVEL_CRITICAL \<and> events inp \<noteq> 0 then
           Some (ps, v\<lparr>kill_reason := NOT_RESPONDING\<rparr>)
         else if swap_is_low inp \<and> thr > thrashing_limit_pct cfg then
           Some (ps\<lparr>check_filecache := True\<rparr>,
                 perceptible_unless
                   (wmark_num (wmark v) > wmark_num WMARK_MIN \<and> thr < thrashing_critical_pct cfg)
                   (v\<lparr>kill_reason := LOW_SWAP_AND_THRASHING\<rparr>))
         else if swap_is_low inp \<and> low_wm WMARK_HIGH then
           Some (ps,
                 perceptible_unless
                   (wmark_num (wmark v) > wmark_num WMARK_MIN \<and> thr < thrashing_critical_pct cfg)
                   (v\<lparr>kill_reason := LOW_MEM_AND_SWAP\<rparr>))
         else if low_wm WMARK_HIGH \<and> swap_util_max cfg < 100 \<and>
                 calc_swap_utilization cfg (mi inp) > swap_util_max cfg then
           Some (ps, v\<lparr>kill_reason := LOW_MEM_AND_SWAP_UTIL\<rparr>)
         else if low_wm WMARK_HIGH \<and> thr > thrashing_limit ps then
           Some (ps\<lparr>check_filecache := True\<rparr>,
                 perceptible_unless (thr < thrashing_critical_pct cfg)
                   (v\<lparr>kill_reason := LOW_MEM_AND_THRASHING, cut_thrashing_limit := True\<rparr>))
         else if reclaim inp = DIRECT_RECLAIM \<and> thr > thrashing_limit ps then
           Some (ps\<lparr>check_filecache := True\<rparr>,
                 perceptible_unless (thr < thrashing_critical_pct cfg)
                   (v\<lparr>kill_reason := DIRECT_RECL_AND_THRASHING, cut_thrashing_limit := True\<rparr>))
         else if reclaim inp = DIRECT_RECLAIM \<and> direct_reclaim_threshold_ms cfg > 0 \<and>
                 direct_reclaim_duration_ms inp > direct_reclaim_threshold_ms cfg then
           Some (ps, v\<lparr>kill_reason := DIRECT_RECL_STUCK\<rparr>)
         else if check_filecache ps then
           (if (nr_inactive_file (vs inp) + nr_active_file (vs inp)) * page_k cfg
                 < filecache_min_kb cfg
              then Some (ps, v\<lparr>kill_reason := LOW_FILECACHE_AFTER_THRASHING,
                                min_score_adj := PERCEPTIBLE_APP_ADJ + 1\<rparr>)
            else Some (ps\<lparr>check_filecache := False\<rparr>, v))
         else Some (ps, v))"

definition psi_low_mem :: "config \<Rightarrow> psi_vars \<Rightarrow> psi_vars" where
  "psi_low_mem cfg v =
     (if kill_reason v = NONE \<and> wmark_num (wmark v) < wmark_num WMARK_HIGH
        then v\<lparr>kill_reason := LOW_MEM, min_score_adj := lowmem_min_oom_score cfg\<rparr>
      else v)"

text \<open>
  One pass from the label \<^verbatim>\<open>update_watermarks\<close> to the test of \<open>kill_reason\<close>:
  steps 7, 8 and 9. \<open>Inl\<close> carries the \<^verbatim>\<open>return\<close> taken inside the pass, with the
  state at that point.
\<close>

definition psi_pass ::
  "config \<Rightarrow> psi_env \<Rightarrow> pass_env \<Rightarrow> timespec \<Rightarrow> psi_inputs \<Rightarrow> psi_state \<Rightarrow> psi_vars
     \<Rightarrow> (psi_outcome \<times> psi_state) + (psi_state \<times> psi_vars)" where
  "psi_pass cfg env penv curr_tm inp ps v =
     (let refresh = (high_wmark (watermarks ps) = 0 \<or>
                     (\<not> mem_event_update_zoneinfo_supported ps \<and>
                      get_time_diff_ms (wmark_update_tm ps) curr_tm > 60000))
      in if refresh \<and> zoneinfo_read penv = None then Inl (Zoneinfo_failed, ps)
         else
           (let ps1 = (case (refresh, zoneinfo_read penv) of
                         (True, Some zi) \<Rightarrow>
                           ps\<lparr>watermarks := calc_zone_watermarks zi, wmark_update_tm := curr_tm\<rparr>
                       | _ \<Rightarrow> ps);
                v1 = v\<lparr>wmark := get_lowest_watermark (mi inp) (watermarks ps1)\<rparr>;
                v2 = (case psi_mem_stall penv of
                        None \<Rightarrow> v1
                      | Some b \<Rightarrow> v1\<lparr>critical_stall := b\<rparr>)
            in case psi_classify cfg env inp ps1 v2 of
                 None \<Rightarrow> Inl (Invalid_vendor_event, ps1)
               | Some (ps2, v3) \<Rightarrow> Inr (ps2, psi_low_mem cfg v3)))"

text \<open>
  Step 10 once a reason is set and the first-kill pass is done: the stall override,
  the victim selection, and the bookkeeping after a kill that freed pages.
\<close>

definition psi_kill ::
  "config \<Rightarrow> psi_env \<Rightarrow> timespec \<Rightarrow> psi_state \<Rightarrow> psi_vars \<Rightarrow> lmkd_state
     \<Rightarrow> psi_error + (psi_outcome \<times> psi_state \<times> lmkd_state)" where
  "psi_kill cfg env curr_tm ps v st =
     (let ms = (if critical_stall v then 0 else min_score_adj v)
      in case find_and_kill_process cfg (victims env) curr_tm ms st of
           None \<Rightarrow> Inl Kill_loop_spins
         | Some (pages_freed, st1) \<Rightarrow>
             (let ps1 =
                    (if pages_freed > 0 then
                       (let ps2 = ps\<lparr>killing := True, max_thrashing := 0\<rparr>
                        in if cut_thrashing_limit v
                             then ps2\<lparr>thrashing_limit :=
                                        c_div (thrashing_limit ps2 *
                                               (100 - thrashing_limit_decay_pct cfg)) 100\<rparr>
                           else ps2)
                     else ps)
              in Inr (Kill_attempt (kill_reason v) ms pages_freed, ps1, st1)))"

text \<open>
  Steps 7 to 10: a first pass; if it sets a reason while \<open>first_kill\<close> is still set,
  the flag is cleared, the watermarks are invalidated and the pass is repeated with
  the variables as the first pass left them; then the kill.
\<close>

definition psi_decide ::
  "config \<Rightarrow> psi_env \<Rightarrow> timespec \<Rightarrow> psi_inputs \<Rightarrow> psi_state \<Rightarrow> psi_vars \<Rightarrow> lmkd_state
     \<Rightarrow> psi_error + (psi_outcome \<times> psi_vars \<times> psi_state \<times> lmkd_state)" where
  "psi_decide cfg env curr_tm inp ps v st =
     (case psi_pass cfg env (pass1 env) curr_tm inp ps v of
        Inl (ret, ps1) \<Rightarrow> Inr (ret, v, ps1, st)
      | Inr (ps1, v1) \<Rightarrow>
          if kill_reason v1 = NONE then Inr (No_kill_reason, v1, ps1, st)
          else if first_kill ps1 then
            (case psi_pass cfg env (pass2 env) curr_tm inp
                    (ps1\<lparr>first_kill := False,
                          watermarks := (watermarks ps1)\<lparr>high_wmark := 0\<rparr>\<rparr>) v1 of
               Inl (ret, ps2) \<Rightarrow> Inr (ret, v1, ps2, st)
             | Inr (ps2, v2) \<Rightarrow>
                 if kill_reason v2 = NONE then Inr (No_kill_reason, v2, ps2, st)
                 else
                   (case psi_kill cfg env curr_tm ps2 v2 st of
                      Inl e \<Rightarrow> Inl e
                    | Inr (oc, ps3, st1) \<Rightarrow> Inr (oc, v2, ps3, st1)))
          else
            (case psi_kill cfg env curr_tm ps1 v1 st of
               Inl e \<Rightarrow> Inl e
             | Inr (oc, ps3, st1) \<Rightarrow> Inr (oc, v1, ps3, st1)))"

definition init_vars :: psi_vars where
  "init_vars = \<lparr>kill_reason = NONE, min_score_adj = 0, cut_thrashing_limit = False,
     critical_stall = False, wmark = WMARK_NONE\<rparr>"

definition returned :: "psi_outcome \<Rightarrow> psi_state \<Rightarrow> lmkd_state \<Rightarrow> polling_params \<Rightarrow> psi_result" where
  "returned oc ps st pp = \<lparr>outcome = oc, vars = init_vars, seen_thrashing = 0, new_psi = ps,
     new_lmkd = st, new_poll = pp\<rparr>"

text \<open>
  Steps 7 to 11 for given inputs. The \<^verbatim>\<open>return\<close>s inside a pass leave the polling
  parameters as they are; every other path runs through \<^verbatim>\<open>no_kill\<close>.
\<close>

definition psi_act ::
  "config \<Rightarrow> psi_env \<Rightarrow> timespec \<Rightarrow> psi_inputs \<Rightarrow> psi_state \<Rightarrow> lmkd_state \<Rightarrow> polling_params
     \<Rightarrow> psi_error + psi_result" where
  "psi_act cfg env curr_tm inp ps st pp =
     (case psi_decide cfg env curr_tm inp ps init_vars st of
        Inl e \<Rightarrow> Inl e
      | Inr (oc, vrs, ps1, st1) \<Rightarrow>
          Inr \<lparr>outcome = oc, vars = vrs, seen_thrashing = thrashing inp, new_psi = ps1,
               new_lmkd = st1,
               new_poll =
                 (if oc = Zoneinfo_failed \<or> oc = Invalid_vendor_event then pp
                  else psi_no_kill cfg (events inp) (killing ps1) (reclaim inp)
                         (swap_is_low inp) st1 pp)\<rparr>)"

text \<open>Steps 4 to 6 on parsed \<^verbatim>\<open>vmstat\<close> and \<^verbatim>\<open>meminfo\<close>, then the rest.\<close>

definition psi_assess ::
  "config \<Rightarrow> psi_env \<Rightarrow> event_source \<Rightarrow> vmpressure_level \<Rightarrow> nat \<Rightarrow> timespec \<Rightarrow> vmstat
     \<Rightarrow> meminfo \<Rightarrow> psi_state \<Rightarrow> lmkd_state \<Rightarrow> polling_params \<Rightarrow> psi_error + psi_result" where
  "psi_assess cfg env src lvl evs curr_tm v m ps st pp =
     (let refault = (if workingset_refault v \<noteq> 0 then workingset_refault v
                     else workingset_refault_file v);
          after_kill = killing ps;
          ps1 = psi_post_kill_reset curr_tm refault v ps;
          swap_low = (swap_free_low_percentage cfg \<noteq> 0 \<and>
                      get_free_swap cfg m
                        < c_div (total_swap m * swap_free_low_percentage cfg) 100)
      in case psi_reclaim_state src curr_tm refault v ps1 of
           None \<Rightarrow>
             Inr (returned Not_reclaiming ps1 st
                    (psi_no_kill cfg evs (killing ps1) NO_RECLAIM swap_low st pp))
         | Some (ps2, rcl, duration) \<Rightarrow>
             (case psi_thrashing cfg curr_tm refault v
                     (ps2\<lparr>prev_workingset_refault := refault\<rparr>) of
                Inl e \<Rightarrow> Inl e
              | Inr (ps3, thr) \<Rightarrow>
                  psi_act cfg env curr_tm
                    \<lparr>source = src, level = lvl, events = evs, cycle_after_kill = after_kill,
                     swap_is_low = swap_low, thrashing = thr, reclaim = rcl,
                     direct_reclaim_duration_ms = duration, mi = m, vs = v\<rparr>
                    (psi_max_thrashing thr ps3) st pp))"

text \<open>
  \<^verbatim>\<open>__mp_event_psi\<close>: the clock, step 1, the gate of step 2, the release of the wait
  and the two parses, then the steps above.
\<close>

definition mp_event_psi ::
  "config \<Rightarrow> psi_env \<Rightarrow> event_source \<Rightarrow> vmpressure_level \<Rightarrow> nat \<Rightarrow> psi_state \<Rightarrow> lmkd_state
     \<Rightarrow> polling_params \<Rightarrow> psi_error + psi_result" where
  "mp_event_psi cfg env src data_level evs ps0 st pp =
     (let lvl = (if src = PSI then data_level else VMPRESS_LEVEL_LOW);
          ps = ps0\<lparr>mp_event_count := mp_event_count ps0 + 1\<rparr>
      in case clock env of
           None \<Rightarrow> Inr (returned Clock_failed ps st pp)
         | Some curr_tm \<Rightarrow>
             (case psi_level_filter src lvl evs curr_tm ps of
                None \<Rightarrow> Inr (returned Event_ignored ps st pp)
              | Some ps1 \<Rightarrow>
                  if kill_in_flight_gate cfg (proc_dir_exists env) curr_tm st then
                    (let ps2 = ps1\<lparr>wi := (wi ps1)\<lparr>skipped_wakeups :=
                                                      skipped_wakeups (wi ps1) + 1\<rparr>\<rparr>
                     in Inr (returned Kill_pending_skip ps2 st
                               (psi_no_kill cfg evs (killing ps2) NO_RECLAIM False st pp)))
                  else
                    (case vmstat_read env of
                       None \<Rightarrow>
                         Inr (returned Vmstat_failed ps1 (stop_wait_for_proc_kill cfg st) pp)
                     | Some v \<Rightarrow>
                         (case meminfo_read env of
                            None \<Rightarrow>
                              Inr (returned Meminfo_failed ps1 (stop_wait_for_proc_kill cfg st) pp)
                          | Some m \<Rightarrow>
                              psi_assess cfg env src lvl evs curr_tm v m ps1
                                (stop_wait_for_proc_kill cfg st) pp))))"

text \<open>
  \<^verbatim>\<open>call_handler\<close> for the PSI handler of level \<open>data_level\<close>: the update is reset, the
  handler runs, the clock is read again (\<open>after_tm\<close>) and the polling state follows the
  update. \<open>poll_handler\<close> and \<open>paused_handler\<close> name the level whose handler polls.
\<close>

record poll_state =
  params :: polling_params
  poll_handler :: "vmpressure_level option"
  paused_handler :: "vmpressure_level option"

definition call_handler ::
  "config \<Rightarrow> psi_env \<Rightarrow> timespec \<Rightarrow> vmpressure_level \<Rightarrow> nat \<Rightarrow> psi_state \<Rightarrow> lmkd_state
     \<Rightarrow> poll_state \<Rightarrow> psi_error + (psi_result \<times> poll_state)" where
  "call_handler cfg env after_tm data_level evs ps st pl =
     (case mp_event_psi cfg env PSI data_level evs ps st
             ((params pl)\<lparr>update := POLLING_DO_NOT_CHANGE\<rparr>) of
        Inl e \<Rightarrow> Inl e
      | Inr res \<Rightarrow>
          (let p1 = (if poll_handler pl = Some data_level
                     then (new_poll res)\<lparr>last_poll_tm := after_tm\<rparr> else new_poll res);
               pl1 = pl\<lparr>params := p1\<rparr>
           in Inr (res,
                case update p1 of
                  POLLING_START \<Rightarrow>
                    pl1\<lparr>params := p1\<lparr>poll_start_tm := after_tm, last_poll_tm := after_tm\<rparr>,
                        poll_handler := Some data_level\<rparr>
                | POLLING_PAUSE \<Rightarrow>
                    pl1\<lparr>paused_handler := Some data_level, poll_handler := None\<rparr>
                | POLLING_RESUME \<Rightarrow>
                    pl1\<lparr>params := p1\<lparr>poll_start_tm := after_tm,
                                       polling_interval_ms := PSI_POLL_PERIOD_SHORT_MS\<rparr>,
                        poll_handler := paused_handler pl1, paused_handler := None\<rparr>
                | POLLING_DO_NOT_CHANGE \<Rightarrow>
                    if poll_handler pl1 \<noteq> None \<and>
                       get_time_diff_ms (poll_start_tm p1) after_tm > PSI_WINDOW_SIZE_MS
                      then pl1\<lparr>poll_handler := None\<rparr>
                    else pl1)))"

subsection \<open>Registry invariant and reachable states\<close>

text \<open>
  The two indexes agree with the heap: a record is on exactly the hash chain of its
  pid and on exactly the score list of its \<open>oomadj\<close>, once; no two records carry
  the same pid; every score is within \<open>[-1000, 1000]\<close>.
\<close>

definition registry_ok :: "lmkd_state \<Rightarrow> bool" where
  "registry_ok st \<longleftrightarrow>
     (\<forall>h. distinct (pidhash st h)) \<and>
     (\<forall>s. distinct (procadjslot_list st s)) \<and>
     (\<forall>h a. a \<in> set (pidhash st h) \<longleftrightarrow> (\<exists>r. procs st a = Some r \<and> pid_hashfn (pid r) = h)) \<and>
     (\<forall>s a. a \<in> set (procadjslot_list st s) \<longleftrightarrow>
        (\<exists>r. procs st a = Some r \<and> ADJTOSLOT (oomadj r) = s)) \<and>
     (\<forall>a b r r'. procs st a = Some r \<longrightarrow> procs st b = Some r' \<longrightarrow> pid r = pid r' \<longrightarrow> a = b) \<and>
     (\<forall>a r. procs st a = Some r \<longrightarrow>
        OOM_SCORE_ADJ_MIN \<le> oomadj r \<and> oomadj r \<le> OOM_SCORE_ADJ_MAX) \<and>
     (\<forall>a. next_addr st \<le> a \<longrightarrow> procs st a = None)"

text \<open>
  The states the daemon reaches from \<^verbatim>\<open>init\<close>: through the control commands, a
  peer disconnect (\<^verbatim>\<open>ctrl_data_close\<close> calls \<^verbatim>\<open>remove_claims\<close>), the watchdog
  (\<^verbatim>\<open>pid_invalidate\<close>), the end of a kill wait and a run of the victim selection.
\<close>

inductive reachable :: "config \<Rightarrow> proc_types \<Rightarrow> lmkd_state \<Rightarrow> bool"
  for cfg :: config and pt :: proc_types where
  r_init: "reachable cfg pt init_state"
| r_procprio: "reachable cfg pt st \<Longrightarrow> reachable cfg pt (apply_proc_prio cfg pt env st prm cred)"
| r_procremove: "reachable cfg pt st \<Longrightarrow> reachable cfg pt (cmd_procremove cfg st p cred)"
| r_procpurge: "reachable cfg pt st \<Longrightarrow> reachable cfg pt (cmd_procpurge cfg st cred)"
| r_disconnect: "reachable cfg pt st \<Longrightarrow> reachable cfg pt (remove_claims st p)"
| r_watchdog: "reachable cfg pt st \<Longrightarrow> reachable cfg pt (pid_invalidate st p)"
| r_stop_wait: "reachable cfg pt st \<Longrightarrow> reachable cfg pt (stop_wait_for_proc_kill cfg st)"
| r_kill: "reachable cfg pt st \<Longrightarrow> find_and_kill_process cfg venv tm min_score st = Some (n, st')
           \<Longrightarrow> reachable cfg pt st'"

text \<open>
  When a \<^verbatim>\<open>PROCPRIO\<close> goes through to the registry: the arguments are valid, the
  pid is a thread group leader as far as \<^verbatim>\<open>status\<close> tells, \<^verbatim>\<open>oom_score_adj\<close> opens,
  the userspace killer is in use, the soft limit path resolves where one is needed,
  and either the pid is new and a record can be created, or the caller may claim
  the existing record.
\<close>

definition procprio_effective ::
  "config \<Rightarrow> proc_types \<Rightarrow> prio_env \<Rightarrow> lmkd_state \<Rightarrow> lmk_procprio \<Rightarrow> ucred \<Rightarrow> bool" where
  "procprio_effective cfg pt env st prm cred \<longleftrightarrow>
     OOM_SCORE_ADJ_MIN \<le> pp_oomadj prm \<and> pp_oomadj prm \<le> OOM_SCORE_ADJ_MAX \<and>
     PROC_TYPE_FIRST pt \<le> pp_ptype prm \<and> pp_ptype prm < PROC_TYPE_COUNT pt \<and>
     (case status_tgid env of Some (Some tgid) \<Rightarrow> tgid = pp_pid prm | _ \<Rightarrow> True) \<and>
     oom_score_adj_opens env \<and> \<not> use_inkernel_interface cfg \<and>
     (pp_ptype prm = PROC_TYPE_APP pt \<and> per_app_memcg cfg \<longrightarrow> cgroup_path_ok env) \<and>
     (case pid_lookup st (pp_pid prm) of
        None \<Rightarrow> (pidfd_supported cfg \<longrightarrow> pidfd_open_result env \<ge> 0) \<and> calloc_ok env
      | Some a \<Rightarrow>
          (case procs st a of
             None \<Rightarrow> False
           | Some r \<Rightarrow> reg_pid r = cred_pid cred \<or> reg_pid r = 0))"

text \<open>A process type enumeration with two members, the first being the application.\<close>

definition two_proc_types :: proc_types where
  "two_proc_types = \<lparr>PROC_TYPE_FIRST = 0, PROC_TYPE_APP = 0, PROC_TYPE_COUNT = 2\<rparr>"

text \<open>A kernel that answers every \<^verbatim>\<open>PROCPRIO\<close> step favourably, with descriptor \<open>fd\<close>.\<close>

definition good_prio_env :: "int \<Rightarrow> int \<Rightarrow> prio_env" where
  "good_prio_env p fd = \<lparr>status_tgid = Some (Some p), oom_score_adj_opens = True,
     cgroup_path_ok = True, pidfd_open_result = fd, calloc_ok = True\<rparr>"

subsection \<open>Concrete inputs\<close>

definition system_server_cred :: ucred where
  "system_server_cred = \<lparr>cred_pid = 1000, cred_uid = 1000\<rparr>"

definition procprio :: "int \<Rightarrow> int \<Rightarrow> lmk_procprio" where
  "procprio p adj = \<lparr>pp_pid = p, pp_uid = 10001, pp_oomadj = adj, pp_ptype = 0\<rparr>"

text \<open>The registry after \<^verbatim>\<open>PROCPRIO {42, 10001, 900}\<close> from a fresh start.\<close>

definition one_proc_state :: lmkd_state where
  "one_proc_state =
     apply_proc_prio default_config two_proc_types (good_prio_env 42 7) init_state
       (procprio 42 900) system_server_cred"

text \<open>
  When \<^verbatim>\<open>kill_one_process\<close> kills: the record is valid, \<^verbatim>\<open>status\<close> reads with the
  pid as \<^verbatim>\<open>Tgid\<close> and with both memory fields, the task has a name, the hook frees
  nothing and the reaper reports success.
\<close>

definition kill_succeeds :: "(int \<Rightarrow> victim_env) \<Rightarrow> proc \<Rightarrow> bool" where
  "kill_succeeds env r \<longleftrightarrow>
     valid r \<and>
     (case status (env (pid r)) of
        None \<Rightarrow> False
      | Some ps \<Rightarrow> st_tgid ps = Some (pid r) \<and> st_rss_kb ps \<noteq> None \<and> st_swap_kb ps \<noteq> None) \<and>
     taskname_ok (env (pid r)) \<and> hook_result (env (pid r)) \<le> 0 \<and>
     reaper_kill_result (env (pid r)) = 0"

text \<open>A live process of \<open>rss\<close> kB that the reaper kills, and a process that is gone.\<close>

definition live_proc :: "int \<Rightarrow> int \<Rightarrow> victim_env" where
  "live_proc p rss = \<lparr>statm_rss = rss div 4,
     status = Some \<lparr>st_tgid = Some p, st_rss_kb = Some rss, st_swap_kb = Some 0\<rparr>,
     taskname_ok = True, hook_result = 0, epoll_add_ok = True, reaper_kill_result = 0\<rparr>"

definition gone_proc :: victim_env where
  "gone_proc = \<lparr>statm_rss = -1, status = None, taskname_ok = False, hook_result = 0,
     epoll_add_ok = True, reaper_kill_result = -1\<rparr>"

text \<open>
  The registry after \<^verbatim>\<open>PROCPRIO {100, 10001, 900}\<close> and \<^verbatim>\<open>PROCPRIO {200, 10001, 800}\<close>
  from a device without pidfd support, and a kernel in which process 100 has since
  died while process 200 is alive with 4000 kB resident.
\<close>

definition no_pidfd_config :: config where
  "no_pidfd_config = default_config\<lparr>pidfd_supported := False\<rparr>"

definition two_proc_state :: lmkd_state where
  "two_proc_state =
     apply_proc_prio no_pidfd_config two_proc_types (good_prio_env 200 (-1))
       (apply_proc_prio no_pidfd_config two_proc_types (good_prio_env 100 (-1)) init_state
          (procprio 100 900) system_server_cred)
       (procprio 200 800) system_server_cred"

definition stale_100_live_200 :: "int \<Rightarrow> victim_env" where
  "stale_100_live_200 p = (if p = 200 then live_proc 200 4000 else gone_proc)"

text \<open>The same registry once the record of process 100 has been removed.\<close>

definition after_failed_attempt :: lmkd_state where
  "after_failed_attempt = init_state
     \<lparr>procs := [1 \<mapsto> \<lparr>pid = 200, pidfd = -1, uid = 10001, oomadj = 800, reg_pid = 1000,
                        valid = True\<rparr>],
      next_addr := 2,
      pidhash := (\<lambda>_. [])(200 := [1]),
      procadjslot_list := (\<lambda>_. [])(1800 := [1]),
      file_writes := [Oom_score_adj 200 800, Oom_score_adj 100 900]\<rparr>"

subsection \<open>The minimum score of each kill reason, as specified\<close>

text \<open>
  The table of step 9 of the specification, by reason: the minimum score for the
  watermark \<open>wm\<close> and the thrashing \<open>thr\<close> seen when the reason is assigned, and
  \<open>vendor_ms\<close> for the score a vendor event carries. It follows the words of the
  specification, not the source.
\<close>

fun step9_min_score :: "config \<Rightarrow> kill_reasons \<Rightarrow> zone_watermark \<Rightarrow> int \<Rightarrow> int \<Rightarrow> int" where
  "step9_min_score cfg (VENDOR_KILL n) wm thr vendor_ms = vendor_ms"
| "step9_min_score cfg PRESSURE_AFTER_KILL wm thr vendor_ms = pressure_after_kill_min_score cfg"
| "step9_min_score cfg NOT_RESPONDING wm thr vendor_ms = 0"
| "step9_min_score cfg LOW_SWAP_AND_THRASHING wm thr vendor_ms =
     (if wmark_num wm > wmark_num WMARK_MIN \<and> thr < thrashing_critical_pct cfg
      then PERCEPTIBLE_APP_ADJ + 1 else 0)"
| "step9_min_score cfg LOW_MEM_AND_SWAP wm thr vendor_ms =
     (if wmark_num wm > wmark_num WMARK_MIN \<and> thr < thrashing_critical_pct cfg
      then PERCEPTIBLE_APP_ADJ + 1 else 0)"
| "step9_min_score cfg LOW_MEM_AND_SWAP_UTIL wm thr vendor_ms = 0"
| "step9_min_score cfg LOW_MEM_AND_THRASHING wm thr vendor_ms =
     (if thr < thrashing_critical_pct cfg then PERCEPTIBLE_APP_ADJ + 1 else 0)"
| "step9_min_score cfg DIRECT_RECL_AND_THRASHING wm thr vendor_ms =
     (if thr < thrashing_critical_pct cfg then PERCEPTIBLE_APP_ADJ + 1 else 0)"
| "step9_min_score cfg DIRECT_RECL_STUCK wm thr vendor_ms = 0"
| "step9_min_score cfg LOW_FILECACHE_AFTER_THRASHING wm thr vendor_ms = PERCEPTIBLE_APP_ADJ + 1"
| "step9_min_score cfg LOW_MEM wm thr vendor_ms = lowmem_min_oom_score cfg"
| "step9_min_score cfg NONE wm thr vendor_ms = 0"

subsection \<open>Concrete inputs for the engine\<close>

text \<open>The statics as the first invocation finds them.\<close>

definition init_wakeup_info :: wakeup_info where
  "init_wakeup_info = \<lparr>wakeup_tm = zero_tm, prev_wakeup_tm = zero_tm, last_event_tm = zero_tm,
     wakeups_since_event = 0, skipped_wakeups = 0\<rparr>"

definition init_psi :: "config \<Rightarrow> psi_state" where
  "init_psi cfg = \<lparr>init_ws_refault = 0, prev_workingset_refault = 0, base_file_lru = 0,
     init_pgscan_kswapd = 0, init_pgscan_direct = 0, init_pgrefill = 0, killing = False,
     thrashing_limit = thrashing_limit_pct cfg, wmark_update_tm = zero_tm,
     wi = init_wakeup_info, thrashing_reset_tm = zero_tm, prev_thrash_growth = 0,
     check_filecache = False, max_thrashing = 0, first_kill = True,
     prev_level = VMPRESS_LEVEL_LOW,
     watermarks = \<lparr>high_wmark = 0, low_wmark = 0, min_wmark = 0\<rparr>, mp_event_count = 0,
     direct_reclaim_start_tm = zero_tm, kswapd_start_tm = zero_tm, memevent_listener = False,
     mem_event_update_zoneinfo_supported = False\<rparr>"

definition init_poll :: polling_params where
  "init_poll = \<lparr>poll_start_tm = zero_tm, last_poll_tm = zero_tm, polling_interval_ms = 0,
     update = POLLING_DO_NOT_CHANGE\<rparr>"

definition init_poll_state :: poll_state where
  "init_poll_state = \<lparr>params = init_poll, poll_handler = None, paused_handler = None\<rparr>"

text \<open>
  A kernel at time \<open>ms\<close> whose counters have not moved: nothing reclaims and nothing
  refaults; one zone with watermarks 1000, 2000 and 3000 pages; no stall.
\<close>

definition still_vmstat :: vmstat where
  "still_vmstat = \<lparr>nr_inactive_file = 0, nr_active_file = 0, workingset_refault = 0,
     workingset_refault_file = 0, pgscan_kswapd = 0, pgscan_direct = 0, pgrefill = 0\<rparr>"

definition roomy_meminfo :: meminfo where
  "roomy_meminfo = \<lparr>nr_free_pages = 100000, shmem = 0, total_swap = 1000, free_swap = 1000,
     active_anon = 0, inactive_anon = 0, cma_free = 0, easy_available = 100000\<rparr>"

definition one_zone :: "int \<Rightarrow> int \<Rightarrow> int \<Rightarrow> zoneinfo" where
  "one_zone mn lo hi = [[\<lparr>zone_present = 1, zone_max_protection = 0, zone_high = hi,
     zone_low = lo, zone_min = mn\<rparr>]]"

definition calm_pass :: pass_env where
  "calm_pass = \<lparr>zoneinfo_read = Some (one_zone 1000 2000 3000), psi_mem_stall = Some False\<rparr>"

definition still_env :: "int \<Rightarrow> psi_env" where
  "still_env ms = \<lparr>clock = Some (at_ms ms), proc_dir_exists = False,
     vmstat_read = Some still_vmstat, meminfo_read = Some roomy_meminfo, pass1 = calm_pass,
     pass2 = calm_pass, victims = (\<lambda>_. gone_proc), vendor_kill_reason = 0,
     vendor_kill_min_oom_score_adj = 0\<rparr>"

text \<open>
  The registry right after process 42 was killed at 10000 ms, its descriptor 7 being
  waited on, and the statics after a \<^verbatim>\<open>CRITICAL\<close> event was stored.
\<close>

definition kill_in_flight_state :: lmkd_state where
  "kill_in_flight_state =
     snd (kill_one_process default_config (\<lambda>_. live_proc 42 4000) (at_ms 10000)
            one_proc_state 0)"

definition critical_stored_psi :: psi_state where
  "critical_stored_psi = (init_psi default_config)\<lparr>prev_level := VMPRESS_LEVEL_CRITICAL\<rparr>"

text \<open>The same kernel after five pages refaulted, with process 42 alive.\<close>

definition refault_env :: "int \<Rightarrow> psi_env" where
  "refault_env ms = (still_env ms)
     \<lparr>vmstat_read := Some (still_vmstat\<lparr>workingset_refault_file := 5\<rparr>),
      victims := (\<lambda>_. live_proc 42 4000)\<rparr>"

text \<open>
  A registry with one perceptible process (score 100). A first wake-up at 30000 ms with
  kswapd active, 99 pages of file cache and plenty of free memory; then, 500 ms later,
  150 pages refaulted, swap nearly exhausted and 1500 free pages, while the zone
  watermarks have meanwhile been raised from 1000, 2000, 3000 to 2000, 3000, 4000.
\<close>

definition perceptible_proc_state :: lmkd_state where
  "perceptible_proc_state =
     apply_proc_prio default_config two_proc_types (good_prio_env 42 7) init_state
       (procprio 42 100) system_server_cred"

definition kswapd_env :: psi_env where
  "kswapd_env = (still_env 30000)
     \<lparr>vmstat_read := Some (still_vmstat\<lparr>nr_inactive_file := 99, pgscan_kswapd := 1\<rparr>)\<rparr>"

definition thrash_env :: psi_env where
  "thrash_env = (still_env 30500)
     \<lparr>vmstat_read := Some (still_vmstat\<lparr>nr_inactive_file := 99, pgscan_kswapd := 1,
                                          workingset_refault_file := 150\<rparr>),
      meminfo_read := Some (roomy_meminfo\<lparr>nr_free_pages := 1500, free_swap := 50\<rparr>),
      pass2 := calm_pass\<lparr>zoneinfo_read := Some (one_zone 2000 3000 4000)\<rparr>,
      victims := (\<lambda>_. live_proc 42 4000)\<rparr>"


text \<open>
  The daemon as started, with a kernel whose counters do not move: a \<^verbatim>\<open>CRITICAL\<close> PSI
  event at 100000 ms, the polling wake-up the main loop delivers 100 ms later, and a
  \<^verbatim>\<open>MEDIUM\<close> PSI event 50 ms after that.
\<close>

definition critical_event_run :: "psi_error + (psi_result \<times> poll_state)" where
  "critical_event_run =
     call_handler default_config (still_env 100000) (at_ms 100000) VMPRESS_LEVEL_CRITICAL 1
       (init_psi default_config) init_state init_poll_state"

definition polling_tick_run :: "psi_error + (psi_result \<times> poll_state)" where
  "polling_tick_run =
     call_handler default_config (still_env 100100) (at_ms 100100) VMPRESS_LEVEL_CRITICAL 0
       (new_psi (fst (projr critical_event_run))) (new_lmkd (fst (projr critical_event_run)))
       (snd (projr critical_event_run))"

definition medium_event_run :: "psi_error + (psi_result \<times> poll_state)" where
  "medium_event_run =
     call_handler default_config (still_env 100150) (at_ms 100150) VMPRESS_LEVEL_MEDIUM 1
       (new_psi (fst (projr polling_tick_run))) (new_lmkd (fst (projr polling_tick_run)))
       (snd (projr polling_tick_run))"
section \<open>Verification\<close>

subsection \<open>Unfolding the constants\<close>

lemmas lmkd_consts =
  OOM_SCORE_ADJ_MIN_def OOM_SCORE_ADJ_MAX_def PERCEPTIBLE_APP_ADJ_def SYSTEM_ADJ_def
  PIDHASH_SZ_def MAX_DISTINCT_OOM_ADJ_def KILLCNT_INVALID_IDX_def
  TARGET_UPDATE_MIN_INTERVAL_MS_def THRASHING_RESET_INTERVAL_MS_def PSI_WINDOW_SIZE_MS_def
  PSI_POLL_PERIOD_SHORT_MS_def PSI_POLL_PERIOD_LONG_MS_def ADJTOSLOT_def ADJTOSLOT_COUNT_def


text \<open>The loops are unfolded one step at a time, by substitution.\<close>

declare get_killcnt_loop.simps [simp del]
declare kill_at_score.simps [simp del]
declare find_and_kill_from.simps [simp del]
declare dec_nat.simps [simp del]

subsection \<open>Kill counters\<close>

lemma killcnt_ok_init: "killcnt_ok init_state"
  by (simp add: killcnt_ok_def init_state_def lmkd_consts)

lemma uint_word_of_int_idx:
  assumes "0 \<le> k" "k < 32"
  shows "uint (word_of_int k :: 8 word) = k"
proof -
  have "k mod 256 = k" using assms by simp
  then show ?thesis by (simp add: uint_word_of_int)
qed

lemma word_of_int_idx_valid:
  assumes "0 \<le> k" "k < 32"
  shows "(word_of_int k :: 8 word) \<noteq> 255"
proof
  assume "(word_of_int k :: 8 word) = 255"
  then have "uint (word_of_int k :: 8 word) = 255" by simp
  with uint_word_of_int_idx [OF assms] show False using assms by simp
qed

lemma killcnt_ok_inc: "killcnt_ok st \<Longrightarrow> killcnt_ok (inc_killcnt st adj)"
  unfolding killcnt_ok_def inc_killcnt_def Let_def
  by (auto simp: lmkd_consts uint_word_of_int_idx word_of_int_idx_valid
      intro: less_le_trans order_less_trans)

lemma sum_int_head:
  fixes f :: "int \<Rightarrow> int"
  assumes "m \<le> k"
  shows "(\<Sum>s\<in>{m..k}. f s) = f m + (\<Sum>s\<in>{m + 1..k}. f s)"
proof -
  have "{m..k} = insert m {m + 1..k}" using assms by auto
  then show ?thesis by simp
qed

lemma get_killcnt_loop_sum:
  "killcnt_ok st \<Longrightarrow> - 1000 \<le> mn \<Longrightarrow>
    get_killcnt_loop st mn mx c = Some (c + (\<Sum>s\<in>{mn..min mx 1000}. score_killcnt st s))"
proof (induction st mn mx c rule: get_killcnt_loop.induct)
  case (1 st mn mx c)
  show ?case
  proof (cases "mn \<le> mx \<and> mn \<le> 1000")
    case False
    then have "{mn..min mx 1000} = {}" by auto
    with False "1.prems" show ?thesis
      by (subst get_killcnt_loop.simps) (auto simp add: lmkd_consts)
  next
    case True
    then have head: "(\<Sum>s\<in>{mn..min mx 1000}. score_killcnt st s) =
        score_killcnt st mn + (\<Sum>s\<in>{mn + 1..min mx 1000}. score_killcnt st s)"
      by (intro sum_int_head) simp
    have slot: "\<not> ADJTOSLOT mn < 0" "ADJTOSLOT mn < ADJTOSLOT_COUNT"
      using True "1.prems" by (simp_all add: lmkd_consts)
    show ?thesis
    proof (cases "killcnt_idx st (ADJTOSLOT mn) = KILLCNT_INVALID_IDX")
      case inv: True
      then have "score_killcnt st mn = 0" by (simp add: score_killcnt_def)
      moreover have "get_killcnt_loop st (mn + 1) mx c =
          Some (c + (\<Sum>s\<in>{mn + 1..min mx 1000}. score_killcnt st s))"
        using "1.IH"(2) [OF _ slot(1) refl] True inv "1.prems" slot by simp
      ultimately show ?thesis
        using True slot inv head by (subst get_killcnt_loop.simps) simp
    next
      case ninv: False
      then have lt: "uint (killcnt_idx st (ADJTOSLOT mn)) < MAX_DISTINCT_OOM_ADJ"
        using "1.prems"(1) unfolding killcnt_ok_def by (metis less_le_trans)
      have sc: "score_killcnt st mn = uint (killcnt st (uint (killcnt_idx st (ADJTOSLOT mn))))"
        using ninv by (simp add: score_killcnt_def)
      have "get_killcnt_loop st (mn + 1) mx (c + score_killcnt st mn) =
          Some (c + score_killcnt st mn + (\<Sum>s\<in>{mn + 1..min mx 1000}. score_killcnt st s))"
        using "1.IH"(1) [OF _ slot(1) refl ninv lt] True "1.prems" slot sc by simp
      then show ?thesis
        using True slot ninv lt head sc by (subst get_killcnt_loop.simps) simp
    qed
  qed
qed

text \<open>
  Claim C7, as stated, fails: a request with \<open>min_adj = 1001\<close> and \<open>max_adj = 1000\<close>
  is answered 0 by the guard \<^verbatim>\<open>min_oomadj > max_oomadj\<close>, which precedes the special
  case, although one kill has been counted.
\<close>

theorem getkillcnt_total_counterexample:
  "cmd_getkillcnt default_config (inc_killcnt init_state 900) 1001 1000 = Some 0 \<and>
   sint (killcnt_total (inc_killcnt init_state 900)) = 1"
  by (simp add: cmd_getkillcnt_def get_killcnt_def inc_killcnt_def init_state_def
      default_config_def lmkd_consts)

text \<open>
  Claim C7, amended. With the userspace backend active, a \<^verbatim>\<open>GETKILLCNT\<close> request
  whose \<open>min_adj\<close> lies in \<open>[-1000, 1000]\<close> is answered with the sum of the per-score
  kill counters over the scores of \<open>[min_adj, max_adj]\<close> (scores end at 1000); a
  request with \<open>1000 < min_adj \<le> max_adj\<close> is answered with the total kill counter;
  a request with \<open>min_adj > max_adj\<close> is answered 0.
\<close>

theorem getkillcnt_reply:
  assumes "\<not> use_inkernel_interface cfg" and "killcnt_ok st"
  shows "(- 1000 \<le> mn \<and> mn \<le> 1000 \<longrightarrow>
            cmd_getkillcnt cfg st mn mx = Some (\<Sum>s\<in>{mn..min mx 1000}. score_killcnt st s)) \<and>
         (1000 < mn \<and> mn \<le> mx \<longrightarrow>
            cmd_getkillcnt cfg st mn mx = Some (sint (killcnt_total st))) \<and>
         (mx < mn \<longrightarrow> cmd_getkillcnt cfg st mn mx = Some 0)"
proof (intro conjI impI)
  assume r: "- 1000 \<le> mn \<and> mn \<le> 1000"
  show "cmd_getkillcnt cfg st mn mx = Some (\<Sum>s\<in>{mn..min mx 1000}. score_killcnt st s)"
  proof (cases "mx < mn")
    case True
    then have "{mn..min mx 1000} = {}" by auto
    with True assms(1) show ?thesis by (simp add: cmd_getkillcnt_def get_killcnt_def)
  next
    case False
    with r assms(1) get_killcnt_loop_sum [OF assms(2), of mn mx 0] show ?thesis
      by (simp add: cmd_getkillcnt_def get_killcnt_def lmkd_consts)
  qed
next
  assume "1000 < mn \<and> mn \<le> mx"
  with assms(1) show "cmd_getkillcnt cfg st mn mx = Some (sint (killcnt_total st))"
    by (simp add: cmd_getkillcnt_def get_killcnt_def lmkd_consts)
next
  assume "mx < mn"
  with assms(1) show "cmd_getkillcnt cfg st mn mx = Some 0"
    by (simp add: cmd_getkillcnt_def get_killcnt_def)
qed

theorem getkillcnt_reply_witness:
  "\<not> use_inkernel_interface default_config \<and>
   killcnt_ok (inc_killcnt (inc_killcnt (inc_killcnt init_state 900) 800) 900) \<and>
   cmd_getkillcnt default_config
     (inc_killcnt (inc_killcnt (inc_killcnt init_state 900) 800) 900) 900 901 = Some 2 \<and>
   cmd_getkillcnt default_config
     (inc_killcnt (inc_killcnt (inc_killcnt init_state 900) 800) 900) 1001 1001 = Some 3 \<and>
   cmd_getkillcnt default_config
     (inc_killcnt (inc_killcnt (inc_killcnt init_state 900) 800) 900) 5 4 = Some 0"
proof -
  let ?st = "inc_killcnt (inc_killcnt (inc_killcnt init_state 900) 800) 900"
  have c: "\<not> use_inkernel_interface default_config" by (simp add: default_config_def)
  have ok: "killcnt_ok ?st" by (intro killcnt_ok_inc killcnt_ok_init)
  have s: "(\<Sum>s\<in>{900..min 901 1000}. score_killcnt ?st s) = 2"
    by (simp add: sum_int_head score_killcnt_def inc_killcnt_def init_state_def lmkd_consts)
  have t: "sint (killcnt_total ?st) = 3"
    by (simp add: inc_killcnt_def init_state_def lmkd_consts)
  from getkillcnt_reply [OF c ok, of 900 901] getkillcnt_reply [OF c ok, of 1001 1001]
    getkillcnt_reply [OF c ok, of 5 4] c ok s t
  show ?thesis by simp
qed

subsection \<open>Registry invariant\<close>

lemma registry_ok_frame:
  "procs st' = procs st \<Longrightarrow> pidhash st' = pidhash st \<Longrightarrow>
   procadjslot_list st' = procadjslot_list st \<Longrightarrow> next_addr st' = next_addr st \<Longrightarrow>
   registry_ok st' = registry_ok st"
  by (simp add: registry_ok_def)

lemma find_Some_set: "find P xs = Some a \<Longrightarrow> a \<in> set xs \<and> P a"
  by (induction xs) (auto split: if_splits)

lemma find_None_set: "find P xs = None \<longleftrightarrow> (\<forall>x\<in>set xs. \<not> P x)"
  by (induction xs) auto

lemma pid_lookup_Some:
  assumes "registry_ok st"
  shows "pid_lookup st p = Some a \<longleftrightarrow> (\<exists>r. procs st a = Some r \<and> pid r = p)"
proof
  assume "pid_lookup st p = Some a"
  then have "proc_has_pid st p a"
    unfolding pid_lookup_def by (auto dest: find_Some_set)
  then show "\<exists>r. procs st a = Some r \<and> pid r = p"
    by (auto simp: proc_has_pid_def split: option.splits)
next
  assume "\<exists>r. procs st a = Some r \<and> pid r = p"
  then obtain r where r: "procs st a = Some r" "pid r = p" by blast
  with assms have mem: "a \<in> set (pidhash st (pid_hashfn p))"
    unfolding registry_ok_def by blast
  have "proc_has_pid st p a" using r by (simp add: proc_has_pid_def)
  with mem have "find (proc_has_pid st p) (pidhash st (pid_hashfn p)) \<noteq> None"
    by (auto simp: find_None_set)
  then obtain b where b: "pid_lookup st p = Some b"
    unfolding pid_lookup_def by auto
  then have "proc_has_pid st p b"
    unfolding pid_lookup_def by (auto dest: find_Some_set)
  then obtain r' where "procs st b = Some r'" "pid r' = p"
    by (auto simp: proc_has_pid_def split: option.splits)
  with r assms have "a = b" unfolding registry_ok_def by metis
  with b show "pid_lookup st p = Some a" by simp
qed

lemma pid_lookup_None:
  assumes "registry_ok st"
  shows "pid_lookup st p = None \<longleftrightarrow> (\<forall>a r. procs st a = Some r \<longrightarrow> pid r \<noteq> p)"
proof -
  have "pid_lookup st p = None \<longleftrightarrow> (\<forall>a. pid_lookup st p \<noteq> Some a)" by auto
  also have "\<dots> \<longleftrightarrow> (\<forall>a r. procs st a = Some r \<longrightarrow> pid r \<noteq> p)"
    by (simp add: pid_lookup_Some [OF assms])
  finally show ?thesis .
qed

lemma registry_ok_update_record:
  assumes "registry_ok st" "procs st a = Some r" "pid r' = pid r" "oomadj r' = oomadj r"
  shows "registry_ok (st\<lparr>procs := (procs st)(a \<mapsto> r')\<rparr>)"
  using assms unfolding registry_ok_def
  apply (intro conjI)
        apply simp
       apply simp
      apply (simp; metis)
     apply (simp; metis)
    apply (simp; metis)
   apply (simp; metis)
  apply (simp; metis option.distinct(1))
  done

lemma registry_ok_pid_remove:
  assumes "registry_ok st"
  shows "registry_ok (snd (pid_remove st p))"
proof (cases "pid_lookup st p")
  case None
  then show ?thesis using assms by (simp add: pid_remove_def)
next
  case (Some a)
  then obtain r where r: "procs st a = Some r" "pid r = p"
    using pid_lookup_Some [OF assms] by blast
  define st' where "st' = st\<lparr>pidhash := (pidhash st)
      (pid_hashfn p := remove1 a (pidhash st (pid_hashfn p))),
      procadjslot_list := (\<lambda>slot. removeAll a (procadjslot_list st slot)),
      procs := (procs st)(a := None)\<rparr>"
  have ok: "registry_ok st'"
    using assms r unfolding registry_ok_def st'_def
    apply (intro conjI)
          apply (simp add: distinct_remove1)
         apply (simp add: distinct_removeAll)
        apply (simp; metis)
       apply (simp; metis)
      apply (simp; metis)
     apply (simp; metis)
    apply (simp; metis)
    done
  have "registry_ok (snd (pid_remove st p)) = registry_ok st'"
    using Some r
    by (intro registry_ok_frame)
      (simp_all add: pid_remove_def proc_unslot_def st'_def Let_def)
  with ok show ?thesis by simp
qed

lemma registry_ok_init: "registry_ok init_state"
  by (simp add: registry_ok_def init_state_def)

lemma registry_ok_insert:
  assumes ok: "registry_ok st" and fresh: "pid_lookup st (pid r) = None"
    and range: "OOM_SCORE_ADJ_MIN \<le> oomadj r" "oomadj r \<le> OOM_SCORE_ADJ_MAX"
  shows "registry_ok (proc_insert
           (st\<lparr>procs := (procs st)(next_addr st \<mapsto> r), next_addr := Suc (next_addr st)\<rparr>)
           (next_addr st))"
proof -
  let ?a = "next_addr st"
  have none: "procs st ?a = None" using ok unfolding registry_ok_def by simp
  have nopid: "\<And>b r'. procs st b = Some r' \<Longrightarrow> pid r' \<noteq> pid r"
    using fresh pid_lookup_None [OF ok] by blast
  have nh: "\<And>h. ?a \<notin> set (pidhash st h)"
    using ok none unfolding registry_ok_def by auto
  have ns: "\<And>s. ?a \<notin> set (procadjslot_list st s)"
    using ok none unfolding registry_ok_def by auto
  have eq: "proc_insert
           (st\<lparr>procs := (procs st)(?a \<mapsto> r), next_addr := Suc ?a\<rparr>) ?a =
        st\<lparr>procs := (procs st)(?a \<mapsto> r), next_addr := Suc ?a,
           pidhash := (pidhash st)(pid_hashfn (pid r) := ?a # pidhash st (pid_hashfn (pid r))),
           procadjslot_list := (procadjslot_list st)
             (ADJTOSLOT (oomadj r) := ?a # procadjslot_list st (ADJTOSLOT (oomadj r)))\<rparr>"
    by (simp add: proc_insert_def proc_slot_def adjslot_insert_def)
  show ?thesis
    unfolding eq using ok none nopid nh ns range unfolding registry_ok_def
    apply (intro conjI)
          apply simp
         apply simp
        apply (simp; metis)
       apply (simp; metis)
      apply (simp; metis)
     apply (simp; metis)
    apply simp
    done
qed

lemma registry_ok_rescore:
  assumes ok: "registry_ok st" and r: "procs st a = Some r"
    and range: "OOM_SCORE_ADJ_MIN \<le> s" "s \<le> OOM_SCORE_ADJ_MAX"
  shows "registry_ok (proc_slot
           ((proc_unslot st a)\<lparr>procs := (procs st)(a \<mapsto> r\<lparr>oomadj := s\<rparr>)\<rparr>) a)"
proof -
  have eq: "proc_slot ((proc_unslot st a)\<lparr>procs := (procs st)(a \<mapsto> r\<lparr>oomadj := s\<rparr>)\<rparr>) a =
      st\<lparr>procs := (procs st)(a \<mapsto> r\<lparr>oomadj := s\<rparr>),
         procadjslot_list := (\<lambda>slot. removeAll a (procadjslot_list st slot))
           (ADJTOSLOT s := a # removeAll a (procadjslot_list st (ADJTOSLOT s)))\<rparr>"
    by (simp add: proc_slot_def proc_unslot_def adjslot_insert_def)
  show ?thesis
    unfolding eq using ok r range unfolding registry_ok_def
    apply (intro conjI)
          apply simp
         apply (simp add: distinct_removeAll)
        apply (simp; metis)
       apply (simp; metis)
      apply (simp; metis)
     apply (simp; metis)
    apply (simp; metis option.distinct(1))
    done
qed

lemma registry_ok_claim_record:
  "registry_ok st \<Longrightarrow> registry_ok (snd (claim_record st a caller))"
  by (auto simp: claim_record_def registry_ok_update_record split: option.splits)

lemma claim_record_procs:
  "claim_record st a caller = (b, st') \<Longrightarrow> procs st a = Some r \<Longrightarrow>
     \<exists>r'. procs st' a = Some r' \<and> pid r' = pid r \<and> oomadj r' = oomadj r \<and> pidfd r' = pidfd r"
  by (auto simp: claim_record_def split: if_splits)

lemma registry_ok_unclaim: "registry_ok st \<Longrightarrow> registry_ok (unclaim caller st a)"
  by (auto simp: unclaim_def registry_ok_update_record split: option.splits)

lemma registry_ok_pid_invalidate: "registry_ok st \<Longrightarrow> registry_ok (pid_invalidate st p)"
  by (auto simp: pid_invalidate_def registry_ok_update_record split: option.splits)

lemma foldl_preserves:
  assumes "\<And>s x. P s \<Longrightarrow> P (f s x)" and "P s"
  shows "P (foldl f s xs)"
  using assms(2) by (induction xs arbitrary: s) (auto intro: assms(1))

lemma registry_ok_remove_claims: "registry_ok st \<Longrightarrow> registry_ok (remove_claims st p)"
  unfolding remove_claims_def
  by (intro foldl_preserves [where P = registry_ok]) (auto intro: registry_ok_unclaim)

lemma registry_ok_purge_one: "registry_ok st \<Longrightarrow> registry_ok (purge_one caller st a)"
  using registry_ok_claim_record [of st a caller]
  by (auto simp: purge_one_def registry_ok_pid_remove split: option.splits prod.splits bool.splits)

lemma registry_ok_cmd_procpurge: "registry_ok st \<Longrightarrow> registry_ok (cmd_procpurge cfg st cred)"
  unfolding cmd_procpurge_def
  by (auto intro!: foldl_preserves [where P = registry_ok] registry_ok_purge_one)

lemma registry_ok_cmd_procremove: "registry_ok st \<Longrightarrow> registry_ok (cmd_procremove cfg st p cred)"
  using registry_ok_claim_record
  by (auto simp: cmd_procremove_def registry_ok_pid_remove
      split: option.splits prod.splits bool.splits dest!: arg_cong [where f = snd])

lemma registry_ok_file_writes [simp]:
  "registry_ok (st\<lparr>file_writes := w\<rparr>) = registry_ok st"
  by (simp add: registry_ok_def)

lemma pid_lookup_file_writes [simp]:
  "pid_lookup (st\<lparr>file_writes := w\<rparr>) p = pid_lookup st p"
  by (simp add: pid_lookup_def proc_has_pid_def [abs_def])

lemma registry_ok_register_oom_adj_proc:
  assumes ok: "registry_ok st"
    and range: "OOM_SCORE_ADJ_MIN \<le> pp_oomadj prm" "pp_oomadj prm \<le> OOM_SCORE_ADJ_MAX"
  shows "registry_ok (register_oom_adj_proc cfg pt env st prm cred)"
proof -
  define score where "score = oom_adj_score cfg pt prm"
  have sr: "OOM_SCORE_ADJ_MIN \<le> score" "score \<le> OOM_SCORE_ADJ_MAX"
    using range by (auto simp: score_def oom_adj_score_def lmkd_consts)
  define st1 where "st1 = (if pp_ptype prm = PROC_TYPE_APP pt \<and> per_app_memcg cfg
      then st\<lparr>file_writes :=
             Soft_limit (pp_pid prm) (soft_limit_mult (pp_oomadj prm) * EIGHT_MEGA)
               # file_writes st\<rparr>
      else st)"
  have ok1: "registry_ok st1" using ok by (simp add: st1_def)
  have ins: "pid_lookup st1 (pp_pid prm) = None \<Longrightarrow>
      registry_ok (proc_insert
        (st1\<lparr>procs := (procs st1)(next_addr st1 \<mapsto>
               \<lparr>pid = pp_pid prm,
                 pidfd = (if pidfd_supported cfg then pidfd_open_result env else -1),
                 uid = pp_uid prm, oomadj = score, reg_pid = cred_pid cred, valid = True\<rparr>),
             next_addr := Suc (next_addr st1)\<rparr>) (next_addr st1))"
    using sr by (intro registry_ok_insert [OF ok1]) simp_all
  have upd: "\<And>a st2 r. claim_record st1 a (cred_pid cred) = (True, st2) \<Longrightarrow>
      procs st2 a = Some r \<Longrightarrow>
      registry_ok (proc_slot ((proc_unslot st2 a)
         \<lparr>procs := (procs st2)(a \<mapsto> r\<lparr>oomadj := score\<rparr>)\<rparr>) a)"
  proof -
    fix a st2 r
    assume c: "claim_record st1 a (cred_pid cred) = (True, st2)" and r: "procs st2 a = Some r"
    have "registry_ok st2" using registry_ok_claim_record [OF ok1, of a "cred_pid cred"] c by simp
    then show "registry_ok (proc_slot ((proc_unslot st2 a)
         \<lparr>procs := (procs st2)(a \<mapsto> r\<lparr>oomadj := score\<rparr>)\<rparr>) a)"
      using r sr by (intro registry_ok_rescore)
  qed
  have rej: "\<And>a st2. claim_record st1 a (cred_pid cred) = (False, st2) \<Longrightarrow> registry_ok st2"
    using registry_ok_claim_record [OF ok1] by (metis snd_conv)
  have cl: "\<And>a st2. claim_record st1 a (cred_pid cred) = (True, st2) \<Longrightarrow> registry_ok st2"
    using registry_ok_claim_record [OF ok1] by (metis snd_conv)
  show ?thesis
    unfolding register_oom_adj_proc_def Let_def score_def [symmetric] st1_def [symmetric]
    using ok ok1 ins upd rej cl
    by (auto split: option.splits prod.splits bool.splits)
qed

lemma registry_ok_apply_proc_prio:
  "registry_ok st \<Longrightarrow> registry_ok (apply_proc_prio cfg pt env st prm cred)"
  unfolding apply_proc_prio_def Let_def
  by (auto intro!: registry_ok_register_oom_adj_proc)

lemma registry_ok_stop_wait:
  "registry_ok (stop_wait_for_proc_kill cfg st) = registry_ok st"
  by (intro registry_ok_frame) (simp_all add: stop_wait_for_proc_kill_def Let_def)

lemma registry_ok_start_wait:
  "registry_ok (start_wait_for_proc_kill cfg ok st fd) = registry_ok st"
  by (intro registry_ok_frame)
    (simp_all add: start_wait_for_proc_kill_def stop_wait_for_proc_kill_def Let_def)

lemma registry_ok_inc_killcnt: "registry_ok (inc_killcnt st adj) = registry_ok st"
  by (intro registry_ok_frame) (simp_all add: inc_killcnt_def Let_def)

lemma registry_ok_last_kill_tm [simp]:
  "registry_ok (st\<lparr>last_kill_tm := t\<rparr>) = registry_ok st"
  by (simp add: registry_ok_def)

lemma registry_ok_kill_one_process:
  "registry_ok st \<Longrightarrow> registry_ok (snd (kill_one_process cfg env tm st a))"
  unfolding kill_one_process_def Let_def
  by (auto split: option.splits
      simp: registry_ok_pid_remove registry_ok_stop_wait registry_ok_start_wait
        registry_ok_inc_killcnt)

lemma registry_ok_heaviest_scan:
  "registry_ok st \<Longrightarrow> registry_ok (snd (heaviest_scan env lst st m sz))"
  by (induction env lst st m sz rule: heaviest_scan.induct)
    (auto simp: Let_def registry_ok_pid_remove split: option.splits)

lemma registry_ok_proc_get_heaviest:
  "registry_ok st \<Longrightarrow> registry_ok (snd (proc_get_heaviest env st adj))"
  by (auto simp: proc_get_heaviest_def registry_ok_heaviest_scan split: list.splits
      simp del: heaviest_scan.simps)

lemma registry_ok_kill_at_score:
  "registry_ok st \<Longrightarrow> kill_at_score cfg env tm h i ks st = Some (n, st') \<Longrightarrow> registry_ok st'"
proof (induction cfg env tm h i ks st rule: kill_at_score.induct)
  case (1 cfg env tm h i ks st)
  obtain procp st1 where c: "(if h then proc_get_heaviest env st i
            else (proc_adj_tail st i, st)) = (procp, st1)" by fastforce
  have ok1: "registry_ok st1"
    using c "1.prems"(1) registry_ok_proc_get_heaviest [of st env i]
    by (auto split: if_splits)
  show ?case
  proof (cases procp)
    case None
    with "1.prems"(2) c ok1 show ?thesis
      by (subst (asm) kill_at_score.simps) simp
  next
    case (Some a)
    let ?res = "kill_one_process cfg env tm st1 a"
    have ok2: "registry_ok (snd ?res)" using ok1 by (rule registry_ok_kill_one_process)
    show ?thesis
    proof (cases "fst ?res \<ge> 0")
      case True
      with "1.prems"(2) c Some ok2 show ?thesis
        by (subst (asm) kill_at_score.simps) (auto simp: Let_def)
    next
      case False
      show ?thesis
      proof (cases "length (procadjslot_list (snd ?res) (ADJTOSLOT i))
                        < length (procadjslot_list st (ADJTOSLOT i))")
        case shrink: True
        have "kill_at_score cfg env tm h i (fst ?res) (snd ?res) = Some (n, st')"
          using "1.prems"(2) c Some False shrink
          by (subst (asm) kill_at_score.simps) (simp add: Let_def)
        then show ?thesis
          using "1.IH" [OF c [symmetric] Some refl False shrink ok2] by simp
      next
        case False2: False
        with "1.prems"(2) c Some False show ?thesis
          by (subst (asm) kill_at_score.simps) (simp add: Let_def)
      qed
    qed
  qed
qed

lemma registry_ok_find_and_kill_from:
  "registry_ok st \<Longrightarrow> find_and_kill_from cfg env tm m h i ks st = Some (n, st') \<Longrightarrow>
     registry_ok st'"
proof (induction cfg env tm m h i ks st rule: find_and_kill_from.induct)
  case (1 cfg env tm m h i ks st)
  show ?case
  proof (cases "i \<ge> m")
    case False
    with "1.prems" show ?thesis by (subst (asm) find_and_kill_from.simps) simp
  next
    case True
    define h' where "h' = (if \<not> h \<and> i \<le> PERCEPTIBLE_APP_ADJ then True else h)"
    show ?thesis
    proof (cases "kill_at_score cfg env tm h' i ks st")
      case None
      with "1.prems"(2) True show ?thesis
        by (subst (asm) find_and_kill_from.simps) (simp add: h'_def Let_def)
    next
      case (Some res)
      obtain ks1 st1 where res: "res = (ks1, st1)" by (cases res)
      have ok1: "registry_ok st1"
        using registry_ok_kill_at_score [OF "1.prems"(1)] Some res by blast
      show ?thesis
      proof (cases "ks1 \<noteq> 0")
        case True
        with "1.prems"(2) \<open>i \<ge> m\<close> Some res ok1 show ?thesis
          by (subst (asm) find_and_kill_from.simps) (simp add: h'_def Let_def)
      next
        case False
        have "find_and_kill_from cfg env tm m h' (i - 1) ks1 st1 = Some (n, st')"
          using "1.prems"(2) \<open>i \<ge> m\<close> Some res False
          by (subst (asm) find_and_kill_from.simps) (simp add: h'_def Let_def)
        then show ?thesis
          using "1.IH" [OF True h'_def Some [unfolded res] _ _ ok1] False res by simp
      qed
    qed
  qed
qed

lemma reachable_registry_ok: "reachable cfg pt st \<Longrightarrow> registry_ok st"
proof (induction rule: reachable.induct)
  case r_init
  show ?case by (rule registry_ok_init)
next
  case (r_kill st venv tm min_score n st')
  then show ?case
    unfolding find_and_kill_process_def by (blast intro: registry_ok_find_and_kill_from)
qed (simp_all add: registry_ok_apply_proc_prio registry_ok_cmd_procremove
      registry_ok_cmd_procpurge registry_ok_remove_claims registry_ok_pid_invalidate
      registry_ok_stop_wait)

lemma count_list_distinct_mem:
  "distinct xs \<Longrightarrow> x \<in> set xs \<Longrightarrow> count_list xs x = 1"
  by (induction xs) (auto simp: count_list_0_iff)

lemma registry_ok_one_bucket:
  assumes ok: "registry_ok st" and r: "procs st a = Some r"
  shows "pid_lookup st (pid r) = Some a \<and>
         (\<forall>slot. a \<in> set (procadjslot_list st slot) \<longleftrightarrow> slot = oomadj r + 1000) \<and>
         count_list (procadjslot_list st (oomadj r + 1000)) a = 1 \<and>
         0 \<le> oomadj r + 1000 \<and> oomadj r + 1000 < ADJTOSLOT_COUNT"
proof (intro conjI)
  show "pid_lookup st (pid r) = Some a"
    using pid_lookup_Some [OF ok] r by blast
  show b: "\<forall>slot. a \<in> set (procadjslot_list st slot) \<longleftrightarrow> slot = oomadj r + 1000"
    using ok r unfolding registry_ok_def by (auto simp: lmkd_consts)
  have "distinct (procadjslot_list st (oomadj r + 1000))"
    using ok unfolding registry_ok_def by blast
  moreover have "a \<in> set (procadjslot_list st (oomadj r + 1000))" using b by simp
  ultimately show "count_list (procadjslot_list st (oomadj r + 1000)) a = 1"
    by (rule count_list_distinct_mem)
  have "OOM_SCORE_ADJ_MIN \<le> oomadj r \<and> oomadj r \<le> OOM_SCORE_ADJ_MAX"
    using ok r unfolding registry_ok_def by blast
  then show "0 \<le> oomadj r + 1000" "oomadj r + 1000 < ADJTOSLOT_COUNT"
    by (simp_all add: lmkd_consts)
qed

lemma procprio_effective_record:
  assumes ok: "registry_ok st" and eff: "procprio_effective cfg pt env st prm cred"
  shows "\<exists>a r'. procs (apply_proc_prio cfg pt env st prm cred) a = Some r' \<and>
           pid r' = pp_pid prm \<and> oomadj r' = oom_adj_score cfg pt prm"
proof -
  define st1 where "st1 = st\<lparr>file_writes :=
      Oom_score_adj (pp_pid prm) (pp_oomadj prm) # file_writes st\<rparr>"
  define st2 where "st2 = (if pp_ptype prm = PROC_TYPE_APP pt \<and> per_app_memcg cfg
      then st1\<lparr>file_writes :=
             Soft_limit (pp_pid prm) (soft_limit_mult (pp_oomadj prm) * EIGHT_MEGA)
               # file_writes st1\<rparr>
      else st1)"
  have lk: "pid_lookup st2 (pp_pid prm) = pid_lookup st (pp_pid prm)"
    and pr: "procs st2 = procs st" and na: "next_addr st2 = next_addr st"
    by (simp_all add: st1_def st2_def)
  have app: "apply_proc_prio cfg pt env st prm cred = register_oom_adj_proc cfg pt env st1 prm cred"
    using eff unfolding procprio_effective_def apply_proc_prio_def st1_def Let_def
    by (auto split: option.splits)
  show ?thesis
  proof (cases "pid_lookup st (pp_pid prm)")
    case None
    then have "register_oom_adj_proc cfg pt env st1 prm cred =
        proc_insert (st2\<lparr>procs := (procs st2)(next_addr st2 \<mapsto>
               \<lparr>pid = pp_pid prm,
                 pidfd = (if pidfd_supported cfg then pidfd_open_result env else -1),
                 uid = pp_uid prm, oomadj = oom_adj_score cfg pt prm,
                 reg_pid = cred_pid cred, valid = True\<rparr>),
             next_addr := Suc (next_addr st2)\<rparr>) (next_addr st2)"
      using eff lk unfolding procprio_effective_def register_oom_adj_proc_def
        st2_def [symmetric] Let_def
      by (auto split: option.splits)
    then show ?thesis
      unfolding app
      by (intro exI [where x = "next_addr st2"])
        (simp add: proc_insert_def proc_slot_def)
  next
    case (Some a)
    then obtain r where r: "procs st a = Some r" "reg_pid r = cred_pid cred \<or> reg_pid r = 0"
      using eff unfolding procprio_effective_def by (auto split: option.splits)
    have pidr: "pid r = pp_pid prm" using pid_lookup_Some [OF ok] Some r by auto
    have "fst (claim_record st2 a (cred_pid cred))"
      using r pr by (auto simp: claim_record_def)
    then obtain st3 where c: "claim_record st2 a (cred_pid cred) = (True, st3)"
      by (cases "claim_record st2 a (cred_pid cred)") auto
    obtain r3 where r3: "procs st3 a = Some r3" "pid r3 = pid r"
      using claim_record_procs [OF c, of r] r pr by auto
    have "register_oom_adj_proc cfg pt env st1 prm cred =
        proc_slot ((proc_unslot st3 a)
           \<lparr>procs := (procs st3)(a \<mapsto> r3\<lparr>oomadj := oom_adj_score cfg pt prm\<rparr>)\<rparr>) a"
      using eff lk Some c r3 unfolding procprio_effective_def register_oom_adj_proc_def
        st2_def [symmetric] Let_def
      by (auto split: option.splits)
    then show ?thesis
      unfolding app using r3 pidr
      by (intro exI [where x = a]) (simp add: proc_slot_def proc_unslot_def)
  qed
qed

text \<open>
  Claim C5. In every state the daemon reaches, a record that is registered (allocated
  by a \<^verbatim>\<open>PROCPRIO\<close> and not yet removed) is found by \<open>pid_lookup\<close> under its pid
  and lies on exactly one score list, once: the list with index \<open>oomadj + 1000\<close>,
  which is a slot of the table. After a \<^verbatim>\<open>PROCPRIO\<close> that goes through, the pid has
  a record, its \<open>oomadj\<close> is the score the command stores, and the list of that
  score is the only one holding the record.
\<close>

theorem registry_one_bucket:
  assumes "reachable cfg pt st"
  shows "(\<forall>a r. procs st a = Some r \<longrightarrow>
            pid_lookup st (pid r) = Some a \<and>
            (\<forall>slot. a \<in> set (procadjslot_list st slot) \<longleftrightarrow> slot = oomadj r + 1000) \<and>
            count_list (procadjslot_list st (oomadj r + 1000)) a = 1 \<and>
            0 \<le> oomadj r + 1000 \<and> oomadj r + 1000 < ADJTOSLOT_COUNT) \<and>
         (\<forall>env prm cred. procprio_effective cfg pt env st prm cred \<longrightarrow>
            (\<exists>a r'. pid_lookup (apply_proc_prio cfg pt env st prm cred) (pp_pid prm) = Some a \<and>
               procs (apply_proc_prio cfg pt env st prm cred) a = Some r' \<and>
               oomadj r' = oom_adj_score cfg pt prm \<and>
               (\<forall>slot. a \<in> set (procadjslot_list (apply_proc_prio cfg pt env st prm cred) slot)
                   \<longleftrightarrow> slot = oom_adj_score cfg pt prm + 1000)))"
proof (intro conjI allI impI)
  fix a r assume "procs st a = Some r"
  with registry_ok_one_bucket [OF reachable_registry_ok [OF assms]]
  show "pid_lookup st (pid r) = Some a"
    "a \<in> set (procadjslot_list st slot) \<longleftrightarrow> slot = oomadj r + 1000"
    "count_list (procadjslot_list st (oomadj r + 1000)) a = 1"
    "0 \<le> oomadj r + 1000" "oomadj r + 1000 < ADJTOSLOT_COUNT" for slot
    by blast+
next
  fix env prm cred
  assume eff: "procprio_effective cfg pt env st prm cred"
  let ?st' = "apply_proc_prio cfg pt env st prm cred"
  have ok: "registry_ok st" by (rule reachable_registry_ok [OF assms])
  have ok': "registry_ok ?st'" by (rule registry_ok_apply_proc_prio [OF ok])
  obtain a r' where r': "procs ?st' a = Some r'" "pid r' = pp_pid prm"
    "oomadj r' = oom_adj_score cfg pt prm"
    using procprio_effective_record [OF ok eff] by blast
  from registry_ok_one_bucket [OF ok' r'(1)] r'
  show "\<exists>a r'. pid_lookup ?st' (pp_pid prm) = Some a \<and> procs ?st' a = Some r' \<and>
               oomadj r' = oom_adj_score cfg pt prm \<and>
               (\<forall>slot. a \<in> set (procadjslot_list ?st' slot)
                   \<longleftrightarrow> slot = oom_adj_score cfg pt prm + 1000)"
    by auto
qed

lemmas registry_defs =
  apply_proc_prio_def register_oom_adj_proc_def oom_adj_score_def pid_lookup_def
  proc_has_pid_def pid_hashfn_def proc_insert_def proc_slot_def proc_unslot_def
  adjslot_insert_def claim_record_def pid_remove_def

lemmas concrete_defs =
  default_config_def two_proc_types_def good_prio_env_def init_state_def procprio_def
  system_server_cred_def zero_tm_def

lemma one_proc_state_eq:
  "one_proc_state = init_state
     \<lparr>procs := [0 \<mapsto> \<lparr>pid = 42, pidfd = 7, uid = 10001, oomadj = 900, reg_pid = 1000,
                        valid = True\<rparr>],
      next_addr := 1,
      pidhash := (\<lambda>_. [])(42 := [0]),
      procadjslot_list := (\<lambda>_. [])(1900 := [0]),
      file_writes := [Oom_score_adj 42 900]\<rparr>"
  by (simp add: one_proc_state_def registry_defs concrete_defs lmkd_consts Let_def)

theorem registry_one_bucket_witness:
  "reachable default_config two_proc_types one_proc_state \<and>
   procs one_proc_state 0 =
     Some \<lparr>pid = 42, pidfd = 7, uid = 10001, oomadj = 900, reg_pid = 1000, valid = True\<rparr> \<and>
   pid_lookup one_proc_state 42 = Some 0 \<and>
   (\<forall>slot. 0 \<in> set (procadjslot_list one_proc_state slot) \<longleftrightarrow> slot = 1900) \<and>
   procprio_effective default_config two_proc_types (good_prio_env 42 7) one_proc_state
     (procprio 42 800) system_server_cred \<and>
   (\<exists>a r'. pid_lookup (apply_proc_prio default_config two_proc_types (good_prio_env 42 7)
                         one_proc_state (procprio 42 800) system_server_cred) 42 = Some a \<and>
      procs (apply_proc_prio default_config two_proc_types (good_prio_env 42 7)
               one_proc_state (procprio 42 800) system_server_cred) a = Some r' \<and>
      oomadj r' = 800 \<and>
      (\<forall>slot. a \<in> set (procadjslot_list
                    (apply_proc_prio default_config two_proc_types (good_prio_env 42 7)
                       one_proc_state (procprio 42 800) system_server_cred) slot)
         \<longleftrightarrow> slot = 1800))"
proof -
  have reach: "reachable default_config two_proc_types one_proc_state"
    unfolding one_proc_state_def by (intro r_procprio r_init)
  have r: "procs one_proc_state 0 =
     Some \<lparr>pid = 42, pidfd = 7, uid = 10001, oomadj = 900, reg_pid = 1000, valid = True\<rparr>"
    by (simp add: one_proc_state_eq)
  have eff: "procprio_effective default_config two_proc_types (good_prio_env 42 7)
     one_proc_state (procprio 42 800) system_server_cred"
    by (simp add: procprio_effective_def one_proc_state_eq pid_lookup_def proc_has_pid_def
        pid_hashfn_def concrete_defs lmkd_consts)
  have sc: "oom_adj_score default_config two_proc_types (procprio 42 800) = 800"
    by (simp add: oom_adj_score_def concrete_defs)
  have pp: "pp_pid (procprio 42 800) = 42" by (simp add: procprio_def)
  note main = registry_one_bucket [OF reach]
  from main [THEN conjunct1, rule_format, OF r]
  have a: "pid_lookup one_proc_state 42 = Some 0"
    "\<forall>slot. 0 \<in> set (procadjslot_list one_proc_state slot) \<longleftrightarrow> slot = 1900"
    by simp_all
  from main [THEN conjunct2, rule_format, OF eff]
  have b: "\<exists>a r'. pid_lookup (apply_proc_prio default_config two_proc_types (good_prio_env 42 7)
                         one_proc_state (procprio 42 800) system_server_cred) 42 = Some a \<and>
      procs (apply_proc_prio default_config two_proc_types (good_prio_env 42 7)
               one_proc_state (procprio 42 800) system_server_cred) a = Some r' \<and>
      oomadj r' = 800 \<and>
      (\<forall>slot. a \<in> set (procadjslot_list
                    (apply_proc_prio default_config two_proc_types (good_prio_env 42 7)
                       one_proc_state (procprio 42 800) system_server_cred) slot)
         \<longleftrightarrow> slot = 1800)"
    unfolding sc pp by simp
  from reach r a eff b show ?thesis by blast
qed

subsection \<open>Removal and the process descriptor\<close>

lemma pid_remove_effect:
  assumes ok: "registry_ok st" and r: "procs st a = Some r"
  shows "pid_remove st (pid r) =
     (0, st\<lparr>pidhash := (pidhash st)
              (pid_hashfn (pid r) := remove1 a (pidhash st (pid_hashfn (pid r)))),
            procadjslot_list := (\<lambda>slot. removeAll a (procadjslot_list st slot)),
            closed_fds := (if pidfd r \<ge> 0 \<and> pidfd r \<noteq> last_kill_pid_or_fd st
                           then pidfd r # closed_fds st else closed_fds st),
            procs := (procs st)(a := None)\<rparr>)"
proof -
  have "pid_lookup st (pid r) = Some a" using pid_lookup_Some [OF ok] r by blast
  then show ?thesis using r by (simp add: pid_remove_def proc_unslot_def Let_def)
qed

lemma pid_remove_gone:
  assumes ok: "registry_ok st" and r: "procs st a = Some r"
  shows "pid_lookup (snd (pid_remove st (pid r))) (pid r) = None"
    and "procs (snd (pid_remove st (pid r))) a = None"
    and "a \<notin> set (pidhash (snd (pid_remove st (pid r))) h)"
    and "a \<notin> set (procadjslot_list (snd (pid_remove st (pid r))) s)"
proof -
  let ?st' = "snd (pid_remove st (pid r))"
  have ok': "registry_ok ?st'" by (rule registry_ok_pid_remove [OF ok])
  show n: "procs ?st' a = None" by (simp add: pid_remove_effect [OF ok r])
  have "\<And>b r'. procs ?st' b = Some r' \<Longrightarrow> pid r' \<noteq> pid r"
  proof
    fix b r' assume b: "procs ?st' b = Some r'" and e: "pid r' = pid r"
    then have "b \<noteq> a" using n by auto
    with b have "procs st b = Some r'" by (simp add: pid_remove_effect [OF ok r])
    with r e ok have "a = b" unfolding registry_ok_def by metis
    with \<open>b \<noteq> a\<close> show False by simp
  qed
  then show "pid_lookup ?st' (pid r) = None" using pid_lookup_None [OF ok'] by blast
  show "a \<notin> set (pidhash ?st' h)" using ok' n unfolding registry_ok_def by auto
  show "a \<notin> set (procadjslot_list ?st' s)" using ok' n unfolding registry_ok_def by auto
qed

lemma kill_one_process_success:
  assumes r: "procs st a = Some r" and succ: "kill_succeeds env r"
  shows "kill_one_process cfg env tm st a =
     (c_div (the (st_rss_kb (the (status (env (pid r)))))) (page_k cfg),
      snd (pid_remove
        (inc_killcnt
          ((start_wait_for_proc_kill cfg (epoll_add_ok (env (pid r))) st
              (if pidfd r < 0 then pid r else pidfd r))\<lparr>last_kill_tm := tm\<rparr>)
          (oomadj r))
        (pid r)))"
  using r succ unfolding kill_one_process_def kill_succeeds_def Let_def
  by (auto split: option.splits)

text \<open>
  Claim C6. After \<^verbatim>\<open>kill_one_process\<close> kills the process of a registered record,
  the pid has no record and the record is on no hash chain and no score list. The
  removal closes the record's descriptor exactly when the record has one and it is
  not the kill-in-flight value: the log of closes grows by that descriptor, or not at
  all, over the log as \<^verbatim>\<open>start_wait_for_proc_kill\<close> left it. A descriptor that is
  the kill-in-flight value is closed when \<^verbatim>\<open>stop_wait_for_proc_kill\<close> ends the wait.
\<close>

theorem kill_removes_record_and_keeps_inflight_fd:
  assumes ok: "registry_ok st" and r: "procs st a = Some r" and succ: "kill_succeeds env r"
  shows "pid_lookup (snd (kill_one_process cfg env tm st a)) (pid r) = None \<and>
         procs (snd (kill_one_process cfg env tm st a)) a = None \<and>
         (\<forall>h. a \<notin> set (pidhash (snd (kill_one_process cfg env tm st a)) h)) \<and>
         (\<forall>s. a \<notin> set (procadjslot_list (snd (kill_one_process cfg env tm st a)) s)) \<and>
         closed_fds (snd (kill_one_process cfg env tm st a)) =
           (if pidfd r \<ge> 0 \<and>
               pidfd r \<noteq> last_kill_pid_or_fd (snd (kill_one_process cfg env tm st a))
            then pidfd r # closed_fds (start_wait_for_proc_kill cfg (epoll_add_ok (env (pid r))) st
                                        (if pidfd r < 0 then pid r else pidfd r))
            else closed_fds (start_wait_for_proc_kill cfg (epoll_add_ok (env (pid r))) st
                               (if pidfd r < 0 then pid r else pidfd r))) \<and>
         (pidfd_supported cfg \<and> pidfd r \<ge> 0 \<and>
          pidfd r = last_kill_pid_or_fd (snd (kill_one_process cfg env tm st a)) \<longrightarrow>
            closed_fds (stop_wait_for_proc_kill cfg (snd (kill_one_process cfg env tm st a))) =
              pidfd r # closed_fds (snd (kill_one_process cfg env tm st a)) \<and>
            last_kill_pid_or_fd
              (stop_wait_for_proc_kill cfg (snd (kill_one_process cfg env tm st a))) = -1)"
proof -
  define st1 where "st1 = start_wait_for_proc_kill cfg (epoll_add_ok (env (pid r))) st
      (if pidfd r < 0 then pid r else pidfd r)"
  define mid where "mid = inc_killcnt (st1\<lparr>last_kill_tm := tm\<rparr>) (oomadj r)"
  define st' where "st' = snd (pid_remove mid (pid r))"
  have k: "snd (kill_one_process cfg env tm st a) = st'"
    by (simp add: kill_one_process_success [OF r succ] st'_def mid_def st1_def)
  have frame1: "procs st1 = procs st" "pidhash st1 = pidhash st"
    "procadjslot_list st1 = procadjslot_list st" "next_addr st1 = next_addr st"
    by (simp_all add: st1_def start_wait_for_proc_kill_def stop_wait_for_proc_kill_def Let_def)
  have frame: "procs mid = procs st" "pidhash mid = pidhash st"
    "procadjslot_list mid = procadjslot_list st" "next_addr mid = next_addr st"
    "closed_fds mid = closed_fds st1" "last_kill_pid_or_fd mid = last_kill_pid_or_fd st1"
    using frame1 by (simp_all add: mid_def inc_killcnt_def Let_def)
  have okm: "registry_ok mid"
    using ok registry_ok_frame [OF frame(1-4)] by simp
  have rm: "procs mid a = Some r" using r frame by simp
  have lk: "last_kill_pid_or_fd st' = last_kill_pid_or_fd st1"
    and cl: "closed_fds st' = (if pidfd r \<ge> 0 \<and> pidfd r \<noteq> last_kill_pid_or_fd st1
                           then pidfd r # closed_fds st1 else closed_fds st1)"
    unfolding st'_def by (simp_all add: pid_remove_effect [OF okm rm] frame)
  have stop: "pidfd_supported cfg \<Longrightarrow> pidfd r \<ge> 0 \<Longrightarrow> pidfd r = last_kill_pid_or_fd st' \<Longrightarrow>
      closed_fds (stop_wait_for_proc_kill cfg st') = pidfd r # closed_fds st' \<and>
      last_kill_pid_or_fd (stop_wait_for_proc_kill cfg st') = -1"
    by (simp add: stop_wait_for_proc_kill_def Let_def)
  show ?thesis
    unfolding k st1_def [symmetric]
    using pid_remove_gone [OF okm rm, folded st'_def] lk cl stop by auto
qed

lemmas kill_defs =
  kill_one_process_def start_wait_for_proc_kill_def stop_wait_for_proc_kill_def
  inc_killcnt_def c_div_def live_proc_def gone_proc_def

lemma one_proc_state_killed:
  "kill_one_process default_config (\<lambda>_. live_proc 42 4000) tm one_proc_state 0 =
     (1000, init_state
       \<lparr>next_addr := 1,
        pidhash := (\<lambda>_. [])(42 := []),
        procadjslot_list := (\<lambda>slot. removeAll 0 (((\<lambda>_. [])(1900 := [0])) slot)),
        last_kill_pid_or_fd := 7, last_kill_tm := tm, watched_fds := [7],
        killcnt_idx := (\<lambda>_. KILLCNT_INVALID_IDX)(1900 := 0),
        killcnt := (\<lambda>_. 0)(0 := 1), killcnt_free_idx := 1, killcnt_total := 1,
        file_writes := [Oom_score_adj 42 900]\<rparr>)"
  by (simp add: one_proc_state_eq kill_defs registry_defs concrete_defs lmkd_consts Let_def)

theorem kill_removes_record_and_keeps_inflight_fd_witness:
  "registry_ok one_proc_state \<and>
   procs one_proc_state 0 =
     Some \<lparr>pid = 42, pidfd = 7, uid = 10001, oomadj = 900, reg_pid = 1000, valid = True\<rparr> \<and>
   kill_succeeds (\<lambda>_. live_proc 42 4000)
     \<lparr>pid = 42, pidfd = 7, uid = 10001, oomadj = 900, reg_pid = 1000, valid = True\<rparr> \<and>
   pid_lookup (snd (kill_one_process default_config (\<lambda>_. live_proc 42 4000) zero_tm
                      one_proc_state 0)) 42 = None \<and>
   last_kill_pid_or_fd (snd (kill_one_process default_config (\<lambda>_. live_proc 42 4000) zero_tm
                      one_proc_state 0)) = 7 \<and>
   closed_fds (snd (kill_one_process default_config (\<lambda>_. live_proc 42 4000) zero_tm
                      one_proc_state 0)) = [] \<and>
   closed_fds (stop_wait_for_proc_kill default_config
                 (snd (kill_one_process default_config (\<lambda>_. live_proc 42 4000) zero_tm
                         one_proc_state 0))) = [7]"
proof -
  let ?r = "\<lparr>pid = 42, pidfd = 7, uid = 10001, oomadj = 900, reg_pid = 1000, valid = True\<rparr>"
  let ?st' = "snd (kill_one_process default_config (\<lambda>_. live_proc 42 4000) zero_tm
                      one_proc_state 0)"
  have ok: "registry_ok one_proc_state"
    unfolding one_proc_state_def
    by (intro registry_ok_apply_proc_prio registry_ok_init)
  have r: "procs one_proc_state 0 = Some ?r" by (simp add: one_proc_state_eq)
  have succ: "kill_succeeds (\<lambda>_. live_proc 42 4000) ?r"
    by (simp add: kill_succeeds_def live_proc_def)
  have lk: "last_kill_pid_or_fd ?st' = 7" and cl: "closed_fds ?st' = []"
    by (simp_all add: one_proc_state_killed init_state_def)
  have sup: "pidfd_supported default_config" by (simp add: default_config_def)
  note main = kill_removes_record_and_keeps_inflight_fd
    [OF ok r succ, of default_config zero_tm]
  from main have a: "pid_lookup ?st' 42 = None" by simp
  from main sup lk cl
  have b: "closed_fds (stop_wait_for_proc_kill default_config ?st') = [7]" by simp
  from ok r succ a lk cl b show ?thesis by blast
qed

text \<open>
  Claim C10. A \<^verbatim>\<open>PROCPRIO\<close> whose \<open>oomadj\<close> is outside \<open>[-1000, 1000]\<close> or whose
  process type is outside the enumeration leaves the whole state as it was: no write
  to \<^verbatim>\<open>oom_score_adj\<close> is logged and the registry is unchanged. An entry of a
  \<^verbatim>\<open>PROCS_PRIO\<close> batch that is invalid in this way has no effect on the outcome of the
  batch.
\<close>

theorem invalid_procprio_rejected:
  assumes "pp_oomadj prm < OOM_SCORE_ADJ_MIN \<or> pp_oomadj prm > OOM_SCORE_ADJ_MAX \<or>
           pp_ptype prm < PROC_TYPE_FIRST pt \<or> pp_ptype prm \<ge> PROC_TYPE_COUNT pt"
  shows "apply_proc_prio cfg pt env st prm cred = st \<and>
         cmd_procs_prio cfg pt st (Some (es1 @ (prm, env) # es2)) cred =
           cmd_procs_prio cfg pt st (Some (es1 @ es2)) cred"
proof -
  have a: "\<And>s. apply_proc_prio cfg pt env s prm cred = s"
    using assms by (auto simp: apply_proc_prio_def)
  then show ?thesis by (simp add: cmd_procs_prio_def)
qed

theorem invalid_procprio_rejected_witness:
  "(pp_oomadj (procprio 42 1001) < OOM_SCORE_ADJ_MIN \<or>
    pp_oomadj (procprio 42 1001) > OOM_SCORE_ADJ_MAX \<or>
    pp_ptype (procprio 42 1001) < PROC_TYPE_FIRST two_proc_types \<or>
    pp_ptype (procprio 42 1001) \<ge> PROC_TYPE_COUNT two_proc_types) \<and>
   apply_proc_prio default_config two_proc_types (good_prio_env 42 7) one_proc_state
     (procprio 42 1001) system_server_cred = one_proc_state \<and>
   file_writes (apply_proc_prio default_config two_proc_types (good_prio_env 42 7)
     one_proc_state (procprio 42 1001) system_server_cred) = [Oom_score_adj 42 900]"
proof -
  have h: "pp_oomadj (procprio 42 1001) < OOM_SCORE_ADJ_MIN \<or>
    pp_oomadj (procprio 42 1001) > OOM_SCORE_ADJ_MAX \<or>
    pp_ptype (procprio 42 1001) < PROC_TYPE_FIRST two_proc_types \<or>
    pp_ptype (procprio 42 1001) \<ge> PROC_TYPE_COUNT two_proc_types"
    by (simp add: procprio_def lmkd_consts)
  from invalid_procprio_rejected [OF h, of default_config "good_prio_env 42 7" one_proc_state
      system_server_cred] h
  show ?thesis by (simp add: one_proc_state_eq init_state_def)
qed

subsection \<open>Victim selection\<close>

lemma kill_at_score_empty:
  "procadjslot_list st (ADJTOSLOT i) = [] \<Longrightarrow>
     kill_at_score cfg env tm h i ks st = Some (ks, st)"
  by (subst kill_at_score.simps)
    (simp add: proc_get_heaviest_def proc_adj_tail_def adjslot_tail_def)

lemma find_and_kill_from_skip_empty:
  assumes "\<forall>j. lo < j \<and> j \<le> i \<longrightarrow> procadjslot_list st (ADJTOSLOT j) = []"
    and "m \<le> lo + 1" and "lo \<le> i" and "PERCEPTIBLE_APP_ADJ \<le> lo"
  shows "find_and_kill_from cfg env tm m h i 0 st = find_and_kill_from cfg env tm m h lo 0 st"
  using assms
proof (induction "nat (i - lo)" arbitrary: i)
  case 0
  then have "i = lo" by simp
  then show ?case by simp
next
  case (Suc n)
  then have gt: "lo < i" and m: "m \<le> i" by auto
  have e: "procadjslot_list st (ADJTOSLOT i) = []" using Suc.prems(1) gt by simp
  have flag: "(if \<not> h \<and> i \<le> PERCEPTIBLE_APP_ADJ then True else h) = h"
    using gt Suc.prems(4) by auto
  have step: "find_and_kill_from cfg env tm m h i 0 st =
      find_and_kill_from cfg env tm m h (i - 1) 0 st"
    using m by (subst find_and_kill_from.simps) (simp add: flag kill_at_score_empty [OF e])
  have "find_and_kill_from cfg env tm m h (i - 1) 0 st =
      find_and_kill_from cfg env tm m h lo 0 st"
    using Suc.hyps(2) Suc.prems gt by (intro Suc.hyps(1)) auto
  with step show ?case by simp
qed

lemma two_proc_state_eq:
  "two_proc_state = init_state
     \<lparr>procs := [0 \<mapsto> \<lparr>pid = 100, pidfd = -1, uid = 10001, oomadj = 900, reg_pid = 1000,
                        valid = True\<rparr>,
                1 \<mapsto> \<lparr>pid = 200, pidfd = -1, uid = 10001, oomadj = 800, reg_pid = 1000,
                        valid = True\<rparr>],
      next_addr := 2,
      pidhash := (\<lambda>_. [])(100 := [0], 200 := [1]),
      procadjslot_list := (\<lambda>_. [])(1900 := [0], 1800 := [1]),
      file_writes := [Oom_score_adj 200 800, Oom_score_adj 100 900]\<rparr>"
  by (simp add: two_proc_state_def no_pidfd_config_def registry_defs concrete_defs lmkd_consts
      Let_def fun_upd_twist)


lemma two_proc_state_skip:
  "find_and_kill_from no_pidfd_config env tm 0 False 1000 0 two_proc_state =
   find_and_kill_from no_pidfd_config env tm 0 False 900 0 two_proc_state"
  by (rule find_and_kill_from_skip_empty)
    (auto simp: two_proc_state_eq init_state_def lmkd_consts)

lemma two_proc_state_attempt_900:
  "kill_one_process no_pidfd_config stale_100_live_200 tm two_proc_state 0 =
     (-1, after_failed_attempt)"
  by (simp add: two_proc_state_eq after_failed_attempt_def kill_defs registry_defs
      concrete_defs no_pidfd_config_def stale_100_live_200_def lmkd_consts Let_def fun_eq_iff)

lemma two_proc_state_score_900:
  "kill_at_score no_pidfd_config stale_100_live_200 tm False 900 0 two_proc_state =
     Some (-1, after_failed_attempt)"
proof -
  have t: "proc_adj_tail two_proc_state 900 = Some 0"
    by (simp add: proc_adj_tail_def adjslot_tail_def two_proc_state_eq init_state_def lmkd_consts)
  have l: "length (procadjslot_list after_failed_attempt (ADJTOSLOT 900))
      < length (procadjslot_list two_proc_state (ADJTOSLOT 900))"
    by (simp add: after_failed_attempt_def two_proc_state_eq init_state_def lmkd_consts)
  have e: "procadjslot_list after_failed_attempt (ADJTOSLOT 900) = []"
    by (simp add: after_failed_attempt_def init_state_def lmkd_consts)
  show ?thesis
    by (subst kill_at_score.simps)
      (simp add: t two_proc_state_attempt_900 l kill_at_score_empty [OF e])
qed

text \<open>
  Claim C4 at a failing input. Process 100, at score 900, has died; process 200, at
  score 800, is alive; the minimum score is 0. The attempt on process 100 fails and
  removes its record; the score list of 900 is then empty and the inner loop leaves
  with \<open>killed_size = -1\<close>, which ends the walk: the function returns \<open>-1\<close>, the
  record of process 200 is still registered, no kill has been counted and none is in
  flight.
\<close>

theorem find_and_kill_stops_after_failed_attempt:
  "find_and_kill_process no_pidfd_config stale_100_live_200 zero_tm 0 two_proc_state =
     Some (-1, after_failed_attempt) \<and>
   pid_lookup after_failed_attempt 100 = None \<and>
   pid_lookup after_failed_attempt 200 = Some 1 \<and>
   kill_succeeds stale_100_live_200
     \<lparr>pid = 200, pidfd = -1, uid = 10001, oomadj = 800, reg_pid = 1000, valid = True\<rparr> \<and>
   killcnt_total after_failed_attempt = 0 \<and>
   last_kill_pid_or_fd after_failed_attempt = -1"
proof -
  have kh: "\<not> kill_heaviest_task no_pidfd_config"
    by (simp add: no_pidfd_config_def default_config_def)
  have "find_and_kill_from no_pidfd_config stale_100_live_200 zero_tm 0 False 900 0
      two_proc_state = Some (-1, after_failed_attempt)"
    by (subst find_and_kill_from.simps)
      (simp add: two_proc_state_score_900 lmkd_consts)
  then have "find_and_kill_process no_pidfd_config stale_100_live_200 zero_tm 0 two_proc_state =
     Some (-1, after_failed_attempt)"
    using kh by (simp add: find_and_kill_process_def two_proc_state_skip lmkd_consts)
  moreover have "pid_lookup after_failed_attempt 100 = None"
    "pid_lookup after_failed_attempt 200 = Some 1"
    by (simp_all add: after_failed_attempt_def init_state_def pid_lookup_def proc_has_pid_def
        pid_hashfn_def lmkd_consts)
  moreover have "kill_succeeds stale_100_live_200
     \<lparr>pid = 200, pidfd = -1, uid = 10001, oomadj = 800, reg_pid = 1000, valid = True\<rparr>"
    by (simp add: kill_succeeds_def stale_100_live_200_def live_proc_def)
  moreover have "killcnt_total after_failed_attempt = 0"
    "last_kill_pid_or_fd after_failed_attempt = -1"
    by (simp_all add: after_failed_attempt_def init_state_def)
  ultimately show ?thesis by blast
qed

subsection \<open>The TARGET rate limit\<close>

lemma target_loop_last_req_tm:
  "last_req_tm (fst (target_loop cap ts i st buf pos)) = last_req_tm st"
  by (induction cap ts i st buf pos rule: target_loop.induct) (simp_all add: Let_def)

lemma cmd_target_applied_tm:
  assumes "target_applied cfg (Some t) st ts"
  shows "last_req_tm (cmd_target cfg (Some t) st ts) = t"
proof -
  obtain st1 buf pos where l: "target_loop (property_value_max cfg) ts 0
      (st\<lparr>last_req_tm := t\<rparr>) [] 0 = (st1, buf, pos)"
    by (metis prod_cases3)
  have "last_req_tm st1 = t"
    using target_loop_last_req_tm [of "property_value_max cfg" ts 0 "st\<lparr>last_req_tm := t\<rparr>" "[]" 0] l
    by simp
  then show ?thesis
    using assms l by (auto simp add: cmd_target_def target_applied_def Let_def)
qed

lemma cmd_target_too_soon:
  "get_time_diff_ms (last_req_tm st) t < TARGET_UPDATE_MIN_INTERVAL_MS \<Longrightarrow>
     cmd_target cfg (Some t) st ts = st"
  by (simp add: cmd_target_def Let_def)

lemma dec_examples:
  "dec_int 100 = ''100''" "dec_int 0 = ''0''" "dec_int 200 = ''200''" "dec_int 300 = ''300''"
  by code_simp+

lemmas target_defs = cmd_target_def init_targets_def at_ms_def get_time_diff_ms_def c_div_def
  zero_tm_def

lemma first_target:
  "cmd_target default_config (Some (at_ms 10000)) init_targets [(100, 0)] =
     init_targets\<lparr>lowmem_minfree := (\<lambda>_. 0)(0 := 100), lowmem_adj := (\<lambda>_. 0)(0 := 0),
       last_req_tm := at_ms 10000, lowmem_targets_size := 1,
       minfree_levels := Some ''100:0''\<rparr>"
  by (simp add: target_defs default_config_def dec_examples lmkd_consts Let_def)


text \<open>
  Claim C9, as stated, fails. A request is applied at 10000 ms; a request at 10900 ms
  is dropped by the limiter and does not restart the interval; a request at 11100 ms,
  200 ms after the dropped one, is 1100 ms after the applied one and is applied: the
  table entry and the property change.
\<close>

theorem target_rate_limit_counterexample:
  "get_time_diff_ms (at_ms 10900) (at_ms 11100) = 200 \<and>
   cmd_target default_config (Some (at_ms 10900))
     (cmd_target default_config (Some (at_ms 10000)) init_targets [(100, 0)]) [(200, 100)] =
     cmd_target default_config (Some (at_ms 10000)) init_targets [(100, 0)] \<and>
   lowmem_minfree
     (cmd_target default_config (Some (at_ms 10900))
        (cmd_target default_config (Some (at_ms 10000)) init_targets [(100, 0)]) [(200, 100)])
     0 = 100 \<and>
   lowmem_minfree
     (cmd_target default_config (Some (at_ms 11100))
        (cmd_target default_config (Some (at_ms 10900))
           (cmd_target default_config (Some (at_ms 10000)) init_targets [(100, 0)])
           [(200, 100)])
        [(300, 200)])
     0 = 300 \<and>
   minfree_levels
     (cmd_target default_config (Some (at_ms 11100))
        (cmd_target default_config (Some (at_ms 10900))
           (cmd_target default_config (Some (at_ms 10000)) init_targets [(100, 0)])
           [(200, 100)])
        [(300, 200)]) = Some ''300:200''"
proof -
  let ?x = "cmd_target default_config (Some (at_ms 10000)) init_targets [(100, 0)]"
  have d: "get_time_diff_ms (at_ms 10900) (at_ms 11100) = 200"
    by (simp add: at_ms_def get_time_diff_ms_def c_div_def)
  have lt: "last_req_tm ?x = at_ms 10000" by (simp add: first_target)
  have a: "cmd_target default_config (Some (at_ms 10900)) ?x [(200, 100)] = ?x"
    by (rule cmd_target_too_soon)
      (simp add: lt, simp add: at_ms_def get_time_diff_ms_def c_div_def lmkd_consts)
  have b: "cmd_target default_config (Some (at_ms 11100)) ?x [(300, 200)] =
     init_targets\<lparr>lowmem_minfree := (\<lambda>_. 0)(0 := 300), lowmem_adj := (\<lambda>_. 0)(0 := 200),
       last_req_tm := at_ms 11100, lowmem_targets_size := 1,
       minfree_levels := Some ''300:200''\<rparr>"
    unfolding first_target
    by (simp add: target_defs default_config_def dec_examples lmkd_consts Let_def)
  show ?thesis
    unfolding a d unfolding b by (simp add: first_target)
qed

text \<open>
  Claim C9, amended. Let a \<^verbatim>\<open>TARGET\<close> request be applied at time \<open>t1\<close>. A later
  request whose clock reading \<open>t2\<close> is less than 1000 ms after \<open>t1\<close>, as
  \<^verbatim>\<open>get_time_diff_ms\<close> computes the difference, leaves the whole state as the first
  request set it (tables, target count, property, time of the last applied request,
  module parameters): it is rejected without any partial update. So is a request
  for which the clock cannot be read.
\<close>

theorem target_rate_limit:
  assumes "target_applied cfg (Some t1) st ts1"
    and "get_time_diff_ms t1 t2 < TARGET_UPDATE_MIN_INTERVAL_MS"
  shows "cmd_target cfg (Some t2) (cmd_target cfg (Some t1) st ts1) ts2 =
           cmd_target cfg (Some t1) st ts1 \<and>
         cmd_target cfg None (cmd_target cfg (Some t1) st ts1) ts2 =
           cmd_target cfg (Some t1) st ts1"
proof
  show "cmd_target cfg (Some t2) (cmd_target cfg (Some t1) st ts1) ts2 =
           cmd_target cfg (Some t1) st ts1"
    using assms(2) by (intro cmd_target_too_soon) (simp add: cmd_target_applied_tm [OF assms(1)])
  show "cmd_target cfg None (cmd_target cfg (Some t1) st ts1) ts2 =
           cmd_target cfg (Some t1) st ts1"
    by (simp add: cmd_target_def [of cfg None] Let_def)
qed

theorem target_rate_limit_witness:
  "target_applied default_config (Some (at_ms 10000)) init_targets [(100, 0)] \<and>
   get_time_diff_ms (at_ms 10000) (at_ms 10900) < TARGET_UPDATE_MIN_INTERVAL_MS \<and>
   cmd_target default_config (Some (at_ms 10900))
     (cmd_target default_config (Some (at_ms 10000)) init_targets [(100, 0)]) [(200, 100)] =
     init_targets\<lparr>lowmem_minfree := (\<lambda>_. 0)(0 := 100), lowmem_adj := (\<lambda>_. 0)(0 := 0),
       last_req_tm := at_ms 10000, lowmem_targets_size := 1,
       minfree_levels := Some ''100:0''\<rparr>"
proof -
  have h1: "target_applied default_config (Some (at_ms 10000)) init_targets [(100, 0)]"
    by (simp add: target_applied_def target_defs default_config_def lmkd_consts)
  have h2: "get_time_diff_ms (at_ms 10000) (at_ms 10900) < TARGET_UPDATE_MIN_INTERVAL_MS"
    by (simp add: target_defs lmkd_consts)
  from target_rate_limit [OF h1 h2, of "[(200, 100)]"] h1 h2 show ?thesis
    by (simp add: first_target)
qed

subsection \<open>The decision engine: where a kill can come from\<close>

lemma psi_kill_Inr:
  assumes "psi_kill cfg env t ps v st = Inr (oc, ps', st')"
  shows "\<exists>n. oc = Kill_attempt (kill_reason v) (if critical_stall v then 0 else min_score_adj v) n \<and>
           find_and_kill_process cfg (victims env) t
             (if critical_stall v then 0 else min_score_adj v) st = Some (n, st')"
  using assms unfolding psi_kill_def Let_def
  by (auto split: option.splits prod.splits)

lemma psi_pass_Inl:
  "psi_pass cfg env penv t inp ps v = Inl (oc, ps') \<Longrightarrow>
     oc = Zoneinfo_failed \<or> oc = Invalid_vendor_event"
  unfolding psi_pass_def Let_def
  by (auto split: if_splits option.splits prod.splits)

lemma psi_decide_kill:
  assumes "psi_decide cfg env t inp ps v st = Inr (Kill_attempt r m n, v', ps', st')"
  shows "find_and_kill_process cfg (victims env) t m st = Some (n, st') \<and>
         r = kill_reason v' \<and> m = (if critical_stall v' then 0 else min_score_adj v')"
  using assms unfolding psi_decide_def
  by (auto split: sum.splits prod.splits if_splits dest!: psi_kill_Inr psi_pass_Inl)

lemma psi_act_kill:
  assumes "psi_act cfg env t inp ps st pp = Inr res" and "outcome res = Kill_attempt r m n"
  shows "find_and_kill_process cfg (victims env) t m st = Some (n, new_lmkd res) \<and>
         r = kill_reason (vars res) \<and>
         m = (if critical_stall (vars res) then 0 else min_score_adj (vars res))"
  using assms unfolding psi_act_def
  by (auto split: sum.splits prod.splits dest!: psi_decide_kill)

lemma psi_assess_kill:
  assumes "psi_assess cfg env src lvl evs t v m' ps st pp = Inr res"
    and "outcome res = Kill_attempt r m n"
  shows "find_and_kill_process cfg (victims env) t m st = Some (n, new_lmkd res)"
  using assms unfolding psi_assess_def Let_def
  by (auto split: sum.splits prod.splits option.splits simp: returned_def dest!: psi_act_kill)

lemma stop_wait_released:
  "last_kill_pid_or_fd (stop_wait_for_proc_kill cfg st) < 0"
  by (simp add: stop_wait_for_proc_kill_def Let_def)

lemma mp_event_psi_kill:
  assumes "mp_event_psi cfg env src lvl evs ps st pp = Inr res"
    and "outcome res = Kill_attempt r m n"
  shows "\<exists>t. clock env = Some t \<and> \<not> kill_in_flight_gate cfg (proc_dir_exists env) t st \<and>
           find_and_kill_process cfg (victims env) t m (stop_wait_for_proc_kill cfg st) =
             Some (n, new_lmkd res)"
  using assms unfolding mp_event_psi_def Let_def
  by (auto split: option.splits if_splits simp: returned_def dest!: psi_assess_kill)

subsection \<open>The kill-in-flight gate\<close>

lemma kill_in_flight_state_eq:
  "kill_in_flight_state = init_state
       \<lparr>next_addr := 1,
        pidhash := (\<lambda>_. [])(42 := []),
        procadjslot_list := (\<lambda>slot. removeAll 0 (((\<lambda>_. [])(1900 := [0])) slot)),
        last_kill_pid_or_fd := 7, last_kill_tm := at_ms 10000, watched_fds := [7],
        killcnt_idx := (\<lambda>_. KILLCNT_INVALID_IDX)(1900 := 0),
        killcnt := (\<lambda>_. 0)(0 := 1), killcnt_free_idx := 1, killcnt_total := 1,
        file_writes := [Oom_score_adj 42 900]\<rparr>"
  by (simp add: kill_in_flight_state_def one_proc_state_killed)

lemma kill_in_flight_state_gate:
  "kill_in_flight_gate default_config b (at_ms 10060) kill_in_flight_state"
  by (simp add: kill_in_flight_gate_def is_kill_pending_def kill_in_flight_state_eq
      init_state_def default_config_def at_ms_def get_time_diff_ms_def c_div_def)

text \<open>
  Claim C2, as stated, fails. A kill is in flight since 60 ms with a timeout of
  100 ms, and the stored level is \<^verbatim>\<open>CRITICAL\<close>. A \<^verbatim>\<open>MEDIUM\<close> PSI event is dropped by
  step 1, before the gate: the invocation returns without a kill, but the counter of
  skipped wake-ups is not incremented.
\<close>

theorem kill_gate_counterexample:
  "kill_in_flight_gate default_config (proc_dir_exists (still_env 10060)) (at_ms 10060)
     kill_in_flight_state \<and>
   mp_event_psi default_config (still_env 10060) PSI VMPRESS_LEVEL_MEDIUM 1
     critical_stored_psi kill_in_flight_state init_poll =
     Inr (returned Event_ignored (critical_stored_psi\<lparr>mp_event_count := 1\<rparr>)
            kill_in_flight_state init_poll) \<and>
   skipped_wakeups (wi critical_stored_psi) = 0 \<and>
   skipped_wakeups (wi (critical_stored_psi\<lparr>mp_event_count := 1\<rparr>)) = 0"
proof -
  have "mp_event_psi default_config (still_env 10060) PSI VMPRESS_LEVEL_MEDIUM 1
     critical_stored_psi kill_in_flight_state init_poll =
     Inr (returned Event_ignored (critical_stored_psi\<lparr>mp_event_count := 1\<rparr>)
            kill_in_flight_state init_poll)"
    by (simp add: mp_event_psi_def psi_level_filter_def still_env_def critical_stored_psi_def
        init_psi_def Let_def)
  moreover have "skipped_wakeups (wi critical_stored_psi) = 0"
    by (simp add: critical_stored_psi_def init_psi_def init_wakeup_info_def)
  ultimately show ?thesis
    using kill_in_flight_state_gate by simp
qed

text \<open>
  Claim C2, amended. While a kill is pending and either \<^verbatim>\<open>kill_timeout_ms\<close> is zero or
  the time since the last kill is below it, no invocation of the engine initiates a
  kill or changes the registry: it fails to read the clock, or drops the event in
  step 1, or skips. An invocation that passes the clock read and step 1 skips: its
  counter of skipped wake-ups is one more than the value step 1 left (a PSI event
  restarts the count at 0). Conversely an invocation that calls the victim selection
  found the gate open, and calls it on the state in which the wait has been released
  (no kill in flight).
\<close>

theorem kill_gate_skips:
  "((\<forall>t. clock env = Some t \<longrightarrow> kill_in_flight_gate cfg (proc_dir_exists env) t st) \<longrightarrow>
      (\<exists>res. mp_event_psi cfg env src lvl evs ps st pp = Inr res \<and> new_lmkd res = st \<and>
         (outcome res = Clock_failed \<or> outcome res = Event_ignored \<or>
          outcome res = Kill_pending_skip) \<and>
         (\<forall>t ps1. clock env = Some t \<longrightarrow>
            psi_level_filter src (if src = PSI then lvl else VMPRESS_LEVEL_LOW) evs t
              (ps\<lparr>mp_event_count := mp_event_count ps + 1\<rparr>) = Some ps1 \<longrightarrow>
            outcome res = Kill_pending_skip \<and>
            skipped_wakeups (wi (new_psi res)) = skipped_wakeups (wi ps1) + 1))) \<and>
   (\<forall>res r m n. mp_event_psi cfg env src lvl evs ps st pp = Inr res \<longrightarrow>
      outcome res = Kill_attempt r m n \<longrightarrow>
      (\<exists>t. clock env = Some t \<and> \<not> kill_in_flight_gate cfg (proc_dir_exists env) t st \<and>
         last_kill_pid_or_fd (stop_wait_for_proc_kill cfg st) < 0 \<and>
         find_and_kill_process cfg (victims env) t m (stop_wait_for_proc_kill cfg st) =
           Some (n, new_lmkd res)))"
proof (intro conjI impI allI)
  assume g: "\<forall>t. clock env = Some t \<longrightarrow> kill_in_flight_gate cfg (proc_dir_exists env) t st"
  show "\<exists>res. mp_event_psi cfg env src lvl evs ps st pp = Inr res \<and> new_lmkd res = st \<and>
         (outcome res = Clock_failed \<or> outcome res = Event_ignored \<or>
          outcome res = Kill_pending_skip) \<and>
         (\<forall>t ps1. clock env = Some t \<longrightarrow>
            psi_level_filter src (if src = PSI then lvl else VMPRESS_LEVEL_LOW) evs t
              (ps\<lparr>mp_event_count := mp_event_count ps + 1\<rparr>) = Some ps1 \<longrightarrow>
            outcome res = Kill_pending_skip \<and>
            skipped_wakeups (wi (new_psi res)) = skipped_wakeups (wi ps1) + 1)"
  proof (cases "clock env")
    case None
    then show ?thesis by (simp add: mp_event_psi_def returned_def Let_def)
  next
    case (Some t)
    with g have gt: "kill_in_flight_gate cfg (proc_dir_exists env) t st" by simp
    show ?thesis
    proof (cases "psi_level_filter src (if src = PSI then lvl else VMPRESS_LEVEL_LOW) evs t
              (ps\<lparr>mp_event_count := mp_event_count ps + 1\<rparr>)")
      case None
      with Some show ?thesis by (simp add: mp_event_psi_def returned_def Let_def)
    next
      case (Some ps1)
      with \<open>clock env = Some t\<close> gt show ?thesis
        by (simp add: mp_event_psi_def returned_def Let_def)
    qed
  qed
next
  fix res r m n
  assume "mp_event_psi cfg env src lvl evs ps st pp = Inr res"
    and "outcome res = Kill_attempt r m n"
  from mp_event_psi_kill [OF this] stop_wait_released [of cfg st]
  show "\<exists>t. clock env = Some t \<and> \<not> kill_in_flight_gate cfg (proc_dir_exists env) t st \<and>
         last_kill_pid_or_fd (stop_wait_for_proc_kill cfg st) < 0 \<and>
         find_and_kill_process cfg (victims env) t m (stop_wait_for_proc_kill cfg st) =
           Some (n, new_lmkd res)"
    by blast
qed

lemmas engine_defs =
  psi_level_filter_def record_wakeup_time_def kill_in_flight_gate_def is_kill_pending_def
  is_waiting_for_kill_def psi_no_kill_def psi_post_kill_reset_def psi_reclaim_state_def
  psi_thrashing_def psi_max_thrashing_def get_free_swap_def get_lowest_watermark_def
  calc_zone_watermarks_def calc_swap_utilization_def psi_classify_def psi_low_mem_def
  perceptible_unless_def psi_pass_def init_vars_def returned_def int32_of_def

lemma default_config_fields:
  "pidfd_supported default_config" "\<not> use_inkernel_interface default_config"
  "\<not> has_inkernel_module default_config" "\<not> per_app_memcg default_config"
  "\<not> kill_heaviest_task default_config" "kill_timeout_ms default_config = 100"
  "page_k default_config = 4" "pressure_after_kill_min_score default_config = 0"
  "swap_free_low_percentage default_config = 10" "thrashing_limit_pct default_config = 100"
  "thrashing_limit_decay_pct default_config = 10" "thrashing_critical_pct default_config = 300"
  "swap_util_max default_config = 100" "filecache_min_kb default_config = 0"
  "direct_reclaim_threshold_ms default_config = 0" "swap_compression_ratio default_config = 1"
  "lowmem_min_oom_score default_config = 701" "vendor_kill_reason_end default_config = 1000"
  by (simp_all add: default_config_def)

lemma at_ms_fields:
  "tv_sec (at_ms ms) = ms div 1000" "tv_nsec (at_ms ms) = ms mod 1000 * 1000000"
  "tv_sec zero_tm = 0" "tv_nsec zero_tm = 0"
  by (simp_all add: at_ms_def zero_tm_def)

lemmas engine_inputs =
  still_env_def refault_env_def still_vmstat_def roomy_meminfo_def one_zone_def calm_pass_def
  init_psi_def init_wakeup_info_def init_poll_def get_time_diff_ms_def c_div_def
  default_config_fields at_ms_fields

lemma one_proc_state_find_and_kill:
  "find_and_kill_process default_config (\<lambda>_. live_proc 42 4000) tm 0 one_proc_state =
     Some (kill_one_process default_config (\<lambda>_. live_proc 42 4000) tm one_proc_state 0)"
proof -
  have kh: "\<not> kill_heaviest_task default_config" by (simp add: default_config_def)
  have skip: "find_and_kill_from default_config (\<lambda>_. live_proc 42 4000) tm 0 False 1000 0
      one_proc_state =
    find_and_kill_from default_config (\<lambda>_. live_proc 42 4000) tm 0 False 900 0 one_proc_state"
    by (rule find_and_kill_from_skip_empty)
      (auto simp: one_proc_state_eq init_state_def lmkd_consts)
  have t: "proc_adj_tail one_proc_state 900 = Some 0"
    by (simp add: proc_adj_tail_def adjslot_tail_def one_proc_state_eq init_state_def lmkd_consts)
  have at: "kill_at_score default_config (\<lambda>_. live_proc 42 4000) tm False 900 0 one_proc_state =
      Some (kill_one_process default_config (\<lambda>_. live_proc 42 4000) tm one_proc_state 0)"
    by (subst kill_at_score.simps) (simp add: t one_proc_state_killed)
  have "find_and_kill_from default_config (\<lambda>_. live_proc 42 4000) tm 0 False 900 0
      one_proc_state =
      Some (kill_one_process default_config (\<lambda>_. live_proc 42 4000) tm one_proc_state 0)"
    by (subst find_and_kill_from.simps) (simp add: at lmkd_consts one_proc_state_killed)
  then show ?thesis
    using kh by (simp add: find_and_kill_process_def skip lmkd_consts)
qed

lemma not_responding_run:
  "\<exists>res. mp_event_psi default_config (refault_env 10060) PSI VMPRESS_LEVEL_CRITICAL 1
      (init_psi default_config) one_proc_state init_poll = Inr res \<and>
     outcome res = Kill_attempt NOT_RESPONDING 0 1000 \<and>
     new_lmkd res = snd (kill_one_process default_config (\<lambda>_. live_proc 42 4000)
                           (at_ms 10060) one_proc_state 0)"
proof -
  have lk: "last_kill_pid_or_fd one_proc_state = -1"
    by (simp add: one_proc_state_eq init_state_def)
  have sw: "stop_wait_for_proc_kill default_config one_proc_state = one_proc_state"
    by (simp add: stop_wait_for_proc_kill_def lk)
  show ?thesis
    unfolding mp_event_psi_def psi_assess_def psi_act_def psi_decide_def psi_kill_def
    by (simp add: engine_defs engine_inputs sw lk one_proc_state_find_and_kill
        one_proc_state_killed Let_def lmkd_consts)
qed


theorem kill_gate_skips_witness:
  "clock (still_env 10060) = Some (at_ms 10060) \<and>
   kill_in_flight_gate default_config (proc_dir_exists (still_env 10060)) (at_ms 10060)
     kill_in_flight_state \<and>
   (\<exists>res. mp_event_psi default_config (still_env 10060) PSI VMPRESS_LEVEL_CRITICAL 1
             critical_stored_psi kill_in_flight_state init_poll = Inr res \<and>
      outcome res = Kill_pending_skip \<and> skipped_wakeups (wi (new_psi res)) = 1 \<and>
      new_lmkd res = kill_in_flight_state) \<and>
   (\<exists>res. mp_event_psi default_config (refault_env 10060) PSI VMPRESS_LEVEL_CRITICAL 1
             (init_psi default_config) one_proc_state init_poll = Inr res \<and>
      outcome res = Kill_attempt NOT_RESPONDING 0 1000 \<and>
      \<not> kill_in_flight_gate default_config (proc_dir_exists (refault_env 10060)) (at_ms 10060)
          one_proc_state)"
proof -
  have clk: "clock (still_env 10060) = Some (at_ms 10060)"
    "clock (refault_env 10060) = Some (at_ms 10060)"
    by (simp_all add: still_env_def refault_env_def)
  have g: "\<forall>t. clock (still_env 10060) = Some t \<longrightarrow>
      kill_in_flight_gate default_config (proc_dir_exists (still_env 10060)) t
        kill_in_flight_state"
    using kill_in_flight_state_gate by (simp add: clk)
  define ps1 where "ps1 = critical_stored_psi\<lparr>mp_event_count := 1,
      wi := record_wakeup_time (at_ms 10060) True (wi critical_stored_psi)\<rparr>"
  have f: "psi_level_filter PSI (if PSI = PSI then VMPRESS_LEVEL_CRITICAL else VMPRESS_LEVEL_LOW)
      1 (at_ms 10060)
      (critical_stored_psi\<lparr>mp_event_count := mp_event_count critical_stored_psi + 1\<rparr>) = Some ps1"
    by (simp add: psi_level_filter_def ps1_def critical_stored_psi_def init_psi_def Let_def)
  have s0: "skipped_wakeups (wi ps1) = 0"
    by (simp add: ps1_def record_wakeup_time_def Let_def)
  note main = kill_gate_skips [of "still_env 10060" default_config kill_in_flight_state PSI
      VMPRESS_LEVEL_CRITICAL 1 critical_stored_psi init_poll]
  from main [THEN conjunct1, THEN mp, OF g]
  obtain res where res: "mp_event_psi default_config (still_env 10060) PSI VMPRESS_LEVEL_CRITICAL 1
             critical_stored_psi kill_in_flight_state init_poll = Inr res"
    "new_lmkd res = kill_in_flight_state"
    and sk: "\<forall>t ps1. clock (still_env 10060) = Some t \<longrightarrow>
            psi_level_filter PSI (if PSI = PSI then VMPRESS_LEVEL_CRITICAL else VMPRESS_LEVEL_LOW)
              1 t (critical_stored_psi\<lparr>mp_event_count := mp_event_count critical_stored_psi + 1\<rparr>)
              = Some ps1 \<longrightarrow>
            outcome res = Kill_pending_skip \<and>
            skipped_wakeups (wi (new_psi res)) = skipped_wakeups (wi ps1) + 1"
    by blast
  from sk [rule_format, OF clk(1) f] s0
  have a: "outcome res = Kill_pending_skip" "skipped_wakeups (wi (new_psi res)) = 1" by simp_all
  obtain res2 where res2: "mp_event_psi default_config (refault_env 10060) PSI
      VMPRESS_LEVEL_CRITICAL 1 (init_psi default_config) one_proc_state init_poll = Inr res2"
    "outcome res2 = Kill_attempt NOT_RESPONDING 0 1000"
    using not_responding_run by blast
  from kill_gate_skips [of "refault_env 10060" default_config one_proc_state PSI
      VMPRESS_LEVEL_CRITICAL 1 "init_psi default_config" init_poll,
      THEN conjunct2, rule_format, OF res2]
  have b: "\<not> kill_in_flight_gate default_config (proc_dir_exists (refault_env 10060))
      (at_ms 10060) one_proc_state"
    by (simp add: clk)
  from clk(1) kill_in_flight_state_gate res a res2 b show ?thesis by blast
qed

subsection \<open>The stored pressure level\<close>

lemma init_state_not_waiting:
  "last_kill_pid_or_fd init_state = -1"
  "stop_wait_for_proc_kill cfg init_state = init_state"
  by (simp_all add: init_state_def stop_wait_for_proc_kill_def)

lemma level_reset_run:
  "\<exists>resA plA resB plB resC plC.
     call_handler default_config (still_env 100000) (at_ms 100000) VMPRESS_LEVEL_CRITICAL 1
       (init_psi default_config) init_state init_poll_state = Inr (resA, plA) \<and>
     prev_level (new_psi resA) = VMPRESS_LEVEL_CRITICAL \<and>
     new_lmkd resA = init_state \<and>
     poll_handler plA = Some VMPRESS_LEVEL_CRITICAL \<and>
     poll_start_tm (params plA) = at_ms 100000 \<and>
     call_handler default_config (still_env 100100) (at_ms 100100) VMPRESS_LEVEL_CRITICAL 0
       (new_psi resA) init_state plA = Inr (resB, plB) \<and>
     prev_level (new_psi resB) = VMPRESS_LEVEL_LOW \<and>
     new_lmkd resB = init_state \<and>
     poll_handler plB = Some VMPRESS_LEVEL_CRITICAL \<and>
     get_time_diff_ms (poll_start_tm (params plB)) (at_ms 100100) = 100 \<and>
     call_handler default_config (still_env 100150) (at_ms 100150) VMPRESS_LEVEL_MEDIUM 1
       (new_psi resB) init_state plB = Inr (resC, plC) \<and>
     outcome resC = Not_reclaiming \<and>
     prev_level (new_psi resC) = VMPRESS_LEVEL_MEDIUM"
  unfolding call_handler_def mp_event_psi_def psi_assess_def
  by (simp add: engine_defs engine_inputs init_state_not_waiting init_poll_state_def Let_def
      lmkd_consts)

text \<open>
  Claim C8, as stated, fails. A \<^verbatim>\<open>CRITICAL\<close> PSI event arrives at 100000 ms: the level
  is stored and polling starts, its window beginning at 100000 ms. The first polling
  wake-up comes 100 ms later: the stored level is reset to \<^verbatim>\<open>LOW\<close> although only 100 ms
  of the 1000 ms window have passed and polling goes on. A \<^verbatim>\<open>MEDIUM\<close> event at
  100150 ms, within the window of the \<^verbatim>\<open>CRITICAL\<close> event, is then not ignored: the
  engine goes on to read the kernel counters and stores \<^verbatim>\<open>MEDIUM\<close>.
\<close>

theorem stored_level_reset_counterexample:
  "critical_event_run = Inr (projr critical_event_run) \<and>
   prev_level (new_psi (fst (projr critical_event_run))) = VMPRESS_LEVEL_CRITICAL \<and>
   poll_handler (snd (projr critical_event_run)) = Some VMPRESS_LEVEL_CRITICAL \<and>
   poll_start_tm (params (snd (projr critical_event_run))) = at_ms 100000 \<and>
   polling_tick_run = Inr (projr polling_tick_run) \<and>
   get_time_diff_ms (poll_start_tm (params (snd (projr polling_tick_run)))) (at_ms 100100)
     = 100 \<and>
   PSI_WINDOW_SIZE_MS = 1000 \<and>
   poll_handler (snd (projr polling_tick_run)) = Some VMPRESS_LEVEL_CRITICAL \<and>
   prev_level (new_psi (fst (projr polling_tick_run))) = VMPRESS_LEVEL_LOW \<and>
   medium_event_run = Inr (projr medium_event_run) \<and>
   outcome (fst (projr medium_event_run)) = Not_reclaiming \<and>
   prev_level (new_psi (fst (projr medium_event_run))) = VMPRESS_LEVEL_MEDIUM"
proof -
  from level_reset_run obtain resA plA resB plB resC plC where
    a: "call_handler default_config (still_env 100000) (at_ms 100000) VMPRESS_LEVEL_CRITICAL 1
       (init_psi default_config) init_state init_poll_state = Inr (resA, plA)"
      "prev_level (new_psi resA) = VMPRESS_LEVEL_CRITICAL" "new_lmkd resA = init_state"
      "poll_handler plA = Some VMPRESS_LEVEL_CRITICAL" "poll_start_tm (params plA) = at_ms 100000"
    and b: "call_handler default_config (still_env 100100) (at_ms 100100) VMPRESS_LEVEL_CRITICAL 0
       (new_psi resA) init_state plA = Inr (resB, plB)"
      "prev_level (new_psi resB) = VMPRESS_LEVEL_LOW" "new_lmkd resB = init_state"
      "poll_handler plB = Some VMPRESS_LEVEL_CRITICAL"
      "get_time_diff_ms (poll_start_tm (params plB)) (at_ms 100100) = 100"
    and c: "call_handler default_config (still_env 100150) (at_ms 100150) VMPRESS_LEVEL_MEDIUM 1
       (new_psi resB) init_state plB = Inr (resC, plC)"
      "outcome resC = Not_reclaiming" "prev_level (new_psi resC) = VMPRESS_LEVEL_MEDIUM"
    by blast
  have A: "critical_event_run = Inr (resA, plA)"
    using a(1) by (simp add: critical_event_run_def)
  have B: "polling_tick_run = Inr (resB, plB)"
    using b(1) by (simp add: polling_tick_run_def A a(3))
  have C: "medium_event_run = Inr (resC, plC)"
    using c(1) by (simp add: medium_event_run_def B b(3))
  show ?thesis
    using a(2,4,5) b(2,4,5) c(2,3) by (simp add: A B C PSI_WINDOW_SIZE_MS_def)
qed

lemma psi_event_below_stored_level_ignored:
  assumes "clock env = Some t" and "evs > 0"
    and "level_num lvl < level_num (prev_level ps)"
  shows "mp_event_psi cfg env PSI lvl evs ps st pp =
           Inr (returned Event_ignored (ps\<lparr>mp_event_count := mp_event_count ps + 1\<rparr>) st pp)"
  using assms by (simp add: mp_event_psi_def psi_level_filter_def Let_def)

text \<open>No later step of the engine writes the stored level.\<close>

lemma prev_level_kept:
  "prev_level (psi_post_kill_reset t refault v ps) = prev_level ps"
  "psi_reclaim_state src t refault v ps = Some (ps2, rcl, d) \<Longrightarrow> prev_level ps2 = prev_level ps"
  "psi_thrashing cfg t refault v ps = Inr (ps3, thr) \<Longrightarrow> prev_level ps3 = prev_level ps"
  "prev_level (psi_max_thrashing thr ps) = prev_level ps"
     apply (simp add: psi_post_kill_reset_def)
    apply (auto simp: psi_reclaim_state_def Let_def split: if_splits)[1]
   apply (auto simp: psi_thrashing_def Let_def split: if_splits)[1]
  apply (simp add: psi_max_thrashing_def)
  done

lemma prev_level_classify_cases:
  "case psi_classify cfg env inp ps v of
     None \<Rightarrow> True
   | Some (ps', v') \<Rightarrow> prev_level ps' = prev_level ps"
  by (simp add: psi_classify_def Let_def)

lemma prev_level_classify:
  assumes "psi_classify cfg env inp ps v = Some (ps', v')"
  shows "prev_level ps' = prev_level ps"
  using prev_level_classify_cases [where cfg = cfg and env = env and inp = inp and ps = ps
      and v = v] assms by simp

lemma prev_level_pass:
  "psi_pass cfg env penv t inp ps v = Inl (oc, ps') \<Longrightarrow> prev_level ps' = prev_level ps"
  "psi_pass cfg env penv t inp ps v = Inr (ps', v') \<Longrightarrow> prev_level ps' = prev_level ps"
  unfolding psi_pass_def Let_def
  by (auto split: if_splits option.splits prod.splits bool.splits dest!: prev_level_classify)

lemma prev_level_kill:
  "psi_kill cfg env t ps v st = Inr (oc, ps', st') \<Longrightarrow> prev_level ps' = prev_level ps"
  unfolding psi_kill_def Let_def
  by (auto split: option.splits prod.splits if_splits)

lemma prev_level_decide:
  assumes "psi_decide cfg env t inp ps v st = Inr (oc, v', ps', st')"
  shows "prev_level ps' = prev_level ps"
proof (cases "psi_pass cfg env (pass1 env) t inp ps v")
  case (Inl a)
  with assms show ?thesis
    by (cases a) (auto simp: psi_decide_def dest: prev_level_pass(1))
next
  case (Inr b)
  obtain ps1 v1 where b: "b = (ps1, v1)" by (cases b)
  have p1: "prev_level ps1 = prev_level ps"
    using prev_level_pass(2) [OF Inr [unfolded b]] .
  let ?ps1 = "ps1\<lparr>first_kill := False, watermarks := (watermarks ps1)\<lparr>high_wmark := 0\<rparr>\<rparr>"
  show ?thesis
  proof (cases "kill_reason v1 \<noteq> NONE \<and> first_kill ps1")
    case False
    with assms Inr b p1 show ?thesis
      by (auto simp: psi_decide_def split: sum.splits prod.splits if_splits
          dest!: prev_level_kill)
  next
    case True
    show ?thesis
    proof (cases "psi_pass cfg env (pass2 env) t inp ?ps1 v1")
      case (Inl a)
      with assms Inr b True p1 show ?thesis
        by (cases a) (auto simp: psi_decide_def dest!: prev_level_pass(1))
    next
      case Inr2: (Inr c)
      obtain ps2 v2 where c: "c = (ps2, v2)" by (cases c)
      have p2: "prev_level ps2 = prev_level ps"
        using prev_level_pass(2) [OF Inr2 [unfolded c]] p1 by simp
      with assms Inr b True Inr2 c show ?thesis
        by (auto simp: psi_decide_def split: sum.splits prod.splits if_splits
            dest!: prev_level_kill)
    qed
  qed
qed

lemma prev_level_act:
  assumes "psi_act cfg env t inp ps st pp = Inr res"
  shows "prev_level (new_psi res) = prev_level ps"
  using assms unfolding psi_act_def
  by (auto split: sum.splits prod.splits dest!: prev_level_decide)

lemma prev_level_assess:
  assumes run: "psi_assess cfg env src lvl evs t v m' ps st pp = Inr res"
  shows "prev_level (new_psi res) = prev_level ps"
proof -
  define refault where "refault = (if workingset_refault v \<noteq> 0 then workingset_refault v
                     else workingset_refault_file v)"
  define ps1 where "ps1 = psi_post_kill_reset t refault v ps"
  have p1: "prev_level ps1 = prev_level ps" by (simp add: ps1_def prev_level_kept(1))
  note run' = run [unfolded psi_assess_def Let_def, folded refault_def, folded ps1_def]
  show ?thesis
  proof (cases "psi_reclaim_state src t refault v ps1")
    case None
    with run' p1 show ?thesis by (auto simp add: returned_def)
  next
    case (Some x)
    obtain ps2 rcl d where x: "x = (ps2, rcl, d)" by (cases x)
    have p2: "prev_level ps2 = prev_level ps"
      using prev_level_kept(2) [OF Some [unfolded x]] p1 by simp
    show ?thesis
    proof (cases "psi_thrashing cfg t refault v (ps2\<lparr>prev_workingset_refault := refault\<rparr>)")
      case (Inl e)
      with run' Some x show ?thesis by simp
    next
      case (Inr y)
      obtain ps3 thr where y: "y = (ps3, thr)" by (cases y)
      have p3: "prev_level (psi_max_thrashing thr ps3) = prev_level ps"
        using prev_level_kept(3) [OF Inr [unfolded y]] p2 by (simp add: prev_level_kept(4))
      from run' Some x Inr y
      have "\<exists>inp. psi_act cfg env t inp (psi_max_thrashing thr ps3) st pp = Inr res"
        by auto
      then obtain inp where "psi_act cfg env t inp (psi_max_thrashing thr ps3) st pp = Inr res"
        by blast
      from prev_level_act [OF this] p3 show ?thesis by simp
    qed
  qed
qed

lemma prev_level_filter:
  assumes "psi_level_filter PSI lvl evs t ps = Some ps1"
  shows "prev_level ps1 = (if evs > 0 then lvl else VMPRESS_LEVEL_LOW)"
    and "evs > 0 \<Longrightarrow> level_num (prev_level ps) \<le> level_num lvl"
  using assms by (auto simp: psi_level_filter_def Let_def split: if_splits)

text \<open>
  Claim C8, amended. A PSI event whose level is below the stored level is ignored: the
  engine returns at once, having only counted the event, so that the stored level, the
  registry and the polling parameters are as before. Every other PSI event stores its
  own level, and every PSI wake-up without an event (a polling wake-up) resets the
  stored level to \<^verbatim>\<open>LOW\<close>, whether or not the polling window has elapsed; this holds of
  every invocation that reads the clock and returns.
\<close>

theorem stored_level_rule:
  assumes clk: "clock env = Some t"
  shows "(evs > 0 \<and> level_num lvl < level_num (prev_level ps) \<longrightarrow>
            mp_event_psi cfg env PSI lvl evs ps st pp =
              Inr (returned Event_ignored (ps\<lparr>mp_event_count := mp_event_count ps + 1\<rparr>) st pp)) \<and>
         (\<forall>res. mp_event_psi cfg env PSI lvl evs ps st pp = Inr res \<longrightarrow>
            prev_level (new_psi res) =
              (if evs = 0 then VMPRESS_LEVEL_LOW
               else if level_num lvl < level_num (prev_level ps) then prev_level ps
               else lvl))"
proof (intro conjI impI allI)
  assume "evs > 0 \<and> level_num lvl < level_num (prev_level ps)"
  then show "mp_event_psi cfg env PSI lvl evs ps st pp =
      Inr (returned Event_ignored (ps\<lparr>mp_event_count := mp_event_count ps + 1\<rparr>) st pp)"
    using psi_event_below_stored_level_ignored [OF clk] by simp
next
  fix res
  assume run: "mp_event_psi cfg env PSI lvl evs ps st pp = Inr res"
  let ?ps = "ps\<lparr>mp_event_count := mp_event_count ps + 1\<rparr>"
  show "prev_level (new_psi res) =
      (if evs = 0 then VMPRESS_LEVEL_LOW
       else if level_num lvl < level_num (prev_level ps) then prev_level ps else lvl)"
  proof (cases "psi_level_filter PSI lvl evs t ?ps")
    case None
    then have low: "evs > 0 \<and> level_num lvl < level_num (prev_level ps)"
      by (auto simp: psi_level_filter_def Let_def split: if_splits)
    from run clk None have "res = returned Event_ignored ?ps st pp"
      by (simp add: mp_event_psi_def Let_def)
    with low show ?thesis by (simp add: returned_def)
  next
    case (Some ps1)
    from prev_level_filter [OF Some]
    have p1: "prev_level ps1 = (if evs > 0 then lvl else VMPRESS_LEVEL_LOW)"
      and ge: "evs > 0 \<Longrightarrow> \<not> level_num lvl < level_num (prev_level ps)"
      by auto
    have "prev_level (new_psi res) = prev_level ps1"
      using run clk Some unfolding mp_event_psi_def Let_def
      by (auto split: option.splits if_splits simp: returned_def dest!: prev_level_assess)
    with p1 ge show ?thesis by auto
  qed
qed

theorem stored_level_rule_witness:
  "clock (still_env 100150) = Some (at_ms 100150) \<and>
   level_num VMPRESS_LEVEL_MEDIUM < level_num (prev_level critical_stored_psi) \<and>
   mp_event_psi default_config (still_env 100150) PSI VMPRESS_LEVEL_MEDIUM 1
     critical_stored_psi init_state init_poll =
     Inr (returned Event_ignored
            (critical_stored_psi\<lparr>mp_event_count := mp_event_count critical_stored_psi + 1\<rparr>)
            init_state init_poll) \<and>
   prev_level (new_psi (projr (mp_event_psi default_config (still_env 100150) PSI
     VMPRESS_LEVEL_CRITICAL 0 critical_stored_psi init_state init_poll))) = VMPRESS_LEVEL_LOW"
proof -
  have clk: "clock (still_env 100150) = Some (at_ms 100150)"
    by (simp add: still_env_def)
  have low: "level_num VMPRESS_LEVEL_MEDIUM < level_num (prev_level critical_stored_psi)"
    by (simp add: critical_stored_psi_def)
  have "\<exists>res. mp_event_psi default_config (still_env 100150) PSI VMPRESS_LEVEL_CRITICAL 0
      critical_stored_psi init_state init_poll = Inr res"
    unfolding mp_event_psi_def psi_assess_def
    by (simp add: engine_defs engine_inputs critical_stored_psi_def init_state_not_waiting
        Let_def lmkd_consts)
  then obtain res where run: "mp_event_psi default_config (still_env 100150) PSI
      VMPRESS_LEVEL_CRITICAL 0 critical_stored_psi init_state init_poll = Inr res"
    by blast
  note main = stored_level_rule [OF clk, of 1 VMPRESS_LEVEL_MEDIUM critical_stored_psi
      default_config init_state init_poll]
  note tick = stored_level_rule [OF clk, of 0 VMPRESS_LEVEL_CRITICAL critical_stored_psi
      default_config init_state init_poll, THEN conjunct2, rule_format, OF run]
  from main low have a: "mp_event_psi default_config (still_env 100150) PSI VMPRESS_LEVEL_MEDIUM 1
     critical_stored_psi init_state init_poll =
     Inr (returned Event_ignored
            (critical_stored_psi\<lparr>mp_event_count := mp_event_count critical_stored_psi + 1\<rparr>)
            init_state init_poll)"
    by simp
  from tick have b: "prev_level (new_psi res) = VMPRESS_LEVEL_LOW" by simp
  from clk low a b run show ?thesis by simp
qed

subsection \<open>Thrashing decay\<close>

lemma thrashing_decay_rule:
  assumes "get_time_diff_ms (thrashing_reset_tm ps) t > THRASHING_RESET_INTERVAL_MS"
    and "get_time_diff_ms (thrashing_reset_tm ps) t div 1000 < 64"
    and "base_file_lru ps + 1 \<noteq> 0"
  shows "\<exists>ps' thr. psi_thrashing cfg t refault v ps = Inr (ps', thr) \<and>
     prev_thrash_growth ps' =
       (let growth = c_div ((refault - init_ws_refault ps) * 100) (base_file_lru ps + 1);
            windows_passed = get_time_diff_ms (thrashing_reset_tm ps) t div 1000
        in if windows_passed > 1 \<or> growth < thrashing_limit ps
             then growth div 2 ^ nat windows_passed else growth) \<and>
     thr = prev_thrash_growth ps' \<and>
     base_file_lru ps' = nr_inactive_file v + nr_active_file v \<and>
     init_ws_refault ps' = refault \<and> thrashing_reset_tm ps' = t \<and>
     thrashing_limit ps' = thrashing_limit_pct cfg"
proof -
  let ?since = "get_time_diff_ms (thrashing_reset_tm ps) t"
  have pos: "?since > 0" using assms(1) by (simp add: lmkd_consts)
  then have wp: "c_div ?since THRASHING_RESET_INTERVAL_MS = ?since div 1000"
    by (simp add: c_div_def lmkd_consts)
  have nonneg: "0 \<le> ?since div 1000" using pos by simp
  show ?thesis
    unfolding psi_thrashing_def Let_def wp
    using assms nonneg by (auto simp: drop_bit_eq_div)
qed

text \<open>
  Claim C3 at a failing input. The statics are as at start (the window start is the
  zero time) and the first wake-up that reaches step 6 comes at 64000 ms of uptime,
  after 5 refaults: \<open>windows_passed\<close> is 64 and the decay shifts a 64-bit value by
  64, which the language leaves undefined, where the claim has the well-defined
  \<open>500 >> 64 = 0\<close>.
\<close>

theorem thrashing_decay_shift_undefined:
  "get_time_diff_ms (thrashing_reset_tm (init_psi default_config)) (at_ms 64000) = 64000 \<and>
   mp_event_psi default_config (refault_env 64000) PSI VMPRESS_LEVEL_MEDIUM 1
     (init_psi default_config) init_state init_poll = Inl (Shift_count_out_of_range 64)"
  unfolding mp_event_psi_def psi_assess_def
  by (simp add: engine_defs engine_inputs init_state_not_waiting Let_def lmkd_consts)

subsection \<open>The minimum score of a kill\<close>

lemma perceptible_proc_state_eq:
  "perceptible_proc_state = init_state
     \<lparr>procs := [0 \<mapsto> \<lparr>pid = 42, pidfd = 7, uid = 10001, oomadj = 100, reg_pid = 1000,
                        valid = True\<rparr>],
      next_addr := 1,
      pidhash := (\<lambda>_. [])(42 := [0]),
      procadjslot_list := (\<lambda>_. [])(1100 := [0]),
      file_writes := [Oom_score_adj 42 100]\<rparr>"
  by (simp add: perceptible_proc_state_def registry_defs concrete_defs lmkd_consts Let_def)

lemma perceptible_proc_state_not_waiting:
  "last_kill_pid_or_fd perceptible_proc_state = -1"
  "stop_wait_for_proc_kill cfg perceptible_proc_state = perceptible_proc_state"
  by (simp_all add: perceptible_proc_state_eq init_state_def stop_wait_for_proc_kill_def)

lemma perceptible_proc_state_above_201:
  "find_and_kill_process default_config venv tm 201 perceptible_proc_state =
     Some (0, perceptible_proc_state)"
proof -
  have "find_and_kill_from default_config venv tm 201 False 1000 0 perceptible_proc_state =
      find_and_kill_from default_config venv tm 201 False 200 0 perceptible_proc_state"
    by (rule find_and_kill_from_skip_empty)
      (auto simp: perceptible_proc_state_eq init_state_def lmkd_consts)
  also have "\<dots> = Some (0, perceptible_proc_state)"
    by (subst find_and_kill_from.simps) simp
  finally show ?thesis
    by (simp add: find_and_kill_process_def default_config_fields lmkd_consts)
qed

text \<open>
  Claim C1 at a failing input. The first wake-up finds no reason to kill and caches
  the watermarks. The second classifies \<^verbatim>\<open>LOW_SWAP_AND_THRASHING\<close> against the cached
  watermarks (\<^verbatim>\<open>WMARK_LOW\<close>, thrashing 150 below the critical 300) and sets the minimum
  score to 201. Being the first kill, it refreshes the watermarks and classifies again:
  the watermark is now \<^verbatim>\<open>WMARK_MIN\<close> and the reason is the same, for which the table
  gives 0; but the branch assigns the score only in the protected case, so the 201 of
  the first pass is passed to the victim selection, with no critical stall. The
  perceptible process is not considered.
\<close>

theorem stale_min_score_at_first_kill:
  "\<exists>res1 res2.
     mp_event_psi default_config kswapd_env PSI VMPRESS_LEVEL_MEDIUM 1
       (init_psi default_config) perceptible_proc_state init_poll = Inr res1 \<and>
     outcome res1 = No_kill_reason \<and> first_kill (new_psi res1) \<and>
     mp_event_psi default_config thrash_env PSI VMPRESS_LEVEL_MEDIUM 0
       (new_psi res1) (new_lmkd res1) (new_poll res1) = Inr res2 \<and>
     outcome res2 = Kill_attempt LOW_SWAP_AND_THRASHING 201 0 \<and>
     wmark (vars res2) = WMARK_MIN \<and> seen_thrashing res2 = 150 \<and>
     \<not> critical_stall (vars res2) \<and>
     step9_min_score default_config LOW_SWAP_AND_THRASHING (wmark (vars res2))
       (seen_thrashing res2) 0 = 0 \<and>
     new_lmkd res2 = perceptible_proc_state"
  unfolding mp_event_psi_def psi_assess_def psi_act_def psi_decide_def psi_kill_def
  by (simp add: engine_defs engine_inputs kswapd_env_def thrash_env_def
      perceptible_proc_state_not_waiting perceptible_proc_state_above_201 Let_def lmkd_consts)

text \<open>
  Once the first kill is behind (\<open>first_kill\<close> is cleared) there is a single pass, and
  the minimum score passed to the victim selection is the one of the table, or 0 under
  a critical stall.
\<close>

lemma psi_classify_table_cases:
  assumes "kill_reason v = NONE" and "min_score_adj v = 0"
  shows "case psi_classify cfg env inp ps v of
           None \<Rightarrow> True
         | Some (ps', v') \<Rightarrow>
             wmark v' = wmark v \<and> critical_stall v' = critical_stall v \<and>
             first_kill ps' = first_kill ps \<and>
             (kill_reason (psi_low_mem cfg v') \<noteq> NONE \<longrightarrow>
                min_score_adj (psi_low_mem cfg v') =
                  step9_min_score cfg (kill_reason (psi_low_mem cfg v')) (wmark v) (thrashing inp)
                    (vendor_kill_min_oom_score_adj env))"
  using assms
  by (simp add: psi_classify_def psi_low_mem_def perceptible_unless_def Let_def)

lemma psi_classify_table:
  assumes "psi_classify cfg env inp ps v = Some (ps', v')"
    and "kill_reason v = NONE" and "min_score_adj v = 0"
  shows "wmark v' = wmark v \<and> critical_stall v' = critical_stall v \<and>
         first_kill ps' = first_kill ps \<and>
         (kill_reason (psi_low_mem cfg v') \<noteq> NONE \<longrightarrow>
            min_score_adj (psi_low_mem cfg v') =
              step9_min_score cfg (kill_reason (psi_low_mem cfg v')) (wmark v) (thrashing inp)
                (vendor_kill_min_oom_score_adj env))"
  using psi_classify_table_cases [OF assms(2,3), where cfg = cfg and env = env and inp = inp
      and ps = ps] assms(1) by simp

lemma psi_pass_table:
  assumes "psi_pass cfg env penv t inp ps v = Inr (ps', v')"
    and "kill_reason v = NONE" and "min_score_adj v = 0"
  shows "first_kill ps' = first_kill ps \<and>
         (kill_reason v' \<noteq> NONE \<longrightarrow>
            min_score_adj v' =
              step9_min_score cfg (kill_reason v') (wmark v') (thrashing inp)
                (vendor_kill_min_oom_score_adj env))"
proof -
  define refresh where "refresh = (high_wmark (watermarks ps) = 0 \<or>
                     (\<not> mem_event_update_zoneinfo_supported ps \<and>
                      get_time_diff_ms (wmark_update_tm ps) t > 60000))"
  define ps1 where "ps1 = (case (refresh, zoneinfo_read penv) of
                         (True, Some zi) \<Rightarrow>
                           ps\<lparr>watermarks := calc_zone_watermarks zi, wmark_update_tm := t\<rparr>
                       | _ \<Rightarrow> ps)"
  define v2 where "v2 = (case psi_mem_stall penv of
                        None \<Rightarrow> v\<lparr>wmark := get_lowest_watermark (mi inp) (watermarks ps1)\<rparr>
                      | Some b \<Rightarrow> v\<lparr>wmark := get_lowest_watermark (mi inp) (watermarks ps1),
                                    critical_stall := b\<rparr>)"
  have fk1: "first_kill ps1 = first_kill ps"
    by (simp add: ps1_def split: option.splits bool.splits)
  have v2: "kill_reason v2 = NONE" "min_score_adj v2 = 0"
    using assms(2,3) by (simp_all add: v2_def split: option.splits)
  obtain ps2 v3 where c: "psi_classify cfg env inp ps1 v2 = Some (ps2, v3)"
    and r: "ps' = ps2" "v' = psi_low_mem cfg v3"
    using assms(1) unfolding psi_pass_def Let_def refresh_def [symmetric] ps1_def [symmetric]
    by (auto simp: v2_def split: if_splits option.splits prod.splits)
  have wm: "wmark (psi_low_mem cfg v3) = wmark v3"
    by (simp add: psi_low_mem_def)
  from psi_classify_table [OF c v2] show ?thesis
    unfolding r wm using fk1 by simp
qed

lemma psi_decide_table:
  assumes "psi_decide cfg env t inp ps init_vars st = Inr (Kill_attempt r m n, v', ps', st')"
    and "\<not> first_kill ps"
  shows "m = (if critical_stall v' then 0
              else step9_min_score cfg r (wmark v') (thrashing inp)
                     (vendor_kill_min_oom_score_adj env))"
proof (cases "psi_pass cfg env (pass1 env) t inp ps init_vars")
  case (Inl a)
  with assms(1) show ?thesis
    by (cases a) (auto simp: psi_decide_def dest: psi_pass_Inl)
next
  case (Inr b)
  obtain ps1 v1 where b: "b = (ps1, v1)" by (cases b)
  have iv: "kill_reason init_vars = NONE" "min_score_adj init_vars = 0"
    by (simp_all add: init_vars_def)
  from psi_pass_table [OF Inr [unfolded b] iv] assms(2)
  have fk: "\<not> first_kill ps1"
    and tab: "kill_reason v1 \<noteq> NONE \<Longrightarrow> min_score_adj v1 =
       step9_min_score cfg (kill_reason v1) (wmark v1) (thrashing inp)
         (vendor_kill_min_oom_score_adj env)"
    by simp_all
  have ne: "kill_reason v1 \<noteq> NONE"
    using assms(1) Inr b by (auto simp: psi_decide_def split: if_splits)
  obtain oc ps3 where k: "psi_kill cfg env t ps1 v1 st = Inr (oc, ps3, st')"
    and e: "oc = Kill_attempt r m n" "v' = v1"
    using assms(1) Inr b fk ne
    by (auto simp: psi_decide_def split: sum.splits prod.splits)
  from psi_kill_Inr [OF k] e
  have "r = kill_reason v1" "m = (if critical_stall v1 then 0 else min_score_adj v1)"
    by auto
  with tab [OF ne] e show ?thesis by simp
qed

lemma first_kill_kept:
  "psi_level_filter src lvl evs t ps = Some ps1 \<Longrightarrow> first_kill ps1 = first_kill ps"
  "first_kill (psi_post_kill_reset t refault v ps) = first_kill ps"
  "psi_reclaim_state src t refault v ps = Some (ps2, rcl, d) \<Longrightarrow> first_kill ps2 = first_kill ps"
  "psi_thrashing cfg t refault v ps = Inr (ps3, thr) \<Longrightarrow> first_kill ps3 = first_kill ps"
  "first_kill (psi_max_thrashing thr ps) = first_kill ps"
     apply (auto simp: psi_level_filter_def Let_def split: if_splits)[1]
    apply (simp add: psi_post_kill_reset_def)
   apply (auto simp: psi_reclaim_state_def Let_def split: if_splits)[1]
   apply (auto simp: psi_thrashing_def Let_def split: if_splits)[1]
  apply (simp add: psi_max_thrashing_def)
  done

lemma psi_act_table:
  assumes "psi_act cfg env t inp ps st pp = Inr res"
    and "outcome res = Kill_attempt r m n" and "\<not> first_kill ps"
  shows "m = (if critical_stall (vars res) then 0
              else step9_min_score cfg r (wmark (vars res)) (seen_thrashing res)
                     (vendor_kill_min_oom_score_adj env))"
proof -
  obtain v' ps' st' where
    d: "psi_decide cfg env t inp ps init_vars st = Inr (Kill_attempt r m n, v', ps', st')"
    and r: "vars res = v'" "seen_thrashing res = thrashing inp"
    using assms(1,2) unfolding psi_act_def
    by (auto split: sum.splits prod.splits)
  from psi_decide_table [OF d assms(3)] r show ?thesis by simp
qed

lemma psi_assess_table:
  assumes run: "psi_assess cfg env src lvl evs t v m' ps st pp = Inr res"
    and kill: "outcome res = Kill_attempt r m n" and nf: "\<not> first_kill ps"
  shows "m = (if critical_stall (vars res) then 0
              else step9_min_score cfg r (wmark (vars res)) (seen_thrashing res)
                     (vendor_kill_min_oom_score_adj env))"
proof -
  define refault where "refault = (if workingset_refault v \<noteq> 0 then workingset_refault v
                     else workingset_refault_file v)"
  define ps1 where "ps1 = psi_post_kill_reset t refault v ps"
  note run' = run [unfolded psi_assess_def Let_def, folded refault_def, folded ps1_def]
  show ?thesis
  proof (cases "psi_reclaim_state src t refault v ps1")
    case None
    with run' kill show ?thesis by (auto simp add: returned_def)
  next
    case (Some x)
    obtain ps2 rcl d where x: "x = (ps2, rcl, d)" by (cases x)
    have nf2: "\<not> first_kill ps2"
      using first_kill_kept(3) [OF Some [unfolded x]] nf
      by (simp add: ps1_def first_kill_kept(2))
    show ?thesis
    proof (cases "psi_thrashing cfg t refault v (ps2\<lparr>prev_workingset_refault := refault\<rparr>)")
      case (Inl e)
      with run' Some x show ?thesis by simp
    next
      case (Inr y)
      obtain ps3 thr where y: "y = (ps3, thr)" by (cases y)
      have nf3: "\<not> first_kill (psi_max_thrashing thr ps3)"
        using first_kill_kept(4) [OF Inr [unfolded y]] nf2 by (simp add: first_kill_kept(5))
      from run' Some x Inr y
      have "\<exists>inp. psi_act cfg env t inp (psi_max_thrashing thr ps3) st pp = Inr res"
        by auto
      then obtain inp where "psi_act cfg env t inp (psi_max_thrashing thr ps3) st pp = Inr res"
        by blast
      from psi_act_table [OF this kill nf3] show ?thesis .
    qed
  qed
qed

lemma min_score_follows_table_after_first_kill:
  assumes run: "mp_event_psi cfg env src lvl evs ps st pp = Inr res"
    and kill: "outcome res = Kill_attempt r m n"
    and nf: "\<not> first_kill ps"
  shows "m = (if critical_stall (vars res) then 0
              else step9_min_score cfg r (wmark (vars res)) (seen_thrashing res)
                     (vendor_kill_min_oom_score_adj env))"
proof -
  let ?lvl = "if src = PSI then lvl else VMPRESS_LEVEL_LOW"
  obtain t ps1 v m' where clk: "clock env = Some t"
    and f: "psi_level_filter src ?lvl evs t (ps\<lparr>mp_event_count := mp_event_count ps + 1\<rparr>)
              = Some ps1"
    and a: "psi_assess cfg env src ?lvl evs t v m' ps1 (stop_wait_for_proc_kill cfg st) pp
              = Inr res"
    using run kill unfolding mp_event_psi_def Let_def
    by (auto split: option.splits if_splits simp: returned_def)
  have nf1: "\<not> first_kill ps1" using first_kill_kept(1) [OF f] nf by simp
  from psi_assess_table [OF a kill nf1] show ?thesis .
qed

end
